theory Spec2Isabelle
  imports Complex_Main "HOL-Library.Word"
begin

section \<open>The ATL03 photon subsetter (Atl03Reader.cpp)\<close>

text \<open>
  A shallow embedding of the per-beam subsetting pipeline of
  \<^verbatim>\<open>src/plugins/icesat2/plugin/Atl03Reader.cpp\<close>.

  Conventions of the embedding.
  \<^item> C++ \<^verbatim>\<open>int\<close>, \<^verbatim>\<open>int32_t\<close> and \<^verbatim>\<open>long\<close> counters are \<open>int\<close>: the accumulators of
    the source are 64 bit wide and sum fewer than \<open>2^31\<close> values of 32 bits, so they do not
    wrap. A narrowing assignment is written out (\<open>to_int32\<close>).
  \<^item> \<^verbatim>\<open>double\<close> and \<^verbatim>\<open>float\<close> values are \<open>real\<close>; rounding and NaN are not modelled.
  \<^item> A \<^verbatim>\<open>throw RunTimeException(level, code, ...)\<close> is the value \<open>Inl (RunTimeException level code)\<close>.
  \<^item> An array read whose index the source does not guard is \<open>rd\<close>, which is \<open>None\<close>
    outside the array.
\<close>

subsection \<open>Exceptions\<close>

datatype event_level = DEBUG | INFO | WARNING | ERROR | CRITICAL

datatype rte_code = RTE_INFO | RTE_ERROR | RTE_TIMEOUT | RTE_RESOURCE_DOES_NOT_EXIST | RTE_EMPTY_SUBSET

datatype RunTimeException = RunTimeException (level: event_level) (code: rte_code)

subsection \<open>Resource name parser\<close>











subsection \<open>Region cropper\<close>

text \<open>
  The members of \<^verbatim>\<open>Atl03Reader::Region\<close>. The three per-segment datasets have one entry per
  segment; \<^verbatim>\<open>inclusion_mask\<close> and \<^verbatim>\<open>inclusion_ptr\<close> are \<open>None\<close> while they are \<^verbatim>\<open>NULL\<close>.
\<close>

record region =
  segment_lat :: "real list"
  segment_lon :: "real list"
  segment_ph_cnt :: "int list"
  first_segment :: int
  num_segments :: int
  first_photon :: int
  num_photons :: int
  inclusion_mask :: "bool list option"
  inclusion_ptr :: "bool list option"

text \<open>
  The part of \<^verbatim>\<open>Icesat2Parms\<close> that selects the spatial filter. \<open>raster\<close> is the
  \<^verbatim>\<open>includes(lon, lat)\<close> test of the raster object when there is one; \<open>inpoly\<close> is
  \<^verbatim>\<open>MathLib::inpoly(projected_poly, points_in_poly, MathLib::coord2point({lon, lat}, projection))\<close>.
  Both tests belong to the geometry library and are parameters here.
\<close>

record spatial_parms =
  raster :: "(real \<Rightarrow> real \<Rightarrow> bool) option"
  points_in_poly :: int
  inpoly :: "real \<Rightarrow> real \<Rightarrow> bool"

text \<open>
  The \<^verbatim>\<open>while\<close> loop of \<^verbatim>\<open>Region::polyregion\<close> (lines 322-369), from the state
  \<open>(first_segment_found, segment)\<close> and the region fields; the \<^verbatim>\<open>break\<close> returns them.
\<close>

function polyregion_loop ::
  "(real \<Rightarrow> real \<Rightarrow> bool) \<Rightarrow> bool \<Rightarrow> nat \<Rightarrow> region \<Rightarrow> bool \<times> nat \<times> region" where
  "polyregion_loop incl first_segment_found segment r =
     (if segment < length (segment_ph_cnt r) then
        (let inclusion = incl (segment_lon r ! segment) (segment_lat r ! segment) in
         if \<not> first_segment_found then
           (if inclusion \<and> segment_ph_cnt r ! segment \<noteq> 0
            then polyregion_loop incl True (segment + 1)
                   (r\<lparr>first_segment := int segment, num_photons := segment_ph_cnt r ! segment\<rparr>)
            else polyregion_loop incl False (segment + 1)
                   (r\<lparr>first_photon := first_photon r + segment_ph_cnt r ! segment\<rparr>))
         else
           (if \<not> inclusion \<and> segment_ph_cnt r ! segment \<noteq> 0
            then (first_segment_found, segment, r)
            else polyregion_loop incl True (segment + 1)
                   (r\<lparr>num_photons := num_photons r + segment_ph_cnt r ! segment\<rparr>)))
      else (first_segment_found, segment, r))"
  by pat_completeness auto
termination
  by (relation "measure (\<lambda>(incl, found, segment, r). length (segment_ph_cnt r) - segment)") auto

declare polyregion_loop.simps [simp del]

definition polyregion :: "(real \<Rightarrow> real \<Rightarrow> bool) \<Rightarrow> region \<Rightarrow> region" where
  "polyregion incl r =
     (case polyregion_loop incl False 0 r of
        (first_segment_found, segment, r') \<Rightarrow>
          if first_segment_found then r'\<lparr>num_segments := int segment - first_segment r'\<rparr> else r')"

text \<open>
  The \<^verbatim>\<open>while\<close> loop of \<^verbatim>\<open>Region::rasterregion\<close> (lines 400-449). The mask is written
  only for a segment that holds photons.
\<close>

function rasterregion_loop ::
  "(real \<Rightarrow> real \<Rightarrow> bool) \<Rightarrow> bool \<Rightarrow> int \<Rightarrow> int \<Rightarrow> nat \<Rightarrow> region
     \<Rightarrow> bool \<times> int \<times> int \<times> nat \<times> region" where
  "rasterregion_loop includes first_segment_found curr_num_photons last_segment segment r =
     (if segment < length (segment_ph_cnt r) then
        (if segment_ph_cnt r ! segment \<noteq> 0 then
           (let inclusion = includes (segment_lon r ! segment) (segment_lat r ! segment);
                r1 = r\<lparr>inclusion_mask := map_option (\<lambda>m. m[segment := inclusion]) (inclusion_mask r)\<rparr>
            in
            if \<not> first_segment_found then
              (if inclusion
               then rasterregion_loop includes True (segment_ph_cnt r ! segment) (int segment) (segment + 1)
                      (r1\<lparr>first_segment := int segment, num_photons := segment_ph_cnt r ! segment\<rparr>)
               else rasterregion_loop includes False curr_num_photons last_segment (segment + 1)
                      (r1\<lparr>first_photon := first_photon r + segment_ph_cnt r ! segment\<rparr>))
            else
              (if inclusion
               then rasterregion_loop includes True (curr_num_photons + segment_ph_cnt r ! segment)
                      (int segment) (segment + 1)
                      (r1\<lparr>num_photons := curr_num_photons + segment_ph_cnt r ! segment\<rparr>)
               else rasterregion_loop includes True (curr_num_photons + segment_ph_cnt r ! segment)
                      last_segment (segment + 1) r1))
         else rasterregion_loop includes first_segment_found curr_num_photons last_segment (segment + 1) r)
      else (first_segment_found, curr_num_photons, last_segment, segment, r))"
  by pat_completeness auto
termination
  by (relation "measure (\<lambda>(includes, found, curr, last, segment, r). length (segment_ph_cnt r) - segment)") auto

declare rasterregion_loop.simps [simp del]

text \<open>
  \<^verbatim>\<open>Region::rasterregion\<close>. \<open>fresh i\<close> is the content of cell \<open>i\<close> of the array that
  \<^verbatim>\<open>new bool [segment_ph_cnt.size]\<close> returns, which the source does not initialise.
  \<^verbatim>\<open>inclusion_ptr\<close> aliases the mask: it is read off the final mask, from \<^verbatim>\<open>first_segment\<close>
  when a first segment was found and from the start otherwise.
\<close>

definition rasterregion :: "(nat \<Rightarrow> bool) \<Rightarrow> (real \<Rightarrow> real \<Rightarrow> bool) \<Rightarrow> region \<Rightarrow> region" where
  "rasterregion fresh includes r =
     (if length (segment_ph_cnt r) = 0 then r
      else
        (let mask = map fresh [0 ..< length (segment_ph_cnt r)];
             r0 = r\<lparr>inclusion_mask := Some mask, inclusion_ptr := Some mask\<rparr>
         in case rasterregion_loop includes False 0 0 0 r0 of
              (first_segment_found, curr_num_photons, last_segment, segment, r') \<Rightarrow>
                if first_segment_found
                then r'\<lparr>num_segments := last_segment - first_segment r' + 1,
                        inclusion_ptr := map_option (drop (nat (first_segment r'))) (inclusion_mask r')\<rparr>
                else r'\<lparr>inclusion_ptr := inclusion_mask r'\<rparr>))"

text \<open>
  The constructor \<^verbatim>\<open>Region::Region\<close> (lines 244-295) once the three reads have joined.
  \<^verbatim>\<open>H5Coro::ALL_ROWS\<close> is declared outside \<^verbatim>\<open>src/\<close> and is a parameter. \<^verbatim>\<open>trim(n)\<close> drops
  the first \<open>n\<close> entries of a dataset.
\<close>

definition Region ::
  "int \<Rightarrow> (nat \<Rightarrow> bool) \<Rightarrow> spatial_parms \<Rightarrow> real list \<Rightarrow> real list \<Rightarrow> int list
     \<Rightarrow> RunTimeException + region" where
  "Region ALL_ROWS fresh parms lat lon cnt =
     (let r0 = \<lparr>segment_lat = lat, segment_lon = lon, segment_ph_cnt = cnt,
                first_segment = 0, num_segments = ALL_ROWS, first_photon = 0, num_photons = ALL_ROWS,
                inclusion_mask = None, inclusion_ptr = None\<rparr>;
          cropped = (case raster parms of
                       Some includes \<Rightarrow> Some (rasterregion fresh includes r0)
                     | None \<Rightarrow> if 0 < points_in_poly parms then Some (polyregion (inpoly parms) r0)
                               else None)
      in case cropped of
           None \<Rightarrow> Inr r0
         | Some r \<Rightarrow>
             if num_photons r \<le> 0 then Inl (RunTimeException DEBUG RTE_EMPTY_SUBSET)
             else Inr (r\<lparr>segment_lat := drop (nat (first_segment r)) (segment_lat r),
                         segment_lon := drop (nat (first_segment r)) (segment_lon r),
                         segment_ph_cnt := drop (nat (first_segment r)) (segment_ph_cnt r)\<rparr>))"

text \<open>Crop closure, in the words of section 8 of the specification.\<close>

definition crop_closure :: "int list \<Rightarrow> region \<Rightarrow> bool" where
  "crop_closure cnt r \<longleftrightarrow>
     0 \<le> first_segment r \<and> 0 \<le> num_segments r \<and>
     first_segment r + num_segments r \<le> int (length cnt) \<and>
     first_photon r = sum_list (take (nat (first_segment r)) cnt) \<and>
     num_photons r = sum_list (take (nat (num_segments r)) (drop (nat (first_segment r)) cnt))"


text \<open>The loop invariants of the two croppers.\<close>

definition poly_inv :: "int list \<Rightarrow> bool \<Rightarrow> nat \<Rightarrow> region \<Rightarrow> bool" where
  "poly_inv cnt found segment r \<longleftrightarrow>
     segment \<le> length cnt \<and> segment_ph_cnt r = cnt \<and>
     (if found
      then 0 \<le> first_segment r \<and> nat (first_segment r) < segment \<and>
           first_photon r = sum_list (take (nat (first_segment r)) cnt) \<and>
           num_photons r = sum_list (take (segment - nat (first_segment r)) (drop (nat (first_segment r)) cnt))
      else first_photon r = sum_list (take segment cnt))"

definition raster_inv :: "int list \<Rightarrow> bool \<Rightarrow> int \<Rightarrow> int \<Rightarrow> nat \<Rightarrow> region \<Rightarrow> bool" where
  "raster_inv cnt found cur lastseg segment r \<longleftrightarrow>
     segment \<le> length cnt \<and> segment_ph_cnt r = cnt \<and>
     (if found
      then 0 \<le> first_segment r \<and> first_segment r \<le> lastseg \<and> nat lastseg < segment \<and>
           first_photon r = sum_list (take (nat (first_segment r)) cnt) \<and>
           cur = sum_list (take (segment - nat (first_segment r)) (drop (nat (first_segment r)) cnt)) \<and>
           num_photons r = sum_list (take (nat (lastseg - first_segment r + 1)) (drop (nat (first_segment r)) cnt))
      else first_photon r = sum_list (take segment cnt))"

text \<open>
  A beam of eight segments, of which those of latitude between 0 and 10 lie inside the
  filter.
\<close>

definition example_lat :: "real list" where
  "example_lat = [-2, -1, 1, 2, 3, 11, 4, 12]"
definition example_lon :: "real list" where
  "example_lon = [0, 0, 0, 0, 0, 0, 0, 0]"
definition example_cnt :: "int list" where
  "example_cnt = [5, 0, 7, 0, 2, 3, 4, 9]"
definition example_band :: "real \<Rightarrow> real \<Rightarrow> bool" where
  "example_band lon lat = (0 \<le> lat \<and> lat \<le> 10)"
definition example_polygon :: spatial_parms where
  "example_polygon = \<lparr>raster = None, points_in_poly = 4, inpoly = example_band\<rparr>"
definition example_raster :: spatial_parms where
  "example_raster = \<lparr>raster = Some example_band, points_in_poly = 0, inpoly = (\<lambda>lon lat. False)\<rparr>"

subsection \<open>Constants, parameters and datasets\<close>

text \<open>
  The enumerators, constants and static functions that the reader takes from \<^verbatim>\<open>Icesat2Parms\<close>,
  \<^verbatim>\<open>Atl08Class\<close> and \<^verbatim>\<open>Atl03Reader\<close>. Their declarations are outside \<^verbatim>\<open>src/\<close>, so they are
  parameters of the embedding. \<open>getSpotNumber\<close> takes the spacecraft orientation, the track
  and the pair.
\<close>

record constants =
  CNF_POSSIBLE_TEP :: int
  CNF_SURFACE_HIGH :: int
  SIGNAL_CONF_OFFSET :: int
  QUALITY_NOMINAL :: int
  QUALITY_POSSIBLE_TEP :: int
  NUM_ATL08_CLASSES :: int
  ATL08_TOP_OF_CANOPY :: int
  ATL08_UNCLASSIFIED :: int
  NUM_ATL03_SEGS_IN_ATL08_SEG :: int
  INVALID_FLAG :: int
  INVALID_INDICE :: int
  getSpotNumber :: "int \<Rightarrow> int \<Rightarrow> int \<Rightarrow> int"
  deltatime2timestamp :: "real \<Rightarrow> int"

text \<open>The members of \<^verbatim>\<open>parms->yapc\<close> and \<^verbatim>\<open>parms->phoreal\<close> that the reader uses.\<close>

record yapc_t =
  score :: int
  version :: int
  knn :: int
  win_h :: real
  win_x :: real

record phoreal_t =
  use_abs_h :: bool
  above_classifier :: bool

text \<open>
  The members of \<^verbatim>\<open>Icesat2Parms\<close> that the extent state machine and the classifier use. The
  acceptance tables \<^verbatim>\<open>parms->atl03_cnf\<close>, \<^verbatim>\<open>parms->quality_ph\<close> and \<^verbatim>\<open>parms->atl08_class\<close> are
  \<open>parms_atl03_cnf\<close>, \<open>parms_quality_ph\<close> and \<open>parms_atl08_class\<close>.
\<close>

record Icesat2Parms =
  dist_in_seg :: bool
  extent_length :: real
  extent_step :: real
  parms_atl03_cnf :: "bool list"
  parms_quality_ph :: "bool list"
  parms_atl08_class :: "bool list"
  yapc :: yapc_t
  phoreal :: phoreal_t
  minimum_photon_count :: int
  along_track_spread :: real
  pass_invalid :: bool

text \<open>The beam of a worker (\<^verbatim>\<open>info_t\<close>) with the identifiers the reader parsed.\<close>

record info_t =
  track :: int
  pair :: int
  start_rgt :: int
  start_cycle :: int

text \<open>
  The datasets of \<^verbatim>\<open>Atl03Data\<close>, as read. The per-segment datasets are read with the window
  \<open>(first_segment, num_segments)\<close>, the per-photon ones with \<open>(first_photon, num_photons)\<close>;
  \<open>signal_conf_ph\<close> is the column of the surface type.
\<close>

record Atl03Data =
  sc_orient :: "int list"
  velocity_sc :: "real list"
  segment_delta_time :: "real list"
  segment_id :: "int list"
  segment_dist_x :: "real list"
  solar_elevation :: "real list"
  dist_ph_along :: "real list"
  dist_ph_across :: "real list"
  h_ph :: "real list"
  signal_conf_ph :: "int list"
  quality_ph :: "int list"
  lat_ph :: "real list"
  lon_ph :: "real list"
  delta_time :: "real list"
  bckgrd_delta_time :: "real list"
  bckgrd_rate :: "real list"
  anc_geo_data :: bool
  anc_ph_data :: bool

text \<open>The cast \<^verbatim>\<open>(uint8_t)\<close> of an integer keeps the low 8 bits.\<close>

definition uint8_t :: "int \<Rightarrow> int" where
  "uint8_t x = x mod 256"

text \<open>
  A read at an index that the source does not compare with the size of the array it reads:
  \<open>None\<close> when the index is outside the array, where the C++ behaviour is undefined.
\<close>

definition rd :: "'a list \<Rightarrow> int \<Rightarrow> 'a option" where
  "rd xs i = (if 0 \<le> i \<and> i < int (length xs) then Some (xs ! nat i) else None)"

text \<open>
  The photon of an extent (\<^verbatim>\<open>photon_t\<close>) and the state of a track (\<^verbatim>\<open>TrackState\<close>). The
  members \<^verbatim>\<open>relief\<close>, \<^verbatim>\<open>landcover\<close>, \<^verbatim>\<open>snowcover\<close> and \<^verbatim>\<open>quality_ph\<close> of a photon carry the
  prefix \<open>ph_\<close>, and \<^verbatim>\<open>state.extent_length\<close> is \<open>state_extent_length\<close>, apart from the datasets
  and the parameter of the same names.
\<close>

record photon_t =
  time_ns :: int
  latitude :: real
  longitude :: real
  x_atc :: real
  y_atc :: real
  height :: real
  ph_relief :: real
  ph_landcover :: int
  ph_snowcover :: int
  atl08_class :: int
  atl03_cnf :: int
  ph_quality_ph :: int
  yapc_score :: int

record TrackState =
  ph_in :: int
  seg_in :: int
  seg_ph :: int
  start_segment :: int
  start_distance :: real
  seg_distance :: real
  start_seg_portion :: real
  track_complete :: bool
  bckgrd_in :: int
  extent_segment :: int
  extent_valid :: bool
  state_extent_length :: real
  extent_photons :: "photon_t list"

subsection \<open>ATL08 classifier join\<close>

text \<open>
  The members of \<^verbatim>\<open>Atl03Reader::Atl08Class\<close>: the flags set by the constructor, the ATL08
  datasets (read whole, per signal photon and per land segment) and the arrays that
  \<^verbatim>\<open>classify\<close> allocates, \<open>None\<close> while they are \<^verbatim>\<open>NULL\<close>. The member \<^verbatim>\<open>phoreal\<close> is
  \<open>atl08_phoreal\<close>.
\<close>

record Atl08Class =
  enabled :: bool
  atl08_phoreal :: bool
  ancillary :: bool
  atl08_segment_id :: "int list"
  atl08_pc_indx :: "int list"
  atl08_pc_flag :: "int list"
  atl08_ph_h :: "real list"
  segment_id_beg :: "int list"
  segment_landcover :: "int list"
  segment_snowcover :: "int list"
  anc_seg_data :: bool
  classification :: "int list option"
  relief :: "real list option"
  landcover :: "int list option"
  snowcover :: "int list option"
  anc_seg_indices :: "int list option"

text \<open>
  The three cursors of \<^verbatim>\<open>classify\<close> and what it has written. The cursors start at 0 and
  are only incremented, so they are natural numbers. The source writes the cell
  \<open>atl03_photon\<close> of each output array and then increments \<open>atl03_photon\<close>, from 0: the
  lists hold the cells written so far, in order.
\<close>

record join_state =
  atl03_photon :: nat
  atl08_photon :: nat
  atl08_segment_index :: nat
  class_out :: "int list"
  relief_out :: "real list"
  landcover_out :: "int list"
  snowcover_out :: "int list"
  anc_out :: "int list"

text \<open>Lines 693-697: the land segment that covers the ATL03 segment.\<close>

function advance_land_segment :: "constants \<Rightarrow> Atl08Class \<Rightarrow> int \<Rightarrow> nat \<Rightarrow> nat" where
  "advance_land_segment K a8 atl03_segment idx =
     (if idx < length (segment_id_beg a8) \<and>
         segment_id_beg a8 ! idx + NUM_ATL03_SEGS_IN_ATL08_SEG K \<le> atl03_segment
      then advance_land_segment K a8 atl03_segment (idx + 1)
      else idx)"
  by pat_completeness auto
termination
  by (relation "measure (\<lambda>(K, a8, atl03_segment, idx). length (segment_id_beg a8) - idx)") auto

declare advance_land_segment.simps [simp del]

text \<open>Lines 705-709: skip the ATL08 rows of earlier segments.\<close>

function goto_atl08_segment :: "Atl08Class \<Rightarrow> int \<Rightarrow> nat \<Rightarrow> nat" where
  "goto_atl08_segment a8 atl03_segment p =
     (if p < length (atl08_segment_id a8) \<and> atl08_segment_id a8 ! p < atl03_segment
      then goto_atl08_segment a8 atl03_segment (p + 1)
      else p)"
  by pat_completeness auto
termination
  by (relation "measure (\<lambda>(a8, atl03_segment, p). length (atl08_segment_id a8) - p)") auto

declare goto_atl08_segment.simps [simp del]

text \<open>
  Lines 711-716: skip the rows of this segment with a smaller photon index. Only the size of
  \<^verbatim>\<open>atl08_segment_id\<close> guards the read of \<^verbatim>\<open>atl08_pc_indx\<close>.
\<close>

function goto_atl08_photon :: "Atl08Class \<Rightarrow> int \<Rightarrow> int \<Rightarrow> nat \<Rightarrow> nat option" where
  "goto_atl08_photon a8 atl03_segment atl03_count p =
     (if p < length (atl08_segment_id a8) \<and> atl08_segment_id a8 ! p = atl03_segment
      then (case rd (atl08_pc_indx a8) (int p) of
              None \<Rightarrow> None
            | Some indx \<Rightarrow>
                if indx < atl03_count then goto_atl08_photon a8 atl03_segment atl03_count (p + 1)
                else Some p)
      else Some p)"
  by pat_completeness auto
termination
  by (relation "measure (\<lambda>(a8, atl03_segment, atl03_count, p).
         length (atl08_segment_id a8) - p)") auto

declare goto_atl08_photon.simps [simp del]

text \<open>
  Lines 734-746, the ABoVE classifier, for a photon of class \<open>cls\<close> and relief \<open>relief_v\<close>.
  The solar elevation is read at the index \<^verbatim>\<open>atl03_segment\<close>, as line 737 has it. The
  conjunction is evaluated from the left, so the signal confidence is read only when the
  elevation and the spot pass.
\<close>

definition above_reclassify ::
  "constants \<Rightarrow> info_t \<Rightarrow> Atl03Data \<Rightarrow> int \<Rightarrow> nat \<Rightarrow> real \<Rightarrow> int \<Rightarrow> int option" where
  "above_reclassify K info atl03 atl03_segment atl03_photon_v relief_v cls =
     (case rd (sc_orient atl03) 0 of
        None \<Rightarrow> None
      | Some orient \<Rightarrow>
         (let spot = uint8_t (getSpotNumber K orient (track info) (pair info)) in
          case rd (solar_elevation atl03) atl03_segment of
            None \<Rightarrow> None
          | Some elevation \<Rightarrow>
             if elevation \<le> 5 \<and> (spot = 1 \<or> spot = 3 \<or> spot = 5) then
               (case rd (signal_conf_ph atl03) (int atl03_photon_v) of
                  None \<Rightarrow> None
                | Some cnf \<Rightarrow>
                   Some (if cnf = CNF_SURFACE_HIGH K \<and> (0 \<le> relief_v \<and> relief_v < 35)
                         then uint8_t (ATL08_TOP_OF_CANOPY K) else cls))
             else Some cls))"

text \<open>
  Lines 719-757, the branch of a photon that matches the ATL08 row \<open>p\<close>: the class, the
  PhoREAL fields and the ancillary index are written, and the ATL08 cursor moves past the row.
\<close>

definition classify_match ::
  "constants \<Rightarrow> Icesat2Parms \<Rightarrow> info_t \<Rightarrow> Atl03Data \<Rightarrow> Atl08Class \<Rightarrow> int \<Rightarrow> nat \<Rightarrow> join_state
     \<Rightarrow> join_state option" where
  "classify_match K parms info atl03 a8 atl03_segment p js =
     (case rd (atl08_pc_flag a8) (int p) of
        None \<Rightarrow> None
      | Some flag \<Rightarrow>
         (let js1 = js\<lparr>class_out := class_out js @ [uint8_t flag]\<rparr>;
              js2 =
                (if atl08_phoreal a8 then
                   (case rd (atl08_ph_h a8) (int p) of
                      None \<Rightarrow> None
                    | Some h \<Rightarrow>
                       (case rd (segment_landcover a8) (int (atl08_segment_index js)) of
                          None \<Rightarrow> None
                        | Some lc \<Rightarrow>
                           (case rd (segment_snowcover a8) (int (atl08_segment_index js)) of
                              None \<Rightarrow> None
                            | Some sc \<Rightarrow>
                               (let js3 = js1\<lparr>relief_out := relief_out js @ [h],
                                              landcover_out := landcover_out js @ [uint8_t lc],
                                              snowcover_out := snowcover_out js @ [uint8_t sc]\<rparr>
                                in if above_classifier (phoreal parms) \<and>
                                      uint8_t flag \<noteq> ATL08_TOP_OF_CANOPY K
                                   then map_option (\<lambda>cls. js3\<lparr>class_out := class_out js @ [cls]\<rparr>)
                                          (above_reclassify K info atl03 atl03_segment
                                             (atl03_photon js) h (uint8_t flag))
                                   else Some js3))))
                 else Some js1)
          in map_option
               (\<lambda>js4. js4\<lparr>anc_out := (if ancillary a8 then anc_out js @ [int (atl08_segment_index js)]
                                        else anc_out js),
                           atl08_photon := p + 1\<rparr>) js2))"

text \<open>Lines 758-776, the branch of a photon without an ATL08 row.\<close>

definition classify_no_match :: "constants \<Rightarrow> Atl08Class \<Rightarrow> nat \<Rightarrow> join_state \<Rightarrow> join_state" where
  "classify_no_match K a8 p js =
     (let js1 = js\<lparr>class_out := class_out js @ [uint8_t (ATL08_UNCLASSIFIED K)], atl08_photon := p\<rparr>;
          js2 = (if atl08_phoreal a8
                 then js1\<lparr>relief_out := relief_out js @ [0],
                          landcover_out := landcover_out js @ [uint8_t (INVALID_FLAG K)],
                          snowcover_out := snowcover_out js @ [uint8_t (INVALID_FLAG K)]\<rparr>
                 else js1)
      in if ancillary a8 then js2\<lparr>anc_out := anc_out js @ [INVALID_INDICE K]\<rparr> else js2)"

text \<open>
  Lines 704-779, the body of the loop over \<^verbatim>\<open>atl03_count\<close>. The output arrays have
  \<^verbatim>\<open>atl03.dist_ph_along.size\<close> cells, so a photon beyond them is written outside.
\<close>

definition classify_photon ::
  "constants \<Rightarrow> Icesat2Parms \<Rightarrow> info_t \<Rightarrow> Atl03Data \<Rightarrow> Atl08Class \<Rightarrow> int \<Rightarrow> int \<Rightarrow> join_state
     \<Rightarrow> join_state option" where
  "classify_photon K parms info atl03 a8 atl03_segment atl03_count js =
     (case goto_atl08_photon a8 atl03_segment atl03_count
             (goto_atl08_segment a8 atl03_segment (atl08_photon js)) of
        None \<Rightarrow> None
      | Some p \<Rightarrow>
         (case (if p < length (atl08_segment_id a8) \<and> atl08_segment_id a8 ! p = atl03_segment
                then map_option (\<lambda>indx. indx = atl03_count) (rd (atl08_pc_indx a8) (int p))
                else Some False) of
            None \<Rightarrow> None
          | Some matched \<Rightarrow>
             if atl03_photon js < length (dist_ph_along atl03) then
               map_option (\<lambda>js'. js'\<lparr>atl03_photon := atl03_photon js + 1\<rparr>)
                 (if matched then classify_match K parms info atl03 a8 atl03_segment p js
                  else Some (classify_no_match K a8 p js))
             else None))"

text \<open>The loop \<^verbatim>\<open>for(int atl03_count = 1; atl03_count <= atl03_segment_count; atl03_count++)\<close>.\<close>

function classify_photons ::
  "constants \<Rightarrow> Icesat2Parms \<Rightarrow> info_t \<Rightarrow> Atl03Data \<Rightarrow> Atl08Class \<Rightarrow> int \<Rightarrow> int \<Rightarrow> int \<Rightarrow> join_state
     \<Rightarrow> join_state option" where
  "classify_photons K parms info atl03 a8 atl03_segment atl03_segment_count atl03_count js =
     (if atl03_count \<le> atl03_segment_count then
        (case classify_photon K parms info atl03 a8 atl03_segment atl03_count js of
           None \<Rightarrow> None
         | Some js' \<Rightarrow>
             classify_photons K parms info atl03 a8 atl03_segment atl03_segment_count
               (atl03_count + 1) js')
      else Some js)"
  by pat_completeness auto
termination
  by (relation "measure (\<lambda>(K, parms, info, atl03, a8, atl03_segment, atl03_segment_count, atl03_count, js).
         nat (atl03_segment_count + 1 - atl03_count))") auto

declare classify_photons.simps [simp del]

text \<open>
  The loop over \<^verbatim>\<open>atl03_segment_index\<close> (lines 686-781). The photon count of the segment
  is read from the trimmed \<^verbatim>\<open>region.segment_ph_cnt\<close>, which the size of \<^verbatim>\<open>atl03.segment_id\<close>
  does not bound.
\<close>

function classify_segments ::
  "constants \<Rightarrow> Icesat2Parms \<Rightarrow> info_t \<Rightarrow> region \<Rightarrow> Atl03Data \<Rightarrow> Atl08Class \<Rightarrow> nat \<Rightarrow> join_state
     \<Rightarrow> join_state option" where
  "classify_segments K parms info region atl03 a8 atl03_segment_index js =
     (if atl03_segment_index < length (segment_id atl03) then
        (let atl03_segment = segment_id atl03 ! atl03_segment_index;
             js1 = (if atl08_phoreal a8 \<or> ancillary a8
                    then js\<lparr>atl08_segment_index :=
                              advance_land_segment K a8 atl03_segment (atl08_segment_index js)\<rparr>
                    else js)
         in case rd (segment_ph_cnt region) (int atl03_segment_index) of
              None \<Rightarrow> None
            | Some atl03_segment_count \<Rightarrow>
               (case classify_photons K parms info atl03 a8 atl03_segment atl03_segment_count 1 js1 of
                  None \<Rightarrow> None
                | Some js2 \<Rightarrow>
                    classify_segments K parms info region atl03 a8 (atl03_segment_index + 1) js2))
      else Some js)"
  by pat_completeness auto
termination
  by (relation "measure (\<lambda>(K, parms, info, region, atl03, a8, atl03_segment_index, js).
         length (segment_id atl03) - atl03_segment_index)") auto

declare classify_segments.simps [simp del]

text \<open>
  \<^verbatim>\<open>Atl08Class::classify\<close>, once the reads have joined: nothing when the stage is off;
  otherwise the arrays are allocated and filled. \<open>None\<close> is an access outside an array.
\<close>

definition classify ::
  "constants \<Rightarrow> Icesat2Parms \<Rightarrow> info_t \<Rightarrow> region \<Rightarrow> Atl03Data \<Rightarrow> Atl08Class \<Rightarrow> Atl08Class option" where
  "classify K parms info region atl03 a8 =
     (if \<not> enabled a8 then Some a8
      else
        map_option
          (\<lambda>js. a8\<lparr>classification := Some (class_out js),
                    relief := (if atl08_phoreal a8 then Some (relief_out js) else None),
                    landcover := (if atl08_phoreal a8 then Some (landcover_out js) else None),
                    snowcover := (if atl08_phoreal a8 then Some (snowcover_out js) else None),
                    anc_seg_indices := (if ancillary a8 then Some (anc_out js) else None)\<rparr>)
          (classify_segments K parms info region atl03 a8 0
             \<lparr>atl03_photon = 0, atl08_photon = 0, atl08_segment_index = 0, class_out = [],
              relief_out = [], landcover_out = [], snowcover_out = [], anc_out = []\<rparr>))"













text \<open>
  Values for the constants, with \<^verbatim>\<open>ATL08_UNCLASSIFIED = 0\<close> as section 8 of the specification
  has it and every beam on spot 1, and parameters that accept every photon.
\<close>

definition example_constants :: constants where
  "example_constants =
     \<lparr>CNF_POSSIBLE_TEP = - 2, CNF_SURFACE_HIGH = 4, SIGNAL_CONF_OFFSET = 2, QUALITY_NOMINAL = 0,
      QUALITY_POSSIBLE_TEP = 3, NUM_ATL08_CLASSES = 5, ATL08_TOP_OF_CANOPY = 3,
      ATL08_UNCLASSIFIED = 0, NUM_ATL03_SEGS_IN_ATL08_SEG = 5, INVALID_FLAG = 255,
      INVALID_INDICE = - 1, getSpotNumber = (\<lambda>orient t p. 1), deltatime2timestamp = (\<lambda>t. 0)\<rparr>"

definition example_parms :: Icesat2Parms where
  "example_parms =
     \<lparr>dist_in_seg = False, extent_length = 20, extent_step = 20,
      parms_atl03_cnf = [True, True, True, True, True, True, True],
      parms_quality_ph = [True, True, True, True],
      parms_atl08_class = [True, True, True, True, True],
      yapc = \<lparr>score = 0, version = 3, knn = 0, win_h = 6, win_x = 15\<rparr>,
      phoreal = \<lparr>use_abs_h = False, above_classifier = False\<rparr>,
      minimum_photon_count = 1, along_track_spread = 0, pass_invalid = True\<rparr>"

definition example_info :: info_t where
  "example_info = \<lparr>track = 1, pair = 0, start_rgt = 315, start_cycle = 1\<rparr>"

text \<open>
  A beam: the segment ids with their solar elevations and photon counts; every photon has
  the signal confidence 4 and the quality 0.
\<close>

definition example_region :: "int list \<Rightarrow> region" where
  "example_region cnt =
     \<lparr>segment_lat = map (\<lambda>c. 0) cnt, segment_lon = map (\<lambda>c. 0) cnt, segment_ph_cnt = cnt,
      first_segment = 0, num_segments = int (length cnt), first_photon = 0,
      num_photons = sum_list cnt, inclusion_mask = None, inclusion_ptr = None\<rparr>"

definition example_atl03 :: "int list \<Rightarrow> real list \<Rightarrow> nat \<Rightarrow> Atl03Data" where
  "example_atl03 ids elevations n =
     \<lparr>sc_orient = [0], velocity_sc = concat (map (\<lambda>i. [0, 0, 0]) ids),
      segment_delta_time = map real_of_int ids, segment_id = ids,
      segment_dist_x = map (\<lambda>i. 20 * real_of_int i) ids, solar_elevation = elevations,
      dist_ph_along = replicate n 0, dist_ph_across = replicate n 0, h_ph = replicate n 0,
      signal_conf_ph = replicate n 4, quality_ph = replicate n 0, lat_ph = replicate n 0,
      lon_ph = replicate n 0, delta_time = replicate n 0,
      bckgrd_delta_time = [0, 10], bckgrd_rate = [100, 200],
      anc_geo_data = False, anc_ph_data = False\<rparr>"

text \<open>ATL08 rows \<open>(segment id, photon index, flag)\<close>, without PhoREAL.\<close>

definition example_atl08 :: "(int \<times> int \<times> int) list \<Rightarrow> Atl08Class" where
  "example_atl08 rows =
     \<lparr>enabled = True, atl08_phoreal = False, ancillary = False,
      atl08_segment_id = map fst rows, atl08_pc_indx = map (fst \<circ> snd) rows,
      atl08_pc_flag = map (snd \<circ> snd) rows, atl08_ph_h = [], segment_id_beg = [],
      segment_landcover = [], segment_snowcover = [], anc_seg_data = False,
      classification = None, relief = None, landcover = None, snowcover = None,
      anc_seg_indices = None\<rparr>"

text \<open>
  The same with PhoREAL and the ABoVE classifier: every row has the relief 10, and one land
  segment covers the beam.
\<close>

definition example_atl08_phoreal :: "(int \<times> int \<times> int) list \<Rightarrow> Atl08Class" where
  "example_atl08_phoreal rows =
     (example_atl08 rows)\<lparr>atl08_phoreal := True, atl08_ph_h := map (\<lambda>r. 10) rows,
        segment_id_beg := [1], segment_landcover := [7], segment_snowcover := [1]\<rparr>"

definition example_parms_above :: Icesat2Parms where
  "example_parms_above = example_parms\<lparr>phoreal := \<lparr>use_abs_h = False, above_classifier = True\<rparr>\<rparr>"

subsection \<open>YAPC version 2: bands, neighbour count and spread\<close>

definition MAX_KNN :: int where
  "MAX_KNN = 25"

text \<open>The conversion of a \<^verbatim>\<open>double\<close> to \<^verbatim>\<open>int\<close> truncates towards zero.\<close>

definition c_int :: "real \<Rightarrow> int" where
  "c_int x = (if 0 \<le> x then \<lfloor>x\<rfloor> else \<lceil>x\<rceil>)"

text \<open>
  Lines 869-870 of \<^verbatim>\<open>yapcV2\<close>:
  \<^verbatim>\<open>int knn = (settings->knn != 0) ? settings->knn : MAX(1, (sqrt((double)N) + 0.5) / 2);\<close>
  \<^verbatim>\<open>knn = MIN(knn, MAX_KNN);\<close>
\<close>

definition yapcV2_knn :: "int \<Rightarrow> int \<Rightarrow> int" where
  "yapcV2_knn settings_knn N =
     (let knn = (if settings_knn \<noteq> 0 then settings_knn
                 else c_int (max 1 ((sqrt (real_of_int N) + 0.5) / 2)))
      in min knn MAX_KNN)"


text \<open>
  The photon-index bands of \<^verbatim>\<open>yapcV2\<close>: the buffer \<open>[ph_b0, ph_b1)\<close> and the center
  \<open>[ph_c0, ph_c1)\<close>, advanced at the head of every iteration (lines 862-865). The photon
  counts are read at indices that only \<^verbatim>\<open>num_segments\<close> bounds.
\<close>

record yapc_bands =
  ph_b0 :: int
  ph_b1 :: int
  ph_c0 :: int
  ph_c1 :: int

definition yapcV2_bands :: "region \<Rightarrow> int \<Rightarrow> int \<Rightarrow> yapc_bands \<Rightarrow> yapc_bands option" where
  "yapcV2_bands region num_segs segment_index b =
     (case (if segment_index > 1 then rd (segment_ph_cnt region) (segment_index - 2) else Some 0) of
        None \<Rightarrow> None
      | Some d_b0 \<Rightarrow>
         (case (if segment_index > 0 then rd (segment_ph_cnt region) (segment_index - 1) else Some 0) of
            None \<Rightarrow> None
          | Some d_c0 \<Rightarrow>
             (case rd (segment_ph_cnt region) segment_index of
                None \<Rightarrow> None
              | Some d_c1 \<Rightarrow>
                 (case (if segment_index < num_segs - 1
                        then rd (segment_ph_cnt region) (segment_index + 1) else Some 0) of
                    None \<Rightarrow> None
                  | Some d_b1 \<Rightarrow>
                      Some \<lparr>ph_b0 = ph_b0 b + d_b0, ph_b1 = ph_b1 b + d_b1,
                            ph_c0 = ph_c0 b + d_c0, ph_c1 = ph_c1 b + d_c1\<rparr>))))"

text \<open>
  Lines 876-888: the minimum and maximum of the height and of the along-track distance. The
  loop variable \<open>n\<close> runs from 1 below \<open>N\<close> and is itself the index into \<^verbatim>\<open>atl03.h_ph\<close> and
  \<^verbatim>\<open>atl03.dist_ph_along\<close>, which start with the values at index 0.
\<close>

function yapcV2_minmax ::
  "Atl03Data \<Rightarrow> int \<Rightarrow> int \<Rightarrow> real \<times> real \<times> real \<times> real \<Rightarrow> (real \<times> real \<times> real \<times> real) option" where
  "yapcV2_minmax atl03 N n (min_h, max_h, min_x, max_x) =
     (if n < N then
        (case rd (h_ph atl03) n of
           None \<Rightarrow> None
         | Some h \<Rightarrow>
            (case rd (dist_ph_along atl03) n of
               None \<Rightarrow> None
             | Some x \<Rightarrow>
                 yapcV2_minmax atl03 N (n + 1)
                   (if h < min_h then h else min_h, if h > max_h then h else max_h,
                    if x < min_x then x else min_x, if x > max_x then x else max_x)))
      else Some (min_h, max_h, min_x, max_x))"
  by pat_completeness auto
termination
  by (relation "measure (\<lambda>(atl03, N, n, m). nat (N - n))") auto

declare yapcV2_minmax.simps [simp del]

definition yapcV2_spread :: "Atl03Data \<Rightarrow> int \<Rightarrow> (real \<times> real) option" where
  "yapcV2_spread atl03 N =
     (case rd (h_ph atl03) 0 of
        None \<Rightarrow> None
      | Some h0 \<Rightarrow>
         (case rd (dist_ph_along atl03) 0 of
            None \<Rightarrow> None
          | Some x0 \<Rightarrow>
             (case yapcV2_minmax atl03 N 1 (h0, h0, x0, x0) of
                None \<Rightarrow> None
              | Some (min_h, max_h, min_x, max_x) \<Rightarrow> Some (max_h - min_h, max_x - min_x))))"

text \<open>
  What the head of an iteration of \<^verbatim>\<open>yapcV2\<close> decides for a segment (lines 867-897): the
  segment is passed over for its photon count, or for its spread (with the error message),
  or it is scored with the spreads and the neighbour count. The scoring of the photons of
  the center band (lines 899-994) follows in the last case and is not part of the embedding.
\<close>

datatype yapc_window = Skipped_count | Skipped_spread real real | Scored real real int

definition MAXIMUM_HSPREAD :: real where
  "MAXIMUM_HSPREAD = 15000"

definition yapcV2_segment ::
  "Icesat2Parms \<Rightarrow> region \<Rightarrow> Atl03Data \<Rightarrow> int \<Rightarrow> yapc_bands \<Rightarrow> (yapc_bands \<times> yapc_window) option" where
  "yapcV2_segment parms region atl03 segment_index b =
     (case yapcV2_bands region (int (length (segment_id atl03))) segment_index b of
        None \<Rightarrow> None
      | Some b' \<Rightarrow>
         (case rd (segment_ph_cnt region) segment_index of
            None \<Rightarrow> None
          | Some N \<Rightarrow>
             (let k = yapcV2_knn (knn (yapc parms)) N in
              if N \<le> k \<or> N < minimum_photon_count parms then Some (b', Skipped_count)
              else
                (case yapcV2_spread atl03 N of
                   None \<Rightarrow> None
                 | Some (hspread, xspread) \<Rightarrow>
                     if hspread \<le> 0 \<or> hspread > MAXIMUM_HSPREAD \<or> xspread \<le> 0
                     then Some (b', Skipped_spread hspread xspread)
                     else Some (b', Scored hspread xspread k)))))"

text \<open>The loop over the segments (line 859), with what it decides for each.\<close>

function yapcV2_segments ::
  "Icesat2Parms \<Rightarrow> region \<Rightarrow> Atl03Data \<Rightarrow> int \<Rightarrow> yapc_bands \<Rightarrow> (yapc_bands \<times> yapc_window) list option" where
  "yapcV2_segments parms region atl03 segment_index b =
     (if segment_index < int (length (segment_id atl03)) then
        (case yapcV2_segment parms region atl03 segment_index b of
           None \<Rightarrow> None
         | Some (b', w) \<Rightarrow>
             map_option ((#) (b', w)) (yapcV2_segments parms region atl03 (segment_index + 1) b'))
      else Some [])"
  by pat_completeness auto
termination
  by (relation "measure (\<lambda>(parms, region, atl03, segment_index, b).
         nat (int (length (segment_id atl03)) - segment_index))") auto

declare yapcV2_segments.simps [simp del]

definition yapcV2_windows ::
  "Icesat2Parms \<Rightarrow> region \<Rightarrow> Atl03Data \<Rightarrow> (yapc_bands \<times> yapc_window) list option" where
  "yapcV2_windows parms region atl03 =
     yapcV2_segments parms region atl03 0 \<lparr>ph_b0 = 0, ph_b1 = 0, ph_c0 = 0, ph_c1 = 0\<rparr>"

text \<open>
  The spreads in the words of the specification: "height-spread and along-track-spread over
  the center band", the difference of the largest and the smallest value among the photons
  \<open>ph_c0 .. ph_c1 - 1\<close>.
\<close>

definition center_band :: "yapc_bands \<Rightarrow> 'a list \<Rightarrow> 'a list" where
  "center_band b xs = take (nat (ph_c1 b - ph_c0 b)) (drop (nat (ph_c0 b)) xs)"

definition spread_of :: "real list \<Rightarrow> real" where
  "spread_of xs = foldl max (hd xs) xs - foldl min (hd xs) xs"

definition center_hspread :: "Atl03Data \<Rightarrow> yapc_bands \<Rightarrow> real" where
  "center_hspread atl03 b = spread_of (center_band b (h_ph atl03))"

definition center_xspread :: "Atl03Data \<Rightarrow> yapc_bands \<Rightarrow> real" where
  "center_xspread atl03 b = spread_of (center_band b (dist_ph_along atl03))"

text \<open>
  Two segments of two photons: the photons of the first have one height, those of the second
  the heights 10 and 30; one neighbour is asked for.
\<close>

definition example_yapc_atl03 :: Atl03Data where
  "example_yapc_atl03 =
     (example_atl03 [100, 101] [3, 3] 4)\<lparr>h_ph := [5, 5, 10, 30], dist_ph_along := [0, 1, 5, 9]\<rparr>"

definition example_yapc_parms :: Icesat2Parms where
  "example_yapc_parms = example_parms\<lparr>yapc := \<lparr>score = 0, version = 2, knn = 1, win_h = 6, win_x = 15\<rparr>\<rparr>"

subsection \<open>Background rate\<close>

text \<open>
  The \<^verbatim>\<open>while\<close> loop of \<^verbatim>\<open>Atl03Reader::calculateBackground\<close> (lines 1566-1595). The result
  is the rate with the state, whose cursor \<open>bckgrd_in\<close> the loop advances; the \<^verbatim>\<open>break\<close>
  returns. Only the comparison \<^verbatim>\<open>state.bckgrd_in < atl03.bckgrd_rate.size\<close> guards the reads.
\<close>

function calculateBackground_loop ::
  "Atl03Data \<Rightarrow> real \<Rightarrow> TrackState \<Rightarrow> (real \<times> TrackState) option" where
  "calculateBackground_loop atl03 background_rate state =
     (if bckgrd_in state < int (length (bckgrd_rate atl03)) then
        (case rd (bckgrd_delta_time atl03) (bckgrd_in state) of
           None \<Rightarrow> None
         | Some curr_bckgrd_time \<Rightarrow>
            (case rd (segment_delta_time atl03) (extent_segment state) of
               None \<Rightarrow> None
             | Some segment_time \<Rightarrow>
                if curr_bckgrd_time \<ge> segment_time then
                  (if bckgrd_in state > 0 then
                     (case rd (bckgrd_delta_time atl03) (bckgrd_in state - 1) of
                        None \<Rightarrow> None
                      | Some prev_bckgrd_time \<Rightarrow>
                         (case rd (bckgrd_rate atl03) (bckgrd_in state - 1) of
                            None \<Rightarrow> None
                          | Some prev_bckgrd_rate \<Rightarrow>
                             (case rd (bckgrd_rate atl03) (bckgrd_in state) of
                                None \<Rightarrow> None
                              | Some curr_bckgrd_rate \<Rightarrow>
                                 (let bckgrd_run = curr_bckgrd_time - prev_bckgrd_time;
                                      bckgrd_rise = curr_bckgrd_rate - prev_bckgrd_rate;
                                      segment_to_bckgrd_delta = segment_time - prev_bckgrd_time
                                  in Some (((bckgrd_rise / bckgrd_run) * segment_to_bckgrd_delta)
                                             + prev_bckgrd_rate, state)))))
                   else
                     (case rd (bckgrd_rate atl03) 0 of
                        None \<Rightarrow> None
                      | Some first_rate \<Rightarrow> Some (first_rate, state)))
                else calculateBackground_loop atl03 background_rate
                       (state\<lparr>bckgrd_in := bckgrd_in state + 1\<rparr>)))
      else Some (background_rate, state))"
  by pat_completeness auto
termination
  by (relation "measure (\<lambda>(atl03, background_rate, state).
         nat (int (length (bckgrd_rate atl03)) - bckgrd_in state))") auto

declare calculateBackground_loop.simps [simp del]

text \<open>\<^verbatim>\<open>Atl03Reader::calculateBackground\<close>: the read of the last rate, then the loop.\<close>

definition calculateBackground :: "Atl03Data \<Rightarrow> TrackState \<Rightarrow> (real \<times> TrackState) option" where
  "calculateBackground atl03 state =
     (case rd (bckgrd_rate atl03) (int (length (bckgrd_rate atl03)) - 1) of
        None \<Rightarrow> None
      | Some background_rate \<Rightarrow> calculateBackground_loop atl03 background_rate state)"

text \<open>
  The line through the background samples \<open>k - 1\<close> and \<open>k\<close> at time \<open>t\<close>, and the rate that
  the loop returns when it stops at the cursor \<open>c\<close>.
\<close>

definition bckgrd_line :: "Atl03Data \<Rightarrow> int \<Rightarrow> real \<Rightarrow> real" where
  "bckgrd_line atl03 k t =
     ((bckgrd_rate atl03 ! nat k - bckgrd_rate atl03 ! nat (k - 1))
        / (bckgrd_delta_time atl03 ! nat k - bckgrd_delta_time atl03 ! nat (k - 1)))
       * (t - bckgrd_delta_time atl03 ! nat (k - 1))
     + bckgrd_rate atl03 ! nat (k - 1)"

definition bckgrd_result :: "Atl03Data \<Rightarrow> real \<Rightarrow> int \<Rightarrow> real \<Rightarrow> real" where
  "bckgrd_result atl03 b c t =
     (if c < int (length (bckgrd_rate atl03))
      then (if 0 < c then bckgrd_line atl03 c t else bckgrd_rate atl03 ! 0)
      else b)"

text \<open>Datasets with given segment times and background samples, and the initial state of a track.\<close>

definition example_bckgrd :: "real list \<Rightarrow> real list \<Rightarrow> real list \<Rightarrow> Atl03Data" where
  "example_bckgrd sdt bt br =
     \<lparr>sc_orient = [0], velocity_sc = [0, 0, 0], segment_delta_time = sdt, segment_id = [100],
      segment_dist_x = [0], solar_elevation = [3], dist_ph_along = [], dist_ph_across = [],
      h_ph = [], signal_conf_ph = [], quality_ph = [], lat_ph = [], lon_ph = [], delta_time = [],
      bckgrd_delta_time = bt, bckgrd_rate = br, anc_geo_data = False, anc_ph_data = False\<rparr>"

definition example_state :: TrackState where
  "example_state =
     \<lparr>ph_in = 0, seg_in = 0, seg_ph = 0, start_segment = 0, start_distance = 0, seg_distance = 0,
      start_seg_portion = 0, track_complete = False, bckgrd_in = 0, extent_segment = 0,
      extent_valid = True, state_extent_length = 0, extent_photons = []\<rparr>"

subsection \<open>Extent state machine\<close>

text \<open>
  What a step of \<^verbatim>\<open>subsettingThread\<close> comes to: a value, a thrown \<^verbatim>\<open>RunTimeException\<close>, which
  the handler of line 1516 turns into the end of the beam, or an access outside an array.
\<close>

datatype 'a outcome = Ok 'a | Thrown RunTimeException | Invalid_access

definition obind :: "'a outcome \<Rightarrow> ('a \<Rightarrow> 'b outcome) \<Rightarrow> 'b outcome" where
  "obind m f = (case m of Ok x \<Rightarrow> f x | Thrown e \<Rightarrow> Thrown e | Invalid_access \<Rightarrow> Invalid_access)"

definition rdo :: "'a list \<Rightarrow> int \<Rightarrow> 'a outcome" where
  "rdo xs i = (case rd xs i of None \<Rightarrow> Invalid_access | Some v \<Rightarrow> Ok v)"

text \<open>
  The block \<^verbatim>\<open>do { ... } while(false)\<close> of lines 1287-1402 is left by \<^verbatim>\<open>break\<close> when a photon
  is rejected: a check gives \<open>Ok None\<close> for the \<^verbatim>\<open>break\<close> and \<open>Ok (Some v)\<close> to go on with \<open>v\<close>.
\<close>

definition and_then :: "'a option outcome \<Rightarrow> ('a \<Rightarrow> 'b option outcome) \<Rightarrow> 'b option outcome" where
  "and_then m f = obind m (\<lambda>r. case r of None \<Rightarrow> Ok None | Some v \<Rightarrow> f v)"

text \<open>Lines 1289-1298: check and set the signal confidence level.\<close>

definition check_signal_conf :: "constants \<Rightarrow> Icesat2Parms \<Rightarrow> Atl03Data \<Rightarrow> int \<Rightarrow> int option outcome" where
  "check_signal_conf K parms atl03 current_photon_v =
     obind (rdo (signal_conf_ph atl03) current_photon_v) (\<lambda>cnf.
       if cnf < CNF_POSSIBLE_TEP K \<or> cnf > CNF_SURFACE_HIGH K
       then Thrown (RunTimeException CRITICAL RTE_ERROR)
       else obind (rdo (parms_atl03_cnf parms) (cnf + SIGNAL_CONF_OFFSET K)) (\<lambda>accepted.
              if \<not> accepted then Ok None else Ok (Some cnf)))"

text \<open>Lines 1300-1309: check and set the photon quality level.\<close>

definition check_quality :: "constants \<Rightarrow> Icesat2Parms \<Rightarrow> Atl03Data \<Rightarrow> int \<Rightarrow> int option outcome" where
  "check_quality K parms atl03 current_photon_v =
     obind (rdo (quality_ph atl03) current_photon_v) (\<lambda>q.
       if q < QUALITY_NOMINAL K \<or> q > QUALITY_POSSIBLE_TEP K
       then Thrown (RunTimeException CRITICAL RTE_ERROR)
       else obind (rdo (parms_quality_ph parms) q) (\<lambda>accepted.
              if \<not> accepted then Ok None else Ok (Some q)))"

text \<open>
  Lines 1311-1324: check and set the ATL08 classification, \<^verbatim>\<open>ATL08_UNCLASSIFIED\<close> when there
  is no classification array.
\<close>

definition check_atl08_class :: "constants \<Rightarrow> Icesat2Parms \<Rightarrow> Atl08Class \<Rightarrow> int \<Rightarrow> int option outcome" where
  "check_atl08_class K parms atl08 current_photon_v =
     (case classification atl08 of
        None \<Rightarrow> Ok (Some (ATL08_UNCLASSIFIED K))
      | Some classes \<Rightarrow>
          obind (rdo classes current_photon_v) (\<lambda>cls.
            if cls < 0 \<or> cls \<ge> NUM_ATL08_CLASSES K
            then Thrown (RunTimeException CRITICAL RTE_ERROR)
            else obind (rdo (parms_atl08_class parms) cls) (\<lambda>accepted.
                   if \<not> accepted then Ok None else Ok (Some cls))))"

text \<open>
  Lines 1326-1335: check and set the YAPC score; \<open>yapc_arr\<close> is the member \<^verbatim>\<open>score\<close> of
  \<^verbatim>\<open>YapcScore\<close>, \<open>None\<close> while it is \<^verbatim>\<open>NULL\<close>.
\<close>

definition check_yapc :: "Icesat2Parms \<Rightarrow> int list option \<Rightarrow> int \<Rightarrow> int option outcome" where
  "check_yapc parms yapc_arr current_photon_v =
     (case yapc_arr of
        None \<Rightarrow> Ok (Some 0)
      | Some scores \<Rightarrow>
          obind (rdo scores current_photon_v) (\<lambda>s.
            if s < score (yapc parms) then Ok None else Ok (Some s)))"

text \<open>Lines 1337-1344: check the region.\<close>

definition check_region :: "region \<Rightarrow> int \<Rightarrow> unit option outcome" where
  "check_region region current_segment_v =
     (case inclusion_ptr region of
        None \<Rightarrow> Ok (Some ())
      | Some inclusion \<Rightarrow>
          obind (rdo inclusion current_segment_v) (\<lambda>included.
            if \<not> included then Ok None else Ok (Some ())))"

text \<open>
  Lines 1346-1365: the PhoREAL fields \<open>(relief, landcover, snowcover)\<close>. When PhoREAL is set
  and the arrays of the classifier are \<^verbatim>\<open>NULL\<close>, the source dereferences a null pointer.
\<close>

definition phoreal_fields ::
  "constants \<Rightarrow> Icesat2Parms \<Rightarrow> Atl03Data \<Rightarrow> Atl08Class \<Rightarrow> int \<Rightarrow> (real \<times> int \<times> int) outcome" where
  "phoreal_fields K parms atl03 atl08 current_photon_v =
     (if atl08_phoreal atl08 then
        obind (if \<not> use_abs_h (phoreal parms)
               then (case relief atl08 of None \<Rightarrow> Invalid_access
                     | Some reliefs \<Rightarrow> rdo reliefs current_photon_v)
               else rdo (h_ph atl03) current_photon_v) (\<lambda>relief_v.
          obind (case landcover atl08 of None \<Rightarrow> Invalid_access
                 | Some flags \<Rightarrow> rdo flags current_photon_v) (\<lambda>landcover_flag.
            obind (case snowcover atl08 of None \<Rightarrow> Invalid_access
                   | Some flags \<Rightarrow> rdo flags current_photon_v) (\<lambda>snowcover_flag.
              Ok (relief_v, landcover_flag, snowcover_flag))))
      else Ok (0, INVALID_FLAG K, INVALID_FLAG K))"

text \<open>Lines 1367-1382: the photon that is added to the extent.\<close>

definition make_photon ::
  "constants \<Rightarrow> Atl03Data \<Rightarrow> TrackState \<Rightarrow> int \<Rightarrow> real \<Rightarrow> int \<Rightarrow> int \<Rightarrow> int \<Rightarrow> int
     \<Rightarrow> real \<times> int \<times> int \<Rightarrow> photon_t outcome" where
  "make_photon K atl03 state current_photon_v x_atc_v cnf q cls yscore flds =
     obind (rdo (delta_time atl03) current_photon_v) (\<lambda>dt.
       obind (rdo (lat_ph atl03) current_photon_v) (\<lambda>lat.
         obind (rdo (lon_ph atl03) current_photon_v) (\<lambda>lon.
           obind (rdo (dist_ph_across atl03) current_photon_v) (\<lambda>across.
             obind (rdo (h_ph atl03) current_photon_v) (\<lambda>h.
               Ok \<lparr>time_ns = deltatime2timestamp K dt, latitude = lat, longitude = lon,
                   x_atc = x_atc_v - (state_extent_length state / 2), y_atc = across,
                   height = h, ph_relief = fst flds, ph_landcover = fst (snd flds),
                   ph_snowcover = snd (snd flds), atl08_class = uint8_t cls,
                   atl03_cnf = cnf, ph_quality_ph = q, yapc_score = yscore\<rparr>)))))"

text \<open>
  The block of lines 1287-1402 for the photon \<open>current_photon_v\<close> of the segment
  \<open>current_segment_v\<close>: \<open>Ok None\<close> when a \<^verbatim>\<open>break\<close> rejects the photon, \<open>Ok (Some ph)\<close> when
  \<open>ph\<close> is added to the extent.
\<close>

definition photon_filter ::
  "constants \<Rightarrow> Icesat2Parms \<Rightarrow> region \<Rightarrow> Atl03Data \<Rightarrow> Atl08Class \<Rightarrow> int list option \<Rightarrow> TrackState
     \<Rightarrow> int \<Rightarrow> int \<Rightarrow> real \<Rightarrow> photon_t option outcome" where
  "photon_filter K parms region atl03 atl08 yapc_arr state current_photon_v current_segment_v x_atc_v =
     and_then (check_signal_conf K parms atl03 current_photon_v) (\<lambda>cnf.
       and_then (check_quality K parms atl03 current_photon_v) (\<lambda>q.
         and_then (check_atl08_class K parms atl08 current_photon_v) (\<lambda>cls.
           and_then (check_yapc parms yapc_arr current_photon_v) (\<lambda>yscore.
             and_then (check_region region current_segment_v) (\<lambda>u.
               obind (phoreal_fields K parms atl03 atl08 current_photon_v) (\<lambda>flds.
                 obind (make_photon K atl03 state current_photon_v x_atc_v cnf q cls yscore flds)
                   (\<lambda>ph. Ok (Some ph))))))))"

text \<open>
  The variables of the traversal of one extent (lines 1214-1218), with the three lists of
  indices for the ancillary fields, \<open>None\<close> while they are \<^verbatim>\<open>NULL\<close>.
\<close>

record extent_vars =
  current_photon :: int
  current_segment :: int
  current_count :: int
  extent_complete :: bool
  step_complete :: bool
  segment_indices :: "int list option"
  photon_indices :: "int list option"
  atl08_indices :: "int list option"

text \<open>Lines 1252-1257: go to the segment of the photon.\<close>

function next_photon_segment :: "region \<Rightarrow> int \<Rightarrow> int \<Rightarrow> int \<times> int" where
  "next_photon_segment region current_segment_v current_count_v =
     (if current_segment_v < int (length (segment_ph_cnt region)) \<and>
         current_count_v > segment_ph_cnt region ! nat current_segment_v
      then next_photon_segment region (current_segment_v + 1) 1
      else (current_segment_v, current_count_v))"
  by pat_completeness auto
termination
  by (relation "measure (\<lambda>(region, current_segment_v, current_count_v).
         nat (int (length (segment_ph_cnt region)) - current_segment_v))") auto

declare next_photon_segment.simps [simp del]

text \<open>Lines 1385-1401: index the photon for the ancillary fields.\<close>

definition index_photon :: "Atl08Class \<Rightarrow> extent_vars \<Rightarrow> extent_vars outcome" where
  "index_photon atl08 v =
     (let v1 = v\<lparr>segment_indices := map_option (\<lambda>l. l @ [current_segment v]) (segment_indices v),
                 photon_indices := map_option (\<lambda>l. l @ [current_photon v]) (photon_indices v)\<rparr>
      in case atl08_indices v of
           None \<Rightarrow> Ok v1
         | Some l \<Rightarrow>
             obind (case anc_seg_indices atl08 of None \<Rightarrow> Invalid_access
                    | Some ix \<Rightarrow> rdo ix (current_photon v))
               (\<lambda>i. Ok (v1\<lparr>atl08_indices := Some (l @ [i])\<rparr>)))"

text \<open>
  Lines 1272-1281: the first photon at or beyond the step is latched as the start of the
  next extent.
\<close>

definition step_marker ::
  "Icesat2Parms \<Rightarrow> TrackState \<Rightarrow> extent_vars \<Rightarrow> real \<Rightarrow> int \<Rightarrow> TrackState \<times> extent_vars" where
  "step_marker parms state v x_atc_v along_track_segments =
     (if \<not> step_complete v \<and>
         ((\<not> dist_in_seg parms \<and> x_atc_v \<ge> extent_step parms) \<or>
          (dist_in_seg parms \<and> along_track_segments \<ge> c_int (extent_step parms)))
      then (state\<lparr>ph_in := current_photon v, seg_in := current_segment v,
                   seg_ph := current_count v - 1\<rparr>,
            v\<lparr>step_complete := True\<rparr>)
      else (state, v))"

text \<open>
  Lines 1283-1407: a photon within the length of the extent goes through the filters and is
  added to the extent when it passes; a photon beyond the length completes the extent.
\<close>

definition within_extent :: "Icesat2Parms \<Rightarrow> real \<Rightarrow> int \<Rightarrow> bool" where
  "within_extent parms x_atc_v along_track_segments \<longleftrightarrow>
     (\<not> dist_in_seg parms \<and> x_atc_v < extent_length parms) \<or>
     (dist_in_seg parms \<and> real_of_int along_track_segments < extent_length parms)"

definition add_photon ::
  "constants \<Rightarrow> Icesat2Parms \<Rightarrow> region \<Rightarrow> Atl03Data \<Rightarrow> Atl08Class \<Rightarrow> int list option \<Rightarrow> TrackState
     \<Rightarrow> extent_vars \<Rightarrow> real \<Rightarrow> int \<Rightarrow> (TrackState \<times> extent_vars) outcome" where
  "add_photon K parms region atl03 atl08 yapc_arr state v x_atc_v along_track_segments =
     (if within_extent parms x_atc_v along_track_segments then
        obind (photon_filter K parms region atl03 atl08 yapc_arr state
                 (current_photon v) (current_segment v) x_atc_v) (\<lambda>r.
          case r of
            None \<Rightarrow> Ok (state, v)
          | Some ph \<Rightarrow>
              obind (index_photon atl08 v) (\<lambda>v'.
                Ok (state\<lparr>extent_photons := extent_photons state @ [ph]\<rparr>, v')))
      else Ok (state, v\<lparr>extent_complete := True\<rparr>))"

text \<open>
  One pass through the body of the loop of line 1248, up to "Go to Next Photon". The result
  says whether the \<^verbatim>\<open>break\<close> of line 1264 was taken.
\<close>

definition extent_body ::
  "constants \<Rightarrow> Icesat2Parms \<Rightarrow> region \<Rightarrow> Atl03Data \<Rightarrow> Atl08Class \<Rightarrow> int list option \<Rightarrow> TrackState
     \<Rightarrow> extent_vars \<Rightarrow> (bool \<times> TrackState \<times> extent_vars) outcome" where
  "extent_body K parms region atl03 atl08 yapc_arr state v =
     (case next_photon_segment region (current_segment v) (current_count v + 1) of
        (seg, cnt) \<Rightarrow>
          (let v0 = v\<lparr>current_segment := seg, current_count := cnt\<rparr> in
           if seg \<ge> int (length (segment_dist_x atl03))
           then Ok (True, state\<lparr>track_complete := True\<rparr>, v0)
           else
             obind (rdo (segment_dist_x atl03) seg) (\<lambda>dist_x.
               obind (rdo (dist_ph_along atl03) (current_photon v)) (\<lambda>along.
                 (let delta_distance = dist_x - start_distance state;
                      x_atc_v = delta_distance + along;
                      along_track_segments = seg - extent_segment state
                  in case step_marker parms state v0 x_atc_v along_track_segments of
                       (state1, v1) \<Rightarrow>
                         obind (add_photon K parms region atl03 atl08 yapc_arr state1 v1
                                  x_atc_v along_track_segments)
                           (\<lambda>(state2, v2). Ok (False, state2, v2)))))))"

text \<open>
  The loop of lines 1248-1418 that traverses the photons of an extent. After the body the
  photon index is incremented (line 1410), and the track is complete when it leaves the
  photon dataset.
\<close>

function extent_loop ::
  "constants \<Rightarrow> Icesat2Parms \<Rightarrow> region \<Rightarrow> Atl03Data \<Rightarrow> Atl08Class \<Rightarrow> int list option \<Rightarrow> TrackState
     \<Rightarrow> extent_vars \<Rightarrow> (TrackState \<times> extent_vars) outcome" where
  "extent_loop K parms region atl03 atl08 yapc_arr state v =
     (if \<not> extent_complete v \<or> \<not> step_complete v then
        (case extent_body K parms region atl03 atl08 yapc_arr state v of
           Thrown e \<Rightarrow> Thrown e
         | Invalid_access \<Rightarrow> Invalid_access
         | Ok (stop, state', v') \<Rightarrow>
             if stop then Ok (state', v')
             else if current_photon v + 1 \<ge> int (length (dist_ph_along atl03))
             then Ok (state'\<lparr>track_complete := True\<rparr>, v'\<lparr>current_photon := current_photon v + 1\<rparr>)
             else extent_loop K parms region atl03 atl08 yapc_arr state'
                    (v'\<lparr>current_photon := current_photon v + 1\<rparr>))
      else Ok (state, v))"
  by pat_completeness auto
termination
  by (relation "measure (\<lambda>(K, parms, region, atl03, atl08, yapc_arr, state, v).
         nat (int (length (dist_ph_along atl03)) - current_photon v))") auto

declare extent_loop.simps [simp del]

text \<open>\<^verbatim>\<open>ATL03_SEGMENT_LENGTH\<close> (line 80).\<close>

definition ATL03_SEGMENT_LENGTH :: real where
  "ATL03_SEGMENT_LENGTH = 20"

text \<open>Lines 1429-1435: the segment distance correction of the start distance.\<close>

function start_distance_correction :: "Atl03Data \<Rightarrow> TrackState \<Rightarrow> TrackState" where
  "start_distance_correction atl03 state =
     (if start_segment state + 1 < int (length (segment_dist_x atl03)) \<and>
         start_distance state \<ge> segment_dist_x atl03 ! nat (start_segment state + 1)
      then start_distance_correction atl03
             (state\<lparr>start_distance :=
                       start_distance state
                         + (segment_dist_x atl03 ! nat (start_segment state + 1)
                              - segment_dist_x atl03 ! nat (start_segment state))
                         - ATL03_SEGMENT_LENGTH,
                    start_segment := start_segment state + 1\<rparr>)
      else state)"
  by pat_completeness auto
termination
  by (relation "measure (\<lambda>(atl03, state). nat (int (length (segment_dist_x atl03)) - start_segment state))")
     auto

declare start_distance_correction.simps [simp del]

text \<open>\<^verbatim>\<open>Atl03Reader::calculateSegmentId\<close> (lines 1602-1618).\<close>

definition calculateSegmentId :: "Icesat2Parms \<Rightarrow> TrackState \<Rightarrow> Atl03Data \<Rightarrow> int option" where
  "calculateSegmentId parms state atl03 =
     (case rd (segment_id atl03) (extent_segment state) of
        None \<Rightarrow> None
      | Some first_id \<Rightarrow>
          (let atl06_segment_id =
                 (if \<not> dist_in_seg parms
                  then real_of_int first_id + start_seg_portion state
                         + real_of_int (c_int ((extent_length parms / ATL03_SEGMENT_LENGTH) / 2))
                  else real_of_int first_id + real_of_int (c_int (extent_length parms / 2)))
           in Some (c_int (atl06_segment_id + 0.5))))"

text \<open>
  The extent record (\<^verbatim>\<open>extent_t\<close>). The members \<^verbatim>\<open>track\<close>, \<^verbatim>\<open>pair\<close>, \<^verbatim>\<open>segment_id\<close>,
  \<^verbatim>\<open>extent_length\<close> and \<^verbatim>\<open>solar_elevation\<close> carry the prefix \<open>extent_\<close>. The member
  \<^verbatim>\<open>extent_id\<close> comes from \<^verbatim>\<open>Icesat2Parms::generateExtentId\<close>, which is outside \<^verbatim>\<open>src/\<close>, and is
  left out, as are the ancillary records.
\<close>

record extent_t =
  valid :: bool
  extent_track :: int
  extent_pair :: int
  spacecraft_orientation :: int
  reference_ground_track :: int
  cycle :: int
  extent_segment_id :: int
  segment_distance :: real
  extent_extent_length :: real
  background_rate :: real
  extent_solar_elevation :: real
  photon_count :: int
  spacecraft_velocity :: real
  photons :: "photon_t list"

text \<open>
  \<^verbatim>\<open>Atl03Reader::generateExtentRecord\<close> (lines 1623-1663): the record, with the state whose
  background cursor \<^verbatim>\<open>calculateBackground\<close> has advanced.
\<close>

definition generateExtentRecord ::
  "Icesat2Parms \<Rightarrow> info_t \<Rightarrow> TrackState \<Rightarrow> Atl03Data \<Rightarrow> (extent_t \<times> TrackState) option" where
  "generateExtentRecord parms info state atl03 =
     (case rd (sc_orient atl03) 0 of
        None \<Rightarrow> None
      | Some orient \<Rightarrow>
     (case calculateSegmentId parms state atl03 of
        None \<Rightarrow> None
      | Some seg_id \<Rightarrow>
     (case calculateBackground atl03 state of
        None \<Rightarrow> None
      | Some (rate, state') \<Rightarrow>
     (case rd (solar_elevation atl03) (extent_segment state') of
        None \<Rightarrow> None
      | Some elevation \<Rightarrow>
     (case rd (velocity_sc atl03) (extent_segment state' * 3 + 0) of
        None \<Rightarrow> None
      | Some sc_v1 \<Rightarrow>
     (case rd (velocity_sc atl03) (extent_segment state' * 3 + 1) of
        None \<Rightarrow> None
      | Some sc_v2 \<Rightarrow>
     (case rd (velocity_sc atl03) (extent_segment state' * 3 + 2) of
        None \<Rightarrow> None
      | Some sc_v3 \<Rightarrow>
          Some (\<lparr>valid = extent_valid state', extent_track = track info, extent_pair = pair info,
                 spacecraft_orientation = orient, reference_ground_track = start_rgt info,
                 cycle = start_cycle info, extent_segment_id = seg_id,
                 segment_distance = seg_distance state',
                 extent_extent_length = state_extent_length state',
                 background_rate = rate, extent_solar_elevation = elevation,
                 photon_count = int (length (extent_photons state')),
                 spacecraft_velocity = sqrt ((sc_v1 * sc_v1) + (sc_v2 * sc_v2) + (sc_v3 * sc_v3)),
                 photons = extent_photons state'\<rparr>, state'))))))))"

text \<open>Lines 1420-1461: the distances of the next extent and the validity of this one.\<close>

definition finish_extent :: "Icesat2Parms \<Rightarrow> Atl03Data \<Rightarrow> TrackState \<Rightarrow> TrackState" where
  "finish_extent parms atl03 state =
     (let state1 = state\<lparr>seg_distance := start_distance state + (state_extent_length state / 2)\<rparr>;
          state2 =
            (if \<not> dist_in_seg parms
             then start_distance_correction atl03
                    (state1\<lparr>start_distance := start_distance state1 + extent_step parms\<rparr>)
             else (let next_segment = extent_segment state1 + c_int (extent_step parms)
                   in if next_segment < int (length (segment_dist_x atl03))
                      then state1\<lparr>start_distance := segment_dist_x atl03 ! nat next_segment\<rparr>
                      else state1));
          state3 = (if int (length (extent_photons state2)) < minimum_photon_count parms
                    then state2\<lparr>extent_valid := False\<rparr> else state2)
      in if length (extent_photons state3) > 1
         then (if x_atc (last (extent_photons state3)) - x_atc (hd (extent_photons state3))
                    < along_track_spread parms
               then state3\<lparr>extent_valid := False\<rparr> else state3)
         else state3)"

text \<open>
  Lines 1213-1245: the state and the variables with which the traversal of an extent starts;
  \<open>along\<close> is \<^verbatim>\<open>atl03.dist_ph_along[state.ph_in]\<close>.
\<close>

definition extent_start :: "Atl03Data \<Rightarrow> Atl08Class \<Rightarrow> TrackState \<Rightarrow> real \<Rightarrow> TrackState \<times> extent_vars" where
  "extent_start atl03 atl08 state along =
     (state\<lparr>start_seg_portion := along / ATL03_SEGMENT_LENGTH,
            extent_segment := seg_in state, extent_valid := True,
            extent_photons := []\<rparr>,
      \<lparr>current_photon = ph_in state, current_segment = seg_in state,
       current_count = seg_ph state, extent_complete = False, step_complete = False,
       segment_indices = (if anc_geo_data atl03 then Some [] else None),
       photon_indices = (if anc_ph_data atl03 then Some [] else None),
       atl08_indices = (if anc_seg_data atl08 then Some [] else None)\<rparr>)"

text \<open>
  One pass through the body of the loop of line 1211: the state after the extent and the
  record that is posted, if one is.
\<close>

definition extent_iteration ::
  "constants \<Rightarrow> Icesat2Parms \<Rightarrow> info_t \<Rightarrow> region \<Rightarrow> Atl03Data \<Rightarrow> Atl08Class \<Rightarrow> int list option
     \<Rightarrow> TrackState \<Rightarrow> (TrackState \<times> extent_t option) outcome" where
  "extent_iteration K parms info region atl03 atl08 yapc_arr state =
     obind (rdo (dist_ph_along atl03) (ph_in state)) (\<lambda>along.
       (case extent_start atl03 atl08 state along of
          (state0, v) \<Rightarrow>
            obind (extent_loop K parms region atl03 atl08 yapc_arr state0 v) (\<lambda>(state1, v1).
              (let state2 = finish_extent parms atl03 state1
               in if extent_valid state2 \<or> pass_invalid parms
                  then (case generateExtentRecord parms info state2 atl03 of
                          None \<Rightarrow> Invalid_access
                        | Some (extent, state3) \<Rightarrow> Ok (state3, Some extent))
                  else Ok (state2, None)))))"

text \<open>
  The loop \<^verbatim>\<open>while(reader->active && !state.track_complete)\<close> of line 1211. Another thread
  clears \<^verbatim>\<open>active\<close> at a time of its choice: the loop is given the number of passes that
  \<^verbatim>\<open>active\<close> allows. It returns the records posted, in order, and how it ended.
\<close>

datatype run_end = Completed | Stopped | Failed RunTimeException | Faulted

fun subsetting_loop ::
  "nat \<Rightarrow> constants \<Rightarrow> Icesat2Parms \<Rightarrow> info_t \<Rightarrow> region \<Rightarrow> Atl03Data \<Rightarrow> Atl08Class \<Rightarrow> int list option
     \<Rightarrow> TrackState \<Rightarrow> extent_t list \<times> run_end" where
  "subsetting_loop 0 K parms info region atl03 atl08 yapc_arr state =
     ([], if track_complete state then Completed else Stopped)"
| "subsetting_loop (Suc n) K parms info region atl03 atl08 yapc_arr state =
     (if track_complete state then ([], Completed)
      else
        (case extent_iteration K parms info region atl03 atl08 yapc_arr state of
           Thrown e \<Rightarrow> ([], Failed e)
         | Invalid_access \<Rightarrow> ([], Faulted)
         | Ok (state', posted) \<Rightarrow>
             (case subsetting_loop n K parms info region atl03 atl08 yapc_arr state' of
                (extents, ending) \<Rightarrow>
                  ((case posted of None \<Rightarrow> extents | Some extent \<Rightarrow> extent # extents), ending))))"

text \<open>
  The constructor of \<^verbatim>\<open>TrackState\<close> (lines 1139-1153) with the extent length of lines
  1204-1205, and the traversal of a beam from it.
\<close>

definition TrackState_init :: "Icesat2Parms \<Rightarrow> Atl03Data \<Rightarrow> TrackState option" where
  "TrackState_init parms atl03 =
     (case rd (segment_dist_x atl03) 0 of
        None \<Rightarrow> None
      | Some d0 \<Rightarrow>
          Some \<lparr>ph_in = 0, seg_in = 0, seg_ph = 0, start_segment = 0, start_distance = d0,
                seg_distance = 0, start_seg_portion = 0, track_complete = False, bckgrd_in = 0,
                extent_segment = 0, extent_valid = True,
                state_extent_length = (if dist_in_seg parms
                                       then extent_length parms * ATL03_SEGMENT_LENGTH
                                       else extent_length parms),
                extent_photons = []\<rparr>)"

definition subsetting_extents ::
  "nat \<Rightarrow> constants \<Rightarrow> Icesat2Parms \<Rightarrow> info_t \<Rightarrow> region \<Rightarrow> Atl03Data \<Rightarrow> Atl08Class \<Rightarrow> int list option
     \<Rightarrow> extent_t list \<times> run_end" where
  "subsetting_extents n K parms info region atl03 atl08 yapc_arr =
     (case TrackState_init parms atl03 of
        None \<Rightarrow> ([], Faulted)
      | Some state \<Rightarrow> subsetting_loop n K parms info region atl03 atl08 yapc_arr state)"

text \<open>
  The state at the head of the loop of line 1211 after \<open>n\<close> more passes, \<open>None\<close> when the
  loop has ended before; from the initial state in \<open>subsetting_state\<close>.
\<close>

fun subsetting_state_from ::
  "nat \<Rightarrow> constants \<Rightarrow> Icesat2Parms \<Rightarrow> info_t \<Rightarrow> region \<Rightarrow> Atl03Data \<Rightarrow> Atl08Class \<Rightarrow> int list option
     \<Rightarrow> TrackState \<Rightarrow> TrackState option" where
  "subsetting_state_from 0 K parms info region atl03 atl08 yapc_arr state = Some state"
| "subsetting_state_from (Suc n) K parms info region atl03 atl08 yapc_arr state =
     (if track_complete state then None
      else (case extent_iteration K parms info region atl03 atl08 yapc_arr state of
              Ok (state', posted) \<Rightarrow>
                subsetting_state_from n K parms info region atl03 atl08 yapc_arr state'
            | Thrown e \<Rightarrow> None
            | Invalid_access \<Rightarrow> None))"

definition subsetting_state ::
  "nat \<Rightarrow> constants \<Rightarrow> Icesat2Parms \<Rightarrow> info_t \<Rightarrow> region \<Rightarrow> Atl03Data \<Rightarrow> Atl08Class \<Rightarrow> int list option
     \<Rightarrow> TrackState option" where
  "subsetting_state n K parms info region atl03 atl08 yapc_arr =
     (case TrackState_init parms atl03 of
        None \<Rightarrow> None
      | Some state \<Rightarrow> subsetting_state_from n K parms info region atl03 atl08 yapc_arr state)"

text \<open>
  The state and the variables with which the body of the loop of line 1248 runs for the
  \<open>k + 1\<close>-th time, \<open>None\<close> when the loop has ended before.
\<close>

fun extent_loop_at ::
  "nat \<Rightarrow> constants \<Rightarrow> Icesat2Parms \<Rightarrow> region \<Rightarrow> Atl03Data \<Rightarrow> Atl08Class \<Rightarrow> int list option
     \<Rightarrow> TrackState \<Rightarrow> extent_vars \<Rightarrow> (TrackState \<times> extent_vars) option" where
  "extent_loop_at 0 K parms region atl03 atl08 yapc_arr state v =
     (if \<not> extent_complete v \<or> \<not> step_complete v then Some (state, v) else None)"
| "extent_loop_at (Suc k) K parms region atl03 atl08 yapc_arr state v =
     (if \<not> extent_complete v \<or> \<not> step_complete v then
        (case extent_body K parms region atl03 atl08 yapc_arr state v of
           Ok (stop, state', v') \<Rightarrow>
             if stop \<or> current_photon v + 1 \<ge> int (length (dist_ph_along atl03)) then None
             else extent_loop_at k K parms region atl03 atl08 yapc_arr state'
                    (v'\<lparr>current_photon := current_photon v + 1\<rparr>)
         | Thrown e \<Rightarrow> None
         | Invalid_access \<Rightarrow> None)
      else None)"

text \<open>
  The state and the variables with which the body of the loop of line 1248 runs for the
  \<open>k + 1\<close>-th time in the \<open>n + 1\<close>-th extent of the beam: the photon \<open>current_photon\<close> is
  examined there.
\<close>

definition examined ::
  "nat \<Rightarrow> nat \<Rightarrow> constants \<Rightarrow> Icesat2Parms \<Rightarrow> info_t \<Rightarrow> region \<Rightarrow> Atl03Data \<Rightarrow> Atl08Class
     \<Rightarrow> int list option \<Rightarrow> (TrackState \<times> extent_vars) option" where
  "examined n k K parms info region atl03 atl08 yapc_arr =
     (case subsetting_state n K parms info region atl03 atl08 yapc_arr of
        None \<Rightarrow> None
      | Some state \<Rightarrow>
          if track_complete state then None
          else (case rd (dist_ph_along atl03) (ph_in state) of
                  None \<Rightarrow> None
                | Some along \<Rightarrow>
                    (case extent_start atl03 atl08 state along of
                       (state0, v) \<Rightarrow>
                         extent_loop_at k K parms region atl03 atl08 yapc_arr state0 v)))"

text \<open>
  The photon of the body goes through the filters of lines 1287-1402: it has a segment and
  is within the length of the extent (lines 1259-1286).
\<close>

definition filter_reached :: "Icesat2Parms \<Rightarrow> region \<Rightarrow> Atl03Data \<Rightarrow> TrackState \<Rightarrow> extent_vars \<Rightarrow> bool" where
  "filter_reached parms region atl03 state v =
     (case next_photon_segment region (current_segment v) (current_count v + 1) of
        (seg, cnt) \<Rightarrow>
          seg < int (length (segment_dist_x atl03)) \<and>
          (case rd (segment_dist_x atl03) seg of
             None \<Rightarrow> False
           | Some dist_x \<Rightarrow>
               (case rd (dist_ph_along atl03) (current_photon v) of
                  None \<Rightarrow> False
                | Some along \<Rightarrow>
                    within_extent parms (dist_x - start_distance state + along)
                      (seg - extent_segment state))))"

text \<open>
  The values of a photon that end the beam: a signal confidence out of range; with a
  confidence that is accepted, a quality out of range; with a confidence and a quality that
  are accepted, and a classification, a class out of range.
\<close>

definition fatal_photon :: "constants \<Rightarrow> Icesat2Parms \<Rightarrow> Atl03Data \<Rightarrow> Atl08Class \<Rightarrow> int \<Rightarrow> bool" where
  "fatal_photon K parms atl03 atl08 cp =
     (case rd (signal_conf_ph atl03) cp of
        None \<Rightarrow> False
      | Some cnf \<Rightarrow>
          cnf < CNF_POSSIBLE_TEP K \<or> cnf > CNF_SURFACE_HIGH K \<or>
          (rd (parms_atl03_cnf parms) (cnf + SIGNAL_CONF_OFFSET K) = Some True \<and>
           (case rd (quality_ph atl03) cp of
              None \<Rightarrow> False
            | Some q \<Rightarrow>
                q < QUALITY_NOMINAL K \<or> q > QUALITY_POSSIBLE_TEP K \<or>
                (rd (parms_quality_ph parms) q = Some True \<and>
                 (case classification atl08 of
                    None \<Rightarrow> False
                  | Some classes \<Rightarrow>
                      (case rd classes cp of
                         None \<Rightarrow> False
                       | Some cls \<Rightarrow> cls < 0 \<or> cls \<ge> NUM_ATL08_CLASSES K))))))"

text \<open>
  A photon of an extent passes the filters at the photon index \<open>cp\<close> and the segment \<open>cs\<close>:
  its confidence, quality, class and score are the values of the datasets at \<open>cp\<close>, the
  acceptance tables hold \<^verbatim>\<open>true\<close> for them, the score reaches the minimum when there are
  scores, and the inclusion mask, when there is one, is set at \<open>cs\<close>.
\<close>

definition passes_filters ::
  "constants \<Rightarrow> Icesat2Parms \<Rightarrow> region \<Rightarrow> Atl03Data \<Rightarrow> Atl08Class \<Rightarrow> int list option \<Rightarrow> int \<Rightarrow> int
     \<Rightarrow> photon_t \<Rightarrow> bool" where
  "passes_filters K parms region atl03 atl08 yapc_arr cp cs ph \<longleftrightarrow>
     rd (signal_conf_ph atl03) cp = Some (atl03_cnf ph) \<and>
     rd (parms_atl03_cnf parms) (atl03_cnf ph + SIGNAL_CONF_OFFSET K) = Some True \<and>
     rd (quality_ph atl03) cp = Some (ph_quality_ph ph) \<and>
     rd (parms_quality_ph parms) (ph_quality_ph ph) = Some True \<and>
     (case classification atl08 of
        None \<Rightarrow> True
      | Some classes \<Rightarrow>
          (case rd classes cp of
             None \<Rightarrow> False
           | Some cls \<Rightarrow> atl08_class ph = uint8_t cls \<and> rd (parms_atl08_class parms) cls = Some True)) \<and>
     (case yapc_arr of
        None \<Rightarrow> True
      | Some scores \<Rightarrow> rd scores cp = Some (yapc_score ph) \<and> score (yapc parms) \<le> yapc_score ph) \<and>
     (case inclusion_ptr region of
        None \<Rightarrow> True
      | Some inclusion \<Rightarrow> rd inclusion cs = Some True)"

text \<open>
  The photons are stored segment after segment: the segment of the photon \<open>cp\<close> is the
  segment \<open>cs\<close> whose photons, by the counts of the region, include \<open>cp\<close>. A photon beyond
  the counts is in the segment after the last.
\<close>

definition photons_before :: "region \<Rightarrow> int \<Rightarrow> int" where
  "photons_before region cs = sum_list (take (nat cs) (segment_ph_cnt region))"

definition in_segment :: "region \<Rightarrow> int \<Rightarrow> int \<Rightarrow> bool" where
  "in_segment region cp cs \<longleftrightarrow>
     0 \<le> cs \<and> photons_before region cs \<le> cp \<and>
     (cs < int (length (segment_ph_cnt region)) \<longrightarrow> cp < photons_before region (cs + 1))"

text \<open>
  Every photon of the list is a photon of the datasets that passes the filters at its index
  and at its segment.
\<close>

definition all_pass ::
  "constants \<Rightarrow> Icesat2Parms \<Rightarrow> region \<Rightarrow> Atl03Data \<Rightarrow> Atl08Class \<Rightarrow> int list option \<Rightarrow> photon_t list
     \<Rightarrow> bool" where
  "all_pass K parms region atl03 atl08 yapc_arr phs \<longleftrightarrow>
     (\<forall>ph \<in> set phs.
        \<exists>cp \<in> {0 ..< int (length (signal_conf_ph atl03))}.
        \<exists>cs \<in> {0 ..< int (length (segment_dist_x atl03))}.
          in_segment region cp cs \<and> passes_filters K parms region atl03 atl08 yapc_arr cp cs ph)"

text \<open>
  The cursors of the traversal: \<open>cnt\<close> photons of the segment \<open>cs\<close> come before the photon
  \<open>cp\<close>.
\<close>

definition cursor_inv :: "region \<Rightarrow> int \<Rightarrow> int \<Rightarrow> int \<Rightarrow> bool" where
  "cursor_inv region cp cs cnt \<longleftrightarrow>
     0 \<le> cs \<and> 0 \<le> cnt \<and> cp = photons_before region cs + cnt \<and>
     (cs < int (length (segment_ph_cnt region)) \<longrightarrow> cnt \<le> segment_ph_cnt region ! nat cs)"

definition extent_inv ::
  "constants \<Rightarrow> Icesat2Parms \<Rightarrow> region \<Rightarrow> Atl03Data \<Rightarrow> Atl08Class \<Rightarrow> int list option \<Rightarrow> TrackState
     \<Rightarrow> extent_vars \<Rightarrow> bool" where
  "extent_inv K parms region atl03 atl08 yapc_arr st v \<longleftrightarrow>
     all_pass K parms region atl03 atl08 yapc_arr (extent_photons st) \<and>
     (\<not> track_complete st \<longrightarrow>
        cursor_inv region (current_photon v) (current_segment v) (current_count v) \<and>
        cursor_inv region (ph_in st) (seg_in st) (seg_ph st))"

text \<open>
  A beam of one segment with three photons, the second of low confidence, and parameters that
  accept the highest confidence only.
\<close>

definition example_run_atl03 :: Atl03Data where
  "example_run_atl03 =
     (example_atl03 [100] [3] 3)\<lparr>dist_ph_along := [1, 5, 9], signal_conf_ph := [4, 0, 4]\<rparr>"

definition example_run_parms :: Icesat2Parms where
  "example_run_parms =
     example_parms\<lparr>parms_atl03_cnf := [False, False, False, False, False, False, True]\<rparr>"

text \<open>
  The same beam with a quality out of range at the second photon, whose confidence is not
  accepted; and a beam whose photons are all accepted, with that quality.
\<close>

definition example_unchecked_atl03 :: Atl03Data where
  "example_unchecked_atl03 = example_run_atl03\<lparr>quality_ph := [0, 9, 0]\<rparr>"

definition example_fatal_atl03 :: Atl03Data where
  "example_fatal_atl03 =
     (example_atl03 [100] [3] 3)\<lparr>dist_ph_along := [1, 5, 9], quality_ph := [0, 9, 0]\<rparr>"

subsection \<open>Background rate of an extent\<close>

text \<open>
  The rate \<open>r\<close> is the piecewise-linear interpolation of the background samples at the time
  \<open>t\<close>: the first rate up to the first sample, the last rate after the last sample, and the
  line through the two samples that bracket \<open>t\<close> otherwise.
\<close>

definition piecewise_linear :: "Atl03Data \<Rightarrow> real \<Rightarrow> real \<Rightarrow> bool" where
  "piecewise_linear atl03 t r \<longleftrightarrow>
     (t \<le> bckgrd_delta_time atl03 ! 0 \<longrightarrow> r = bckgrd_rate atl03 ! 0) \<and>
     (bckgrd_delta_time atl03 ! (length (bckgrd_rate atl03) - 1) < t \<longrightarrow>
        r = bckgrd_rate atl03 ! (length (bckgrd_rate atl03) - 1)) \<and>
     (\<forall>k \<in> {1 ..< length (bckgrd_rate atl03)}.
        bckgrd_delta_time atl03 ! (k - 1) < t \<and> t \<le> bckgrd_delta_time atl03 ! k \<longrightarrow>
        r = bckgrd_line atl03 (int k) t)"

text \<open>
  Between two extents the background samples before the cursor precede the time of every
  segment from \<open>seg_in\<close> on.
\<close>

definition bckgrd_inv :: "Atl03Data \<Rightarrow> TrackState \<Rightarrow> bool" where
  "bckgrd_inv atl03 st \<longleftrightarrow>
     0 \<le> bckgrd_in st \<and> 0 \<le> seg_in st \<and> seg_in st < int (length (segment_dist_x atl03)) \<and>
     (\<forall>i s. 0 \<le> i \<and> i < bckgrd_in st \<and> i < int (length (bckgrd_delta_time atl03)) \<and>
            seg_in st \<le> s \<and> s < int (length (segment_delta_time atl03))
        \<longrightarrow> bckgrd_delta_time atl03 ! nat i < segment_delta_time atl03 ! nat s)"

text \<open>A beam of one segment at the time 7, with the background samples 100 at 0 and 200 at 10.\<close>

definition example_rate_atl03 :: Atl03Data where
  "example_rate_atl03 = example_atl03 [7] [3] 3"

section \<open>Theorems\<close>

subsection \<open>Resource name parser\<close>










subsection \<open>Region cropper\<close>

lemma sum_list_take_Suc:
  "n < length xs \<Longrightarrow> sum_list (take (Suc n) xs) = sum_list (take n xs) + (xs ! n :: int)"
  by (simp add: take_Suc_conv_app_nth)

lemma sum_list_take_drop_Suc:
  "a + k < length xs \<Longrightarrow>
     sum_list (take (Suc k) (drop a xs)) = sum_list (take k (drop a xs)) + (xs ! (a + k) :: int)"
  by (simp add: take_Suc_conv_app_nth)

lemma polyregion_loop_inv:
  "polyregion_loop incl found segment r = (found', segment', r') \<Longrightarrow>
   poly_inv cnt found segment r \<Longrightarrow> poly_inv cnt found' segment' r'"
proof (induction incl found segment r rule: polyregion_loop.induct)
  case (1 incl found segment r)
  show ?case
  proof (cases "segment < length (segment_ph_cnt r)")
    case False
    with "1.prems" show ?thesis
      by (subst (asm) polyregion_loop.simps) simp
  next
    case inb: True
    have cnt: "segment_ph_cnt r = cnt" and le: "segment \<le> length cnt"
      using "1.prems"(2) by (simp_all add: poly_inv_def)
    let ?inc = "incl (segment_lon r ! segment) (segment_lat r ! segment)"
    show ?thesis
    proof (cases found)
      case nf: False
      show ?thesis
      proof (cases "?inc \<and> segment_ph_cnt r ! segment \<noteq> 0")
        case True
        let ?r1 = "r\<lparr>first_segment := int segment, num_photons := segment_ph_cnt r ! segment\<rparr>"
        have step: "polyregion_loop incl True (segment + 1) ?r1 = (found', segment', r')"
          using "1.prems"(1) inb nf True
          by (subst (asm) polyregion_loop.simps) simp
        have "poly_inv cnt True (segment + 1) ?r1"
          using "1.prems"(2) inb nf cnt
          by (simp add: poly_inv_def take_Suc_conv_app_nth Cons_nth_drop_Suc [symmetric])
        from "1.IH"(1) [OF inb refl nf True step this] show ?thesis .
      next
        case False
        let ?r1 = "r\<lparr>first_photon := first_photon r + segment_ph_cnt r ! segment\<rparr>"
        have step: "polyregion_loop incl False (segment + 1) ?r1 = (found', segment', r')"
          using "1.prems"(1) inb nf False
          by (subst (asm) polyregion_loop.simps) simp
        have "poly_inv cnt False (segment + 1) ?r1"
          using "1.prems"(2) inb nf cnt
          by (simp add: poly_inv_def sum_list_take_Suc)
        from "1.IH"(2) [OF inb refl nf False step this] show ?thesis .
      qed
    next
      case f: True
      show ?thesis
      proof (cases "\<not> ?inc \<and> segment_ph_cnt r ! segment \<noteq> 0")
        case True
        then have "(found', segment', r') = (found, segment, r)"
          using "1.prems"(1) inb f
          by (subst (asm) polyregion_loop.simps) simp
        then show ?thesis using "1.prems"(2) by simp
      next
        case False
        let ?r1 = "r\<lparr>num_photons := num_photons r + segment_ph_cnt r ! segment\<rparr>"
        have step: "polyregion_loop incl True (segment + 1) ?r1 = (found', segment', r')"
          using "1.prems"(1) inb f False
          by (subst (asm) polyregion_loop.simps) simp
        have fs: "0 \<le> first_segment r" "nat (first_segment r) < segment"
          using "1.prems"(2) f by (simp_all add: poly_inv_def)
        have "Suc segment - nat (first_segment r) = Suc (segment - nat (first_segment r))"
          using fs by simp
        moreover have "sum_list (take (Suc (segment - nat (first_segment r))) (drop (nat (first_segment r)) cnt))
           = sum_list (take (segment - nat (first_segment r)) (drop (nat (first_segment r)) cnt))
             + cnt ! segment"
          using sum_list_take_drop_Suc [of "nat (first_segment r)" "segment - nat (first_segment r)" cnt]
            fs inb cnt by simp
        ultimately have "poly_inv cnt True (segment + 1) ?r1"
          using "1.prems"(2) inb f cnt
          by (simp add: poly_inv_def)
        from "1.IH"(3) [OF inb refl _ False step this] f show ?thesis by simp
      qed
    qed
  qed
qed


lemma raster_inv_skip:
  assumes "raster_inv cnt found cur lastseg segment r" "segment < length cnt" "cnt ! segment = 0"
  shows "raster_inv cnt found cur lastseg (segment + 1) r"
proof (cases found)
  case False
  with assms show ?thesis by (simp add: raster_inv_def sum_list_take_Suc)
next
  case True
  with assms have fs: "0 \<le> first_segment r" "nat (first_segment r) < segment"
    by (auto simp: raster_inv_def)
  then have "Suc segment - nat (first_segment r) = Suc (segment - nat (first_segment r))" by simp
  moreover have "sum_list (take (Suc (segment - nat (first_segment r))) (drop (nat (first_segment r)) cnt))
           = sum_list (take (segment - nat (first_segment r)) (drop (nat (first_segment r)) cnt))
             + cnt ! segment"
    using sum_list_take_drop_Suc [of "nat (first_segment r)" "segment - nat (first_segment r)" cnt]
      fs assms(2) by simp
  ultimately show ?thesis using assms True by (simp add: raster_inv_def)
qed

lemma raster_inv_first:
  assumes "raster_inv cnt False cur lastseg segment r" "segment < length cnt"
  shows "raster_inv cnt True (cnt ! segment) (int segment) (segment + 1)
           (r\<lparr>inclusion_mask := m, first_segment := int segment, num_photons := cnt ! segment\<rparr>)"
  using assms by (simp add: raster_inv_def take_Suc_conv_app_nth Cons_nth_drop_Suc [symmetric])

lemma raster_inv_before:
  assumes "raster_inv cnt False cur lastseg segment r" "segment < length cnt"
  shows "raster_inv cnt False cur lastseg (segment + 1)
           (r\<lparr>inclusion_mask := m, first_photon := first_photon r + cnt ! segment\<rparr>)"
  using assms by (simp add: raster_inv_def sum_list_take_Suc)

lemma raster_inv_grow:
  assumes "raster_inv cnt True cur lastseg segment r" "segment < length cnt"
  shows "raster_inv cnt True (cur + cnt ! segment) (int segment) (segment + 1)
           (r\<lparr>inclusion_mask := m, num_photons := cur + cnt ! segment\<rparr>)"
    and "raster_inv cnt True (cur + cnt ! segment) lastseg (segment + 1) (r\<lparr>inclusion_mask := m\<rparr>)"
proof -
  from assms have fs: "0 \<le> first_segment r" "nat (first_segment r) < segment"
    by (auto simp: raster_inv_def)
  then have e1: "Suc segment - nat (first_segment r) = Suc (segment - nat (first_segment r))" by simp
  have e2: "nat (int segment - first_segment r + 1) = Suc (segment - nat (first_segment r))"
    using fs by simp
  have e4: "first_segment r \<le> int segment" using fs by linarith
  have e3: "sum_list (take (Suc (segment - nat (first_segment r))) (drop (nat (first_segment r)) cnt))
           = sum_list (take (segment - nat (first_segment r)) (drop (nat (first_segment r)) cnt))
             + cnt ! segment"
    using sum_list_take_drop_Suc [of "nat (first_segment r)" "segment - nat (first_segment r)" cnt]
      fs assms(2) by simp
  show "raster_inv cnt True (cur + cnt ! segment) (int segment) (segment + 1)
           (r\<lparr>inclusion_mask := m, num_photons := cur + cnt ! segment\<rparr>)"
    using assms e1 e2 e3 e4 by (simp add: raster_inv_def)
  show "raster_inv cnt True (cur + cnt ! segment) lastseg (segment + 1) (r\<lparr>inclusion_mask := m\<rparr>)"
    using assms e1 e3 by (simp add: raster_inv_def)
qed

lemma rasterregion_loop_inv:
  "rasterregion_loop includes found cur lastseg segment r = (found', cur', lastseg', segment', r') \<Longrightarrow>
   raster_inv cnt found cur lastseg segment r \<Longrightarrow> raster_inv cnt found' cur' lastseg' segment' r'"
proof (induction "length cnt - segment" arbitrary: found cur lastseg segment r)
  case 0
  then have "\<not> segment < length (segment_ph_cnt r)" by (simp add: raster_inv_def)
  with "0.prems" show ?case
    by (subst (asm) rasterregion_loop.simps) simp
next
  case (Suc n)
  have cnt: "segment_ph_cnt r = cnt" and inb: "segment < length cnt"
    using Suc.prems(2) Suc.hyps(2) by (simp_all add: raster_inv_def)
  have n: "n = length cnt - (segment + 1)" using Suc.hyps(2) by simp
  let ?inc = "includes (segment_lon r ! segment) (segment_lat r ! segment)"
  let ?m = "map_option (\<lambda>m. m[segment := ?inc]) (inclusion_mask r)"
  show ?case
  proof (cases "cnt ! segment = 0")
    case True
    have step: "rasterregion_loop includes found cur lastseg (segment + 1) r = (found', cur', lastseg', segment', r')"
      using Suc.prems(1) inb cnt True by (subst (asm) rasterregion_loop.simps) simp
    show ?thesis
      by (rule Suc.hyps(1) [OF n step raster_inv_skip [OF Suc.prems(2) inb True]])
  next
    case nz: False
    show ?thesis
    proof (cases found)
      case nf: False
      show ?thesis
      proof (cases ?inc)
        case True
        have step: "rasterregion_loop includes True (cnt ! segment) (int segment) (segment + 1)
             (r\<lparr>inclusion_mask := ?m, first_segment := int segment, num_photons := cnt ! segment\<rparr>)
              = (found', cur', lastseg', segment', r')"
          using Suc.prems(1) inb cnt nz nf True
          by (subst (asm) rasterregion_loop.simps) (simp add: Let_def)
        show ?thesis
          using Suc.hyps(1) [OF n step raster_inv_first] Suc.prems(2) inb nf by simp
      next
        case False
        have step: "rasterregion_loop includes False cur lastseg (segment + 1)
             (r\<lparr>inclusion_mask := ?m, first_photon := first_photon r + cnt ! segment\<rparr>)
              = (found', cur', lastseg', segment', r')"
          using Suc.prems(1) inb cnt nz nf False
          by (subst (asm) rasterregion_loop.simps) (simp add: Let_def)
        show ?thesis
          using Suc.hyps(1) [OF n step raster_inv_before] Suc.prems(2) inb nf by simp
      qed
    next
      case f: True
      show ?thesis
      proof (cases ?inc)
        case True
        have step: "rasterregion_loop includes True (cur + cnt ! segment) (int segment) (segment + 1)
             (r\<lparr>inclusion_mask := ?m, num_photons := cur + cnt ! segment\<rparr>)
              = (found', cur', lastseg', segment', r')"
          using Suc.prems(1) inb cnt nz f True
          by (subst (asm) rasterregion_loop.simps) (simp add: Let_def)
        show ?thesis
          using Suc.hyps(1) [OF n step raster_inv_grow(1)] Suc.prems(2) inb f by simp
      next
        case False
        have step: "rasterregion_loop includes True (cur + cnt ! segment) lastseg (segment + 1)
             (r\<lparr>inclusion_mask := ?m\<rparr>)
              = (found', cur', lastseg', segment', r')"
          using Suc.prems(1) inb cnt nz f False
          by (subst (asm) rasterregion_loop.simps) (simp add: Let_def)
        show ?thesis
          using Suc.hyps(1) [OF n step raster_inv_grow(2)] Suc.prems(2) inb f by simp
      qed
    qed
  qed
qed




lemma polyregion_found:
  assumes "polyregion_loop incl False 0 r = (True, segment, r1)" "first_photon r = 0"
  shows "crop_closure (segment_ph_cnt r) (r1\<lparr>num_segments := int segment - first_segment r1\<rparr>)"
    and "segment_ph_cnt r1 = segment_ph_cnt r"
proof -
  have "poly_inv (segment_ph_cnt r) False 0 r" using assms(2) by (simp add: poly_inv_def)
  from polyregion_loop_inv [OF assms(1) this]
  have inv: "poly_inv (segment_ph_cnt r) True segment r1" .
  then have fs: "0 \<le> first_segment r1" "nat (first_segment r1) < segment"
    by (simp_all add: poly_inv_def)
  then have "nat (int segment - first_segment r1) = segment - nat (first_segment r1)"
    by arith
  with inv show "crop_closure (segment_ph_cnt r) (r1\<lparr>num_segments := int segment - first_segment r1\<rparr>)"
    by (auto simp: poly_inv_def crop_closure_def)
  from inv show "segment_ph_cnt r1 = segment_ph_cnt r" by (simp add: poly_inv_def)
qed

lemma polyregion_loop_found_mono:
  "polyregion_loop incl True segment r = (found', segment', r') \<Longrightarrow> found'"
proof (induction "length (segment_ph_cnt r) - segment" arbitrary: segment r)
  case 0
  then show ?case by (subst (asm) polyregion_loop.simps) simp
next
  case (Suc n)
  from Suc.hyps(2) have inb: "segment < length (segment_ph_cnt r)" by simp
  have n: "\<And>r1. segment_ph_cnt r1 = segment_ph_cnt r \<Longrightarrow> n = length (segment_ph_cnt r1) - (segment + 1)"
    using Suc.hyps(2) by simp
  show ?case
  proof (cases "\<not> incl (segment_lon r ! segment) (segment_lat r ! segment) \<and> segment_ph_cnt r ! segment \<noteq> 0")
    case True
    then show ?thesis using Suc.prems inb
      by (subst (asm) polyregion_loop.simps) simp
  next
    case False
    have "polyregion_loop incl True (segment + 1)
            (r\<lparr>num_photons := num_photons r + segment_ph_cnt r ! segment\<rparr>) = (found', segment', r')"
      using Suc.prems inb False by (subst (asm) polyregion_loop.simps) simp
    from Suc.hyps(1) [OF n this] show ?thesis by simp
  qed
qed

lemma polyregion_loop_not_found:
  "polyregion_loop incl False segment r = (False, segment', r') \<Longrightarrow> num_photons r' = num_photons r"
proof (induction "length (segment_ph_cnt r) - segment" arbitrary: segment r)
  case 0
  then show ?case by (subst (asm) polyregion_loop.simps) simp
next
  case (Suc n)
  from Suc.hyps(2) have inb: "segment < length (segment_ph_cnt r)" by simp
  have n: "\<And>r1. segment_ph_cnt r1 = segment_ph_cnt r \<Longrightarrow> n = length (segment_ph_cnt r1) - (segment + 1)"
    using Suc.hyps(2) by simp
  show ?case
  proof (cases "incl (segment_lon r ! segment) (segment_lat r ! segment) \<and> segment_ph_cnt r ! segment \<noteq> 0")
    case True
    have "polyregion_loop incl True (segment + 1)
            (r\<lparr>first_segment := int segment, num_photons := segment_ph_cnt r ! segment\<rparr>)
            = (False, segment', r')"
      using Suc.prems inb True by (subst (asm) polyregion_loop.simps) simp
    from polyregion_loop_found_mono [OF this] show ?thesis by simp
  next
    case False
    have "polyregion_loop incl False (segment + 1)
            (r\<lparr>first_photon := first_photon r + segment_ph_cnt r ! segment\<rparr>) = (False, segment', r')"
      using Suc.prems inb False by (subst (asm) polyregion_loop.simps) simp
    from Suc.hyps(1) [OF n this] show ?thesis by simp
  qed
qed

lemma rasterregion_loop_found_mono:
  "rasterregion_loop includes True cur lastseg segment r = (found', cur', lastseg', segment', r') \<Longrightarrow> found'"
proof (induction "length (segment_ph_cnt r) - segment" arbitrary: cur lastseg segment r)
  case 0
  then show ?case by (subst (asm) rasterregion_loop.simps) simp
next
  case (Suc n)
  from Suc.hyps(2) have inb: "segment < length (segment_ph_cnt r)" by simp
  have IH: "found'"
    if "rasterregion_loop includes True c l (Suc segment) r1 = (found', cur', lastseg', segment', r')"
      "segment_ph_cnt r1 = segment_ph_cnt r" for c l r1
    by (rule Suc.hyps(1) [OF _ that(1)]) (use that(2) Suc.hyps(2) in simp)
  from Suc.prems inb show ?case
    by (subst (asm) rasterregion_loop.simps) (auto simp: Let_def split: if_splits dest: IH)
qed

lemma rasterregion_loop_not_found:
  "rasterregion_loop includes False cur lastseg segment r = (False, cur', lastseg', segment', r') \<Longrightarrow>
     num_photons r' = num_photons r"
proof (induction "length (segment_ph_cnt r) - segment" arbitrary: cur lastseg segment r)
  case 0
  then show ?case by (subst (asm) rasterregion_loop.simps) simp
next
  case (Suc n)
  from Suc.hyps(2) have inb: "segment < length (segment_ph_cnt r)" by simp
  have IH: "num_photons r' = num_photons r1"
    if "rasterregion_loop includes False c l (Suc segment) r1 = (False, cur', lastseg', segment', r')"
      "segment_ph_cnt r1 = segment_ph_cnt r" for c l r1
    by (rule Suc.hyps(1) [OF _ that(1)]) (use that(2) Suc.hyps(2) in simp)
  from Suc.prems inb show ?case
    by (subst (asm) rasterregion_loop.simps)
       (auto simp: Let_def split: if_splits dest: IH rasterregion_loop_found_mono)
qed

lemma rasterregion_found:
  assumes "rasterregion_loop includes False 0 0 0 r = (True, cur, lastseg, segment, r1)"
    "first_photon r = 0"
  shows "crop_closure (segment_ph_cnt r)
           (r1\<lparr>num_segments := lastseg - first_segment r1 + 1, inclusion_ptr := p\<rparr>)"
    and "segment_ph_cnt r1 = segment_ph_cnt r"
proof -
  have "raster_inv (segment_ph_cnt r) False 0 0 0 r" using assms(2) by (simp add: raster_inv_def)
  from rasterregion_loop_inv [OF assms(1) this]
  have inv: "raster_inv (segment_ph_cnt r) True cur lastseg segment r1" .
  then show "crop_closure (segment_ph_cnt r)
           (r1\<lparr>num_segments := lastseg - first_segment r1 + 1, inclusion_ptr := p\<rparr>)"
    by (auto simp: raster_inv_def crop_closure_def)
  from inv show "segment_ph_cnt r1 = segment_ph_cnt r" by (simp add: raster_inv_def)
qed


text \<open>
  C1 (crop closure). Every region that the constructor produces through the polygon or the
  raster cropper satisfies: \<open>first_photon\<close> is the sum of \<open>segment_ph_cnt\<close> over the
  segments \<open>0 .. first_segment - 1\<close>, and \<open>num_photons\<close> is the sum over the segments
  \<open>first_segment .. first_segment + num_segments - 1\<close>, a range that lies inside the array.
  The sums are over the untrimmed photon counts. When no first segment is found the fields keep
  \<^verbatim>\<open>H5Coro::ALL_ROWS\<close> and the constructor throws \<^verbatim>\<open>RTE_EMPTY_SUBSET\<close> (section 4.2, "Empty
  crop"), which is the hypothesis \<open>ALL_ROWS \<le> 0\<close>.
\<close>

theorem Region_crop_closure:
  assumes "ALL_ROWS \<le> 0"
    and "raster parms \<noteq> None \<or> 0 < points_in_poly parms"
    and "Region ALL_ROWS fresh parms lat lon cnt = Inr r"
  shows "0 \<le> first_segment r \<and> 0 \<le> num_segments r \<and>
         first_segment r + num_segments r \<le> int (length cnt) \<and>
         first_photon r = sum_list (take (nat (first_segment r)) cnt) \<and>
         num_photons r = sum_list (take (nat (num_segments r)) (drop (nat (first_segment r)) cnt))"
proof -
  let ?r0 = "\<lparr>segment_lat = lat, segment_lon = lon, segment_ph_cnt = cnt,
                first_segment = 0, num_segments = ALL_ROWS, first_photon = 0, num_photons = ALL_ROWS,
                inclusion_mask = None, inclusion_ptr = None\<rparr>"
  have closure_trim: "crop_closure cnt (x\<lparr>segment_lat := a, segment_lon := b, segment_ph_cnt := c\<rparr>)"
    if "crop_closure cnt x" for x a b c
    using that by (simp add: crop_closure_def)
  have poly: "crop_closure cnt (polyregion incl ?r0)" if "0 < num_photons (polyregion incl ?r0)" for incl
  proof -
    obtain f s r1 where loop: "polyregion_loop incl False 0 ?r0 = (f, s, r1)"
      by (cases "polyregion_loop incl False 0 ?r0") auto
    show ?thesis
    proof (cases f)
      case True
      with polyregion_found(1) [of incl ?r0 s r1] loop show ?thesis
        by (simp add: polyregion_def)
    next
      case False
      with polyregion_loop_not_found [of incl 0 ?r0 s r1] loop that assms(1) show ?thesis
        by (simp add: polyregion_def)
    qed
  qed
  have rast: "crop_closure cnt (rasterregion fresh incl ?r0)"
    if "0 < num_photons (rasterregion fresh incl ?r0)" for incl
  proof (cases "length cnt = 0")
    case True
    with that assms(1) show ?thesis by (simp add: rasterregion_def)
  next
    case ne: False
    let ?mask = "map fresh [0 ..< length cnt]"
    let ?r1 = "?r0\<lparr>inclusion_mask := Some ?mask, inclusion_ptr := Some ?mask\<rparr>"
    obtain f c l s r1 where loop: "rasterregion_loop incl False 0 0 0 ?r1 = (f, c, l, s, r1)"
      by (cases "rasterregion_loop incl False 0 0 0 ?r1") auto
    show ?thesis
    proof (cases f)
      case True
      with rasterregion_found(1) [of incl ?r1 c l s r1] loop ne show ?thesis
        by (simp add: rasterregion_def Let_def)
    next
      case False
      with rasterregion_loop_not_found [of incl 0 0 0 ?r1 c l s r1] loop that assms(1) ne show ?thesis
        by (simp add: rasterregion_def Let_def)
    qed
  qed
  have "crop_closure cnt r"
    using assms(2,3) poly rast closure_trim
    by (auto simp: Region_def Let_def split: option.splits if_splits)
  then show ?thesis by (simp add: crop_closure_def)
qed


theorem Region_crop_closure_witness:
  "(\<exists>r. Region (- 1) (\<lambda>i. False) example_polygon example_lat example_lon example_cnt = Inr r \<and>
        first_segment r = 2 \<and> num_segments r = 3 \<and> first_photon r = 5 \<and> num_photons r = 9 \<and>
        first_photon r = sum_list (take (nat (first_segment r)) example_cnt) \<and>
        num_photons r = sum_list (take (nat (num_segments r)) (drop (nat (first_segment r)) example_cnt))) \<and>
   (\<exists>r. Region (- 1) (\<lambda>i. False) example_raster example_lat example_lon example_cnt = Inr r \<and>
        first_segment r = 2 \<and> num_segments r = 5 \<and> first_photon r = 5 \<and> num_photons r = 16 \<and>
        first_photon r = sum_list (take (nat (first_segment r)) example_cnt) \<and>
        num_photons r = sum_list (take (nat (num_segments r)) (drop (nat (first_segment r)) example_cnt)))"
proof -
  have p: "Region (- 1) (\<lambda>i. False) example_polygon example_lat example_lon example_cnt =
      Inr \<lparr>segment_lat = [1, 2, 3, 11, 4, 12], segment_lon = [0, 0, 0, 0, 0, 0],
        segment_ph_cnt = [7, 0, 2, 3, 4, 9], first_segment = 2,
        num_segments = 3, first_photon = 5, num_photons = 9,
        inclusion_mask = None, inclusion_ptr = None\<rparr>"
    by (simp add: Region_def polyregion_def polyregion_loop.simps example_polygon_def example_lat_def
        example_lon_def example_cnt_def example_band_def)
  have q: "Region (- 1) (\<lambda>i. False) example_raster example_lat example_lon example_cnt =
      Inr \<lparr>segment_lat = [1, 2, 3, 11, 4, 12], segment_lon = [0, 0, 0, 0, 0, 0],
        segment_ph_cnt = [7, 0, 2, 3, 4, 9], first_segment = 2,
        num_segments = 5, first_photon = 5, num_photons = 16,
        inclusion_mask =
          Some [False, False, True, False, True, False, True, False],
        inclusion_ptr = Some [True, False, True, False, True, False]\<rparr>"
    by (simp add: Region_def rasterregion_def rasterregion_loop.simps example_raster_def example_lat_def
        example_lon_def example_cnt_def example_band_def upt_rec [of _ "numeral _"] upt_rec [of _ "Suc _"])
  have a: "(- 1 :: int) \<le> 0" by simp
  have b1: "raster example_polygon \<noteq> None \<or> 0 < points_in_poly example_polygon"
    by (simp add: example_polygon_def)
  have b2: "raster example_raster \<noteq> None \<or> 0 < points_in_poly example_raster"
    by (simp add: example_raster_def)
  show ?thesis
    using Region_crop_closure [OF a b1 p] Region_crop_closure [OF a b2 q] p q by simp
qed

subsection \<open>ATL08 classifier join\<close>































lemma above_reclassify_iff:
  assumes "above_reclassify K info atl03 atl03_segment p relief_v cls = Some cls'"
    and "cls \<noteq> uint8_t (ATL08_TOP_OF_CANOPY K)"
  shows "cls' = uint8_t (ATL08_TOP_OF_CANOPY K) \<longleftrightarrow>
           (\<exists>orient elevation cnf.
              rd (sc_orient atl03) 0 = Some orient \<and>
              rd (solar_elevation atl03) atl03_segment = Some elevation \<and>
              rd (signal_conf_ph atl03) (int p) = Some cnf \<and>
              elevation \<le> 5 \<and>
              uint8_t (getSpotNumber K orient (track info) (pair info)) \<in> {1, 3, 5} \<and>
              cnf = CNF_SURFACE_HIGH K \<and> 0 \<le> relief_v \<and> relief_v < 35)"
  using assms
  by (auto simp: above_reclassify_def Let_def split: option.splits if_splits)

text \<open>
  C7 on the code. A beam whose first segment has the id 1: its only photon is matched by an
  ATL08 row of class 1, has the relief 10 and the signal confidence \<^verbatim>\<open>CNF_SURFACE_HIGH\<close>
  (here 4), and the beam is on spot 1. The solar elevation of the photon's segment (index 0) is
  3 degrees, so the claim reassigns the photon to \<^verbatim>\<open>ATL08_TOP_OF_CANOPY\<close> (here 3); line 737
  reads \<^verbatim>\<open>solar_elevation[atl03_segment]\<close>, the entry at the segment id 1, which is 50 degrees,
  and the class stays 1. With the elevations exchanged the photon's segment is at 50 degrees
  and the code reassigns it. With the segment id 100 the read is outside the dataset.
\<close>

theorem classify_above_reads_segment_id:
  "solar_elevation (example_atl03 [1, 2] [3, 50] 1) ! 0 \<le> 5 \<and>
   uint8_t (getSpotNumber example_constants 0 (track example_info) (pair example_info)) = 1 \<and>
   signal_conf_ph (example_atl03 [1, 2] [3, 50] 1) ! 0 = CNF_SURFACE_HIGH example_constants \<and>
   map_option relief
     (classify example_constants example_parms_above example_info (example_region [1, 0])
        (example_atl03 [1, 2] [3, 50] 1) (example_atl08_phoreal [(1, 1, 1)])) = Some (Some [10]) \<and>
   map_option classification
     (classify example_constants example_parms_above example_info (example_region [1, 0])
        (example_atl03 [1, 2] [3, 50] 1) (example_atl08_phoreal [(1, 1, 1)])) = Some (Some [1]) \<and>
   \<not> solar_elevation (example_atl03 [1, 2] [50, 3] 1) ! 0 \<le> 5 \<and>
   map_option classification
     (classify example_constants example_parms_above example_info (example_region [1, 0])
        (example_atl03 [1, 2] [50, 3] 1) (example_atl08_phoreal [(1, 1, 1)])) = Some (Some [3]) \<and>
   classify example_constants example_parms_above example_info (example_region [1])
     (example_atl03 [100] [3] 1) (example_atl08_phoreal [(100, 1, 1)]) = None"
  by (simp add: classify_def classify_segments.simps classify_photons.simps classify_photon_def
      classify_match_def classify_no_match_def above_reclassify_def goto_atl08_segment.simps
      goto_atl08_photon.simps advance_land_segment.simps rd_def uint8_t_def Let_def
      example_atl03_def example_atl08_phoreal_def example_atl08_def example_region_def
      example_parms_above_def example_parms_def example_constants_def example_info_def)

subsection \<open>YAPC version 2: the neighbour count\<close>

text \<open>
  C8 as stated: whenever \<^verbatim>\<open>settings.knn != 0\<close>, the neighbour count that \<^verbatim>\<open>yapcV2\<close> uses
  equals \<^verbatim>\<open>settings.knn\<close>, for any positive value. It fails at \<^verbatim>\<open>settings.knn = 30\<close>: line 870
  truncates every count to \<^verbatim>\<open>MAX_KNN\<close>, the length of the \<^verbatim>\<open>nearest_neighbors\<close> array.
\<close>

theorem yapcV2_knn_counterexample:
  "(30::int) \<noteq> 0 \<and> (0::int) < 30 \<and> yapcV2_knn 30 100 = 25 \<and> yapcV2_knn 30 100 \<noteq> 30"
  by (simp add: yapcV2_knn_def MAX_KNN_def)

text \<open>
  C8 as amended: whenever \<^verbatim>\<open>settings.knn != 0\<close>, the neighbour count used for a segment
  is \<open>min settings.knn MAX_KNN\<close>, whatever the photon count \<open>N\<close> of the segment; it equals
  \<^verbatim>\<open>settings.knn\<close> exactly when \<^verbatim>\<open>settings.knn\<close> is at most \<open>MAX_KNN = 25\<close>.
\<close>

theorem yapcV2_knn_clamped:
  "settings_knn \<noteq> 0 \<Longrightarrow>
     yapcV2_knn settings_knn N = min settings_knn 25 \<and>
     (yapcV2_knn settings_knn N = settings_knn \<longleftrightarrow> settings_knn \<le> 25)"
  by (auto simp: yapcV2_knn_def MAX_KNN_def)

theorem yapcV2_knn_clamped_witness:
  "(7::int) \<noteq> 0 \<and> yapcV2_knn 7 100 = 7 \<and> (30::int) \<noteq> 0 \<and> yapcV2_knn 30 100 = 25"
  using yapcV2_knn_clamped [of 7 100] yapcV2_knn_clamped [of 30 100] by simp


text \<open>
  C6 on the code. In a beam of two segments of two photons each, the center band of the second
  segment is the photons 2 and 3, whose heights differ by 20 and whose along-track distances
  differ by 4: the claim computes these spreads and scores the segment. The loop of lines
  876-888 reads \<^verbatim>\<open>atl03.h_ph[n]\<close> and \<^verbatim>\<open>atl03.dist_ph_along[n]\<close> for \<open>n\<close> from 0 below \<open>N\<close>, the
  photons 0 and 1 of the first segment: the height spread it finds for the second segment is
  0 and the segment is passed over as invalid. With the heights 0 and 1 in the first segment
  the second one is scored, with the spreads 1 and 1 of the first.
\<close>

theorem yapcV2_spread_not_center:
  "yapcV2_windows example_yapc_parms (example_region [2, 2]) example_yapc_atl03
     = Some [(\<lparr>ph_b0 = 0, ph_b1 = 2, ph_c0 = 0, ph_c1 = 2\<rparr>, Skipped_spread 0 1),
             (\<lparr>ph_b0 = 0, ph_b1 = 2, ph_c0 = 2, ph_c1 = 4\<rparr>, Skipped_spread 0 1)] \<and>
   center_hspread example_yapc_atl03 \<lparr>ph_b0 = 0, ph_b1 = 2, ph_c0 = 2, ph_c1 = 4\<rparr> = 20 \<and>
   center_xspread example_yapc_atl03 \<lparr>ph_b0 = 0, ph_b1 = 2, ph_c0 = 2, ph_c1 = 4\<rparr> = 4 \<and>
   yapcV2_windows example_yapc_parms (example_region [2, 2])
       (example_yapc_atl03\<lparr>h_ph := [0, 1, 10, 30]\<rparr>)
     = Some [(\<lparr>ph_b0 = 0, ph_b1 = 2, ph_c0 = 0, ph_c1 = 2\<rparr>, Scored 1 1 1),
             (\<lparr>ph_b0 = 0, ph_b1 = 2, ph_c0 = 2, ph_c1 = 4\<rparr>, Scored 1 1 1)]"
  by (simp add: yapcV2_windows_def yapcV2_segments.simps yapcV2_segment_def yapcV2_bands_def
      yapcV2_spread_def yapcV2_minmax.simps yapcV2_knn_def MAX_KNN_def MAXIMUM_HSPREAD_def
      center_hspread_def center_xspread_def center_band_def spread_of_def rd_def Let_def
      example_yapc_atl03_def example_yapc_parms_def example_atl03_def example_region_def
      example_parms_def)

subsection \<open>Background rate\<close>

lemma rd_Some: "0 \<le> i \<Longrightarrow> i < int (length xs) \<Longrightarrow> rd xs i = Some (xs ! nat i)"
  by (simp add: rd_def)

lemma rd_None: "i < 0 \<or> int (length xs) \<le> i \<Longrightarrow> rd xs i = None"
  by (auto simp: rd_def)

lemma calculateBackground_loop_result:
  assumes "0 \<le> bckgrd_in st"
    and "length (bckgrd_rate a) \<le> length (bckgrd_delta_time a)"
    and "rd (segment_delta_time a) (extent_segment st) = Some t"
  shows "\<exists>c. bckgrd_in st \<le> c \<and> c \<le> max (bckgrd_in st) (int (length (bckgrd_rate a))) \<and>
             calculateBackground_loop a b st = Some (bckgrd_result a b c t, st\<lparr>bckgrd_in := c\<rparr>) \<and>
             (\<forall>i. bckgrd_in st \<le> i \<and> i < c \<longrightarrow> bckgrd_delta_time a ! nat i < t) \<and>
             (c < int (length (bckgrd_rate a)) \<longrightarrow> t \<le> bckgrd_delta_time a ! nat c)"
  using assms
proof (induction "nat (int (length (bckgrd_rate a)) - bckgrd_in st)" arbitrary: st)
  case 0
  then have "\<not> bckgrd_in st < int (length (bckgrd_rate a))" by simp
  then show ?case
    by (intro exI [of _ "bckgrd_in st"])
       (simp add: calculateBackground_loop.simps [of a b st] bckgrd_result_def)
next
  case (Suc m)
  let ?c = "bckgrd_in st"
  have inb: "?c < int (length (bckgrd_rate a))" using Suc.hyps(2) by linarith
  have r1: "rd (bckgrd_delta_time a) ?c = Some (bckgrd_delta_time a ! nat ?c)"
    using Suc.prems(1,2) inb by (simp add: rd_def)
  show ?case
  proof (cases "bckgrd_delta_time a ! nat ?c \<ge> t")
    case True
    have r2: "0 < ?c \<Longrightarrow> rd (bckgrd_delta_time a) (?c - 1) = Some (bckgrd_delta_time a ! nat (?c - 1))"
      "0 < ?c \<Longrightarrow> rd (bckgrd_rate a) (?c - 1) = Some (bckgrd_rate a ! nat (?c - 1))"
      "rd (bckgrd_rate a) ?c = Some (bckgrd_rate a ! nat ?c)"
      "rd (bckgrd_rate a) 0 = Some (bckgrd_rate a ! 0)"
      using Suc.prems(1,2) inb by (auto simp: rd_def)
    have "calculateBackground_loop a b st = Some (bckgrd_result a b ?c t, st)"
      using inb r1 r2 True Suc.prems(3)
      by (subst calculateBackground_loop.simps)
         (simp add: bckgrd_result_def bckgrd_line_def Let_def)
    with True inb show ?thesis
      by (intro exI [of _ ?c]) simp
  next
    case False
    let ?st = "st\<lparr>bckgrd_in := ?c + 1\<rparr>"
    have step: "calculateBackground_loop a b st = calculateBackground_loop a b ?st"
      using inb r1 False Suc.prems(3)
      by (subst calculateBackground_loop.simps) simp
    have m: "m = nat (int (length (bckgrd_rate a)) - bckgrd_in ?st)" using Suc.hyps(2) by simp
    from Suc.hyps(1) [OF m] Suc.prems
    obtain c where c: "?c + 1 \<le> c" "c \<le> max (?c + 1) (int (length (bckgrd_rate a)))"
      "calculateBackground_loop a b ?st = Some (bckgrd_result a b c t, ?st\<lparr>bckgrd_in := c\<rparr>)"
      "\<forall>i. ?c + 1 \<le> i \<and> i < c \<longrightarrow> bckgrd_delta_time a ! nat i < t"
      "c < int (length (bckgrd_rate a)) \<longrightarrow> t \<le> bckgrd_delta_time a ! nat c"
      by auto
    have "\<forall>i. ?c \<le> i \<and> i < c \<longrightarrow> bckgrd_delta_time a ! nat i < t"
    proof (intro allI impI)
      fix i assume "?c \<le> i \<and> i < c"
      then consider "i = ?c" | "?c + 1 \<le> i \<and> i < c" by linarith
      then show "bckgrd_delta_time a ! nat i < t"
        using False c(4) by cases auto
    qed
    with c step inb show ?thesis
      by (intro exI [of _ c]) auto
  qed
qed

lemma calculateBackground_empty:
  "bckgrd_rate a = [] \<Longrightarrow> calculateBackground a st = None"
  by (simp add: calculateBackground_def rd_def)

lemma calculateBackground_safe:
  assumes "bckgrd_rate a \<noteq> []"
    and "length (bckgrd_rate a) \<le> length (bckgrd_delta_time a)"
    and "0 \<le> bckgrd_in st"
    and "0 \<le> extent_segment st" "extent_segment st < int (length (segment_delta_time a))"
  shows "calculateBackground a st \<noteq> None"
proof -
  have last: "rd (bckgrd_rate a) (int (length (bckgrd_rate a)) - 1)
                = Some (bckgrd_rate a ! nat (int (length (bckgrd_rate a)) - 1))"
    using assms(1) by (simp add: rd_def)
  have seg: "rd (segment_delta_time a) (extent_segment st)
                = Some (segment_delta_time a ! nat (extent_segment st))"
    using assms(4,5) by (simp add: rd_def)
  from calculateBackground_loop_result [OF assms(3) assms(2) seg]
  obtain c where "calculateBackground_loop a (bckgrd_rate a ! nat (int (length (bckgrd_rate a)) - 1)) st
      = Some (bckgrd_result a (bckgrd_rate a ! nat (int (length (bckgrd_rate a)) - 1)) c
                (segment_delta_time a ! nat (extent_segment st)), st\<lparr>bckgrd_in := c\<rparr>)"
    by blast
  then show ?thesis by (simp add: calculateBackground_def last)
qed

lemma calculateBackground_loop_overrun:
  assumes "length (bckgrd_delta_time a) < length (bckgrd_rate a)"
    and "0 \<le> bckgrd_in st" "bckgrd_in st \<le> int (length (bckgrd_delta_time a))"
    and "rd (segment_delta_time a) (extent_segment st) = Some t"
    and "\<forall>x \<in> set (bckgrd_delta_time a). x < t"
  shows "calculateBackground_loop a b st = None"
  using assms
proof (induction "nat (int (length (bckgrd_delta_time a)) - bckgrd_in st)" arbitrary: st)
  case 0
  then have "bckgrd_in st = int (length (bckgrd_delta_time a))" by simp
  with "0.prems"(1) show ?case
    by (subst calculateBackground_loop.simps) (simp add: rd_def)
next
  case (Suc m)
  let ?c = "bckgrd_in st"
  have inb: "?c < int (length (bckgrd_delta_time a))" using Suc.hyps(2) by linarith
  then have r1: "rd (bckgrd_delta_time a) ?c = Some (bckgrd_delta_time a ! nat ?c)"
    using Suc.prems(2) by (simp add: rd_def)
  have "bckgrd_delta_time a ! nat ?c \<in> set (bckgrd_delta_time a)"
    using inb Suc.prems(2) by (intro nth_mem) linarith
  then have lt: "\<not> bckgrd_delta_time a ! nat ?c \<ge> t" using Suc.prems(5) by fastforce
  let ?st = "st\<lparr>bckgrd_in := ?c + 1\<rparr>"
  have step: "calculateBackground_loop a b st = calculateBackground_loop a b ?st"
    using inb r1 lt Suc.prems(1,4)
    by (subst calculateBackground_loop.simps) simp
  have m: "m = nat (int (length (bckgrd_delta_time a)) - bckgrd_in ?st)" using Suc.hyps(2) by simp
  from Suc.hyps(1) [OF m] Suc.prems inb step show ?case by simp
qed

text \<open>
  C10 (bounds of \<^verbatim>\<open>calculateBackground\<close>). The function reads
  \<^verbatim>\<open>bckgrd_rate[bckgrd_rate.size - 1]\<close> before it scans, so with an empty \<^verbatim>\<open>bckgrd_rate\<close> its
  first access is outside the array, whatever the state. When \<^verbatim>\<open>bckgrd_rate\<close> is not empty
  and \<^verbatim>\<open>bckgrd_delta_time\<close> has at least as many entries, every access is inside its array,
  from any state whose cursor is not negative and whose extent segment is a segment. When
  \<^verbatim>\<open>bckgrd_delta_time\<close> is shorter, a scan for a segment time later than every background
  time reads \<^verbatim>\<open>bckgrd_delta_time[bckgrd_in]\<close> at every cursor position and leaves the array.
  So the accesses are inside the arrays for every such state and every segment time if and
  only if \<^verbatim>\<open>bckgrd_rate\<close> is not empty and \<^verbatim>\<open>bckgrd_delta_time\<close> is at least as long.
\<close>

theorem calculateBackground_bounds:
  "(bckgrd_rate a = [] \<longrightarrow> calculateBackground a st = None) \<and>
   (bckgrd_rate a \<noteq> [] \<and> length (bckgrd_rate a) \<le> length (bckgrd_delta_time a) \<and>
    0 \<le> bckgrd_in st \<and> 0 \<le> extent_segment st \<and>
    extent_segment st < int (length (segment_delta_time a))
      \<longrightarrow> calculateBackground a st \<noteq> None) \<and>
   (length (bckgrd_delta_time a) < length (bckgrd_rate a) \<and>
    0 \<le> bckgrd_in st \<and> bckgrd_in st \<le> int (length (bckgrd_delta_time a)) \<and>
    0 \<le> extent_segment st \<and> extent_segment st < int (length (segment_delta_time a)) \<and>
    (\<forall>x \<in> set (bckgrd_delta_time a). x < segment_delta_time a ! nat (extent_segment st))
      \<longrightarrow> calculateBackground a st = None) \<and>
   ((\<forall>s sdt. 0 \<le> bckgrd_in s \<and> 0 \<le> extent_segment s \<and> extent_segment s < int (length sdt)
        \<longrightarrow> calculateBackground (a\<lparr>segment_delta_time := sdt\<rparr>) s \<noteq> None)
     \<longleftrightarrow> bckgrd_rate a \<noteq> [] \<and> length (bckgrd_rate a) \<le> length (bckgrd_delta_time a))"
proof (intro conjI impI)
  show "calculateBackground a st = None" if "bckgrd_rate a = []"
    using that by (rule calculateBackground_empty)
next
  assume "bckgrd_rate a \<noteq> [] \<and> length (bckgrd_rate a) \<le> length (bckgrd_delta_time a) \<and>
    0 \<le> bckgrd_in st \<and> 0 \<le> extent_segment st \<and>
    extent_segment st < int (length (segment_delta_time a))"
  then show "calculateBackground a st \<noteq> None"
    using calculateBackground_safe [of a st] by blast
next
  assume h: "length (bckgrd_delta_time a) < length (bckgrd_rate a) \<and>
    0 \<le> bckgrd_in st \<and> bckgrd_in st \<le> int (length (bckgrd_delta_time a)) \<and>
    0 \<le> extent_segment st \<and> extent_segment st < int (length (segment_delta_time a)) \<and>
    (\<forall>x \<in> set (bckgrd_delta_time a). x < segment_delta_time a ! nat (extent_segment st))"
  then have seg: "rd (segment_delta_time a) (extent_segment st)
                = Some (segment_delta_time a ! nat (extent_segment st))"
    by (simp add: rd_def)
  have "calculateBackground_loop a b st = None" for b
    using calculateBackground_loop_overrun [OF _ _ _ seg] h by blast
  then show "calculateBackground a st = None"
    by (simp add: calculateBackground_def split: option.splits)
next
  let ?safe = "\<forall>s sdt. 0 \<le> bckgrd_in s \<and> 0 \<le> extent_segment s \<and> extent_segment s < int (length sdt)
        \<longrightarrow> calculateBackground (a\<lparr>segment_delta_time := sdt\<rparr>) s \<noteq> None"
  let ?pre = "bckgrd_rate a \<noteq> [] \<and> length (bckgrd_rate a) \<le> length (bckgrd_delta_time a)"
  show "?safe \<longleftrightarrow> ?pre"
  proof
    assume ?pre
    then show ?safe
      using calculateBackground_safe [of "a\<lparr>segment_delta_time := _\<rparr>"] by simp
  next
    assume safe: ?safe
    let ?s = "st\<lparr>bckgrd_in := int (length (bckgrd_delta_time a)), extent_segment := 0\<rparr>"
    let ?a = "a\<lparr>segment_delta_time := [0]\<rparr>"
    from safe have ok: "calculateBackground ?a ?s \<noteq> None" by simp
    show ?pre
    proof (rule ccontr)
      assume "\<not> ?pre"
      then consider "bckgrd_rate a = []" | "length (bckgrd_delta_time a) < length (bckgrd_rate a)"
        by linarith
      then show False
      proof cases
        case 1
        then show False using ok calculateBackground_empty [of ?a ?s] by simp
      next
        case 2
        have "calculateBackground_loop ?a b ?s = None" for b
          using 2 by (subst calculateBackground_loop.simps) (simp add: rd_def)
        then show False using ok by (simp add: calculateBackground_def split: option.splits)
      qed
    qed
  qed
qed

theorem calculateBackground_bounds_witness:
  "calculateBackground (example_bckgrd [7] [] []) example_state = None \<and>
   calculateBackground (example_bckgrd [7] [0, 10] [100, 200]) example_state \<noteq> None \<and>
   calculateBackground (example_bckgrd [7] [0] [100, 200]) example_state = None"
proof -
  have 1: "calculateBackground (example_bckgrd [7] [] []) example_state = None"
    using calculateBackground_bounds [of "example_bckgrd [7] [] []" example_state]
    by (simp add: example_bckgrd_def)
  have 2: "calculateBackground (example_bckgrd [7] [0, 10] [100, 200]) example_state \<noteq> None"
    using calculateBackground_bounds [of "example_bckgrd [7] [0, 10] [100, 200]" example_state]
    by (simp add: example_bckgrd_def example_state_def)
  have 3: "calculateBackground (example_bckgrd [7] [0] [100, 200]) example_state = None"
    using calculateBackground_bounds [of "example_bckgrd [7] [0] [100, 200]" example_state]
    by (simp add: example_bckgrd_def example_state_def)
  show ?thesis using 1 2 3 by simp
qed

subsection \<open>Extent state machine\<close>

lemma rdo_Ok: "rdo xs i = Ok v \<longleftrightarrow> rd xs i = Some v"
  by (simp add: rdo_def split: option.splits)

lemma rdo_not_Thrown [simp]: "rdo xs i \<noteq> Thrown e"
  by (simp add: rdo_def split: option.splits)

lemma obind_Ok: "obind m f = Ok y \<longleftrightarrow> (\<exists>x. m = Ok x \<and> f x = Ok y)"
  by (cases m) (simp_all add: obind_def)

lemma obind_Thrown: "obind m f = Thrown e \<longleftrightarrow> m = Thrown e \<or> (\<exists>x. m = Ok x \<and> f x = Thrown e)"
  by (cases m) (simp_all add: obind_def)

lemma and_then_Some:
  "and_then m f = Ok (Some y) \<longleftrightarrow> (\<exists>x. m = Ok (Some x) \<and> f x = Ok (Some y))"
  by (cases m) (auto simp: and_then_def obind_def split: option.splits)

lemma and_then_Thrown:
  "and_then m f = Thrown e \<longleftrightarrow> m = Thrown e \<or> (\<exists>x. m = Ok (Some x) \<and> f x = Thrown e)"
  by (cases m) (auto simp: and_then_def obind_def split: option.splits)

lemma check_signal_conf_Some:
  "check_signal_conf K parms atl03 cp = Ok (Some cnf) \<longleftrightarrow>
     rd (signal_conf_ph atl03) cp = Some cnf \<and>
     \<not> (cnf < CNF_POSSIBLE_TEP K \<or> cnf > CNF_SURFACE_HIGH K) \<and>
     rd (parms_atl03_cnf parms) (cnf + SIGNAL_CONF_OFFSET K) = Some True"
  by (auto simp: check_signal_conf_def obind_Ok rdo_Ok split: if_splits)

lemma check_quality_Some:
  "check_quality K parms atl03 cp = Ok (Some q) \<longleftrightarrow>
     rd (quality_ph atl03) cp = Some q \<and>
     \<not> (q < QUALITY_NOMINAL K \<or> q > QUALITY_POSSIBLE_TEP K) \<and>
     rd (parms_quality_ph parms) q = Some True"
  by (auto simp: check_quality_def obind_Ok rdo_Ok split: if_splits)

lemma check_atl08_class_Some:
  "check_atl08_class K parms atl08 cp = Ok (Some cls) \<longleftrightarrow>
     (case classification atl08 of
        None \<Rightarrow> cls = ATL08_UNCLASSIFIED K
      | Some classes \<Rightarrow>
          rd classes cp = Some cls \<and> \<not> (cls < 0 \<or> cls \<ge> NUM_ATL08_CLASSES K) \<and>
          rd (parms_atl08_class parms) cls = Some True)"
  by (auto simp: check_atl08_class_def obind_Ok rdo_Ok split: if_splits option.splits)

lemma check_yapc_Some:
  "check_yapc parms yapc_arr cp = Ok (Some s) \<longleftrightarrow>
     (case yapc_arr of
        None \<Rightarrow> s = 0
      | Some scores \<Rightarrow> rd scores cp = Some s \<and> score (yapc parms) \<le> s)"
proof (cases yapc_arr)
  case None
  then show ?thesis by (auto simp: check_yapc_def)
next
  case (Some scores)
  show ?thesis
  proof (cases "rd scores cp")
    case None
    then show ?thesis using Some by (simp add: check_yapc_def rdo_def obind_def)
  next
    case (Some v)
    then show ?thesis using \<open>yapc_arr = Some scores\<close>
      by (auto simp: check_yapc_def rdo_def obind_def)
  qed
qed

lemma check_region_Some:
  "check_region region cs = Ok (Some u) \<longleftrightarrow>
     (case inclusion_ptr region of
        None \<Rightarrow> True
      | Some inclusion \<Rightarrow> rd inclusion cs = Some True)"
  by (auto simp: check_region_def obind_Ok rdo_Ok split: if_splits option.splits)

lemma make_photon_fields:
  assumes "make_photon K atl03 state cp x cnf q cls yscore flds = Ok ph"
  shows "atl03_cnf ph = cnf" "ph_quality_ph ph = q" "atl08_class ph = uint8_t cls"
    "yapc_score ph = yscore"
  using assms by (auto simp: make_photon_def obind_Ok)

lemma photon_filter_passes:
  assumes "photon_filter K parms region atl03 atl08 yapc_arr state cp cs x = Ok (Some ph)"
  shows "passes_filters K parms region atl03 atl08 yapc_arr cp cs ph"
proof -
  from assms obtain cnf q cls yscore u flds where
    c: "check_signal_conf K parms atl03 cp = Ok (Some cnf)"
    and q: "check_quality K parms atl03 cp = Ok (Some q)"
    and a: "check_atl08_class K parms atl08 cp = Ok (Some cls)"
    and y: "check_yapc parms yapc_arr cp = Ok (Some yscore)"
    and r: "check_region region cs = Ok (Some u)"
    and m: "make_photon K atl03 state cp x cnf q cls yscore flds = Ok ph"
    unfolding photon_filter_def and_then_Some obind_Ok by auto
  note f = make_photon_fields [OF m]
  show ?thesis
    using c q a y r f
    unfolding check_signal_conf_Some check_quality_Some check_atl08_class_Some check_yapc_Some
      check_region_Some passes_filters_def
    by (auto split: option.splits)
qed

lemma index_photon_vars:
  assumes "index_photon atl08 v = Ok v'"
  shows "current_segment v' = current_segment v" "current_count v' = current_count v"
    "current_photon v' = current_photon v" "extent_complete v' = extent_complete v"
    "step_complete v' = step_complete v"
  using assms by (auto simp: index_photon_def Let_def obind_Ok split: option.splits)

lemma step_marker_shape:
  assumes "step_marker parms st v x ats = (st1, v1)"
  shows "st1 = st \<or> st1 = st\<lparr>ph_in := current_photon v, seg_in := current_segment v,
                                seg_ph := current_count v - 1\<rparr>"
    and "current_segment v1 = current_segment v" "current_count v1 = current_count v"
    and "current_photon v1 = current_photon v"
  using assms by (auto simp: step_marker_def split: if_splits)

lemma add_photon_shape:
  assumes "add_photon K parms region atl03 atl08 yapc_arr st v x ats = Ok (st', v')"
  shows "st' = st \<or>
         (\<exists>ph. photon_filter K parms region atl03 atl08 yapc_arr st (current_photon v)
                 (current_segment v) x = Ok (Some ph) \<and>
               st' = st\<lparr>extent_photons := extent_photons st @ [ph]\<rparr>)"
    and "current_segment v' = current_segment v" "current_count v' = current_count v"
    and "current_photon v' = current_photon v"
proof -
  show "st' = st \<or>
         (\<exists>ph. photon_filter K parms region atl03 atl08 yapc_arr st (current_photon v)
                 (current_segment v) x = Ok (Some ph) \<and>
               st' = st\<lparr>extent_photons := extent_photons st @ [ph]\<rparr>)"
    using assms by (auto simp: add_photon_def obind_Ok split: if_splits option.splits)
  show "current_segment v' = current_segment v" "current_count v' = current_count v"
    "current_photon v' = current_photon v"
    using assms
    by (auto simp: add_photon_def obind_Ok index_photon_vars split: if_splits option.splits)
qed

lemma extent_body_stop:
  assumes body: "extent_body K parms region atl03 atl08 yapc_arr st v = Ok (stop, st', v')"
    and nxt: "next_photon_segment region (current_segment v) (current_count v + 1) = (seg, cnt)"
    and ge: "seg \<ge> int (length (segment_dist_x atl03))"
  shows "stop" "st' = st\<lparr>track_complete := True\<rparr>"
    "v' = v\<lparr>current_segment := seg, current_count := cnt\<rparr>"
  using assms by (simp_all add: extent_body_def Let_def)

lemma extent_body_go:
  assumes body: "extent_body K parms region atl03 atl08 yapc_arr st v = Ok (stop, st', v')"
    and nxt: "next_photon_segment region (current_segment v) (current_count v + 1) = (seg, cnt)"
    and lt: "\<not> seg \<ge> int (length (segment_dist_x atl03))"
  shows "\<not> stop \<and>
         (\<exists>st1 v1 x ats.
            step_marker parms st (v\<lparr>current_segment := seg, current_count := cnt\<rparr>) x ats = (st1, v1) \<and>
            add_photon K parms region atl03 atl08 yapc_arr st1 v1 x ats = Ok (st', v'))"
proof -
  let ?v0 = "v\<lparr>current_segment := seg, current_count := cnt\<rparr>"
  from body nxt lt obtain dist_x along where
    rest: "(case step_marker parms st ?v0 (dist_x - start_distance st + along)
                   (seg - extent_segment st) of
              (state1, v1) \<Rightarrow>
                obind (add_photon K parms region atl03 atl08 yapc_arr state1 v1
                         (dist_x - start_distance st + along) (seg - extent_segment st))
                  (\<lambda>(state2, v2). Ok (False, state2, v2))) = Ok (stop, st', v')"
    by (simp add: extent_body_def Let_def obind_Ok) blast
  obtain st1 v1 where sm: "step_marker parms st ?v0 (dist_x - start_distance st + along)
                   (seg - extent_segment st) = (st1, v1)"
    by (cases "step_marker parms st ?v0 (dist_x - start_distance st + along)
                   (seg - extent_segment st)") auto
  from rest sm have "add_photon K parms region atl03 atl08 yapc_arr st1 v1
                         (dist_x - start_distance st + along) (seg - extent_segment st) = Ok (st', v')"
    and "\<not> stop"
    by (auto simp: obind_Ok)
  with sm show ?thesis by blast
qed

lemma extent_body_shape:
  assumes body: "extent_body K parms region atl03 atl08 yapc_arr st v = Ok (stop, st', v')"
    and nxt: "next_photon_segment region (current_segment v) (current_count v + 1) = (seg, cnt)"
  shows "current_segment v' = seg \<and> current_count v' = cnt \<and> current_photon v' = current_photon v"
    and "stop \<longleftrightarrow> seg \<ge> int (length (segment_dist_x atl03))"
    and "stop \<Longrightarrow> st' = st\<lparr>track_complete := True\<rparr>"
    and "\<not> stop \<Longrightarrow>
           \<exists>st1. (st1 = st \<or> st1 = st\<lparr>ph_in := current_photon v, seg_in := seg, seg_ph := cnt - 1\<rparr>) \<and>
                 (st' = st1 \<or>
                  (\<exists>ph x. photon_filter K parms region atl03 atl08 yapc_arr st1 (current_photon v) seg x
                             = Ok (Some ph) \<and>
                          st' = st1\<lparr>extent_photons := extent_photons st1 @ [ph]\<rparr>))"
proof -
  let ?v0 = "v\<lparr>current_segment := seg, current_count := cnt\<rparr>"
  note S = extent_body_stop [OF body nxt]
  note G = extent_body_go [OF body nxt]
  show iff: "stop \<longleftrightarrow> seg \<ge> int (length (segment_dist_x atl03))"
    using S(1) G by blast
  show "stop \<Longrightarrow> st' = st\<lparr>track_complete := True\<rparr>"
    using S(2) iff by blast
  show "current_segment v' = seg \<and> current_count v' = cnt \<and> current_photon v' = current_photon v"
  proof (cases "seg \<ge> int (length (segment_dist_x atl03))")
    case True
    then show ?thesis using S(3) by simp
  next
    case False
    from G [OF False] obtain st1 v1 x ats where
      sm: "step_marker parms st ?v0 x ats = (st1, v1)"
      and ap: "add_photon K parms region atl03 atl08 yapc_arr st1 v1 x ats = Ok (st', v')"
      by blast
    show ?thesis using step_marker_shape [OF sm] add_photon_shape [OF ap] by simp
  qed
  show "\<exists>st1. (st1 = st \<or> st1 = st\<lparr>ph_in := current_photon v, seg_in := seg, seg_ph := cnt - 1\<rparr>) \<and>
                 (st' = st1 \<or>
                  (\<exists>ph x. photon_filter K parms region atl03 atl08 yapc_arr st1 (current_photon v) seg x
                             = Ok (Some ph) \<and>
                          st' = st1\<lparr>extent_photons := extent_photons st1 @ [ph]\<rparr>))"
    if "\<not> stop"
  proof -
    from that iff have "\<not> seg \<ge> int (length (segment_dist_x atl03))" by simp
    from G [OF this] obtain st1 v1 x ats where
      sm: "step_marker parms st ?v0 x ats = (st1, v1)"
      and ap: "add_photon K parms region atl03 atl08 yapc_arr st1 v1 x ats = Ok (st', v')"
      by blast
    note m = step_marker_shape [OF sm]
    note a = add_photon_shape [OF ap]
    have "st1 = st \<or> st1 = st\<lparr>ph_in := current_photon v, seg_in := seg, seg_ph := cnt - 1\<rparr>"
      using m(1) by simp
    moreover have "st' = st1 \<or>
                  (\<exists>ph x. photon_filter K parms region atl03 atl08 yapc_arr st1 (current_photon v) seg x
                             = Ok (Some ph) \<and>
                          st' = st1\<lparr>extent_photons := extent_photons st1 @ [ph]\<rparr>)"
      using a(1) m(2,4) by auto
    ultimately show ?thesis by blast
  qed
qed

lemma extent_loop_invariant:
  assumes loop: "extent_loop K parms region atl03 atl08 yapc_arr st v = Ok (st', v')"
    and init: "P st v"
    and leave: "\<And>st v. P st v \<Longrightarrow> Q st v"
    and step: "\<And>st v stop st1 v1.
        P st v \<Longrightarrow> extent_body K parms region atl03 atl08 yapc_arr st v = Ok (stop, st1, v1) \<Longrightarrow>
        (stop \<longrightarrow> Q st1 v1) \<and>
        (\<not> stop \<longrightarrow> P st1 (v1\<lparr>current_photon := current_photon v + 1\<rparr>) \<and>
           Q (st1\<lparr>track_complete := True\<rparr>) (v1\<lparr>current_photon := current_photon v + 1\<rparr>))"
  shows "Q st' v'"
  using loop init leave step
proof (induction K parms region atl03 atl08 yapc_arr st v rule: extent_loop.induct)
  case (1 K parms region atl03 atl08 yapc_arr st v)
  show ?case
  proof (cases "\<not> extent_complete v \<or> \<not> step_complete v")
    case False
    then have "extent_loop K parms region atl03 atl08 yapc_arr st v = Ok (st, v)"
      by (subst extent_loop.simps) auto
    with "1.prems"(1) have "st' = st \<and> v' = v" by simp
    with "1.prems"(3) [OF "1.prems"(2)] show ?thesis by simp
  next
    case go: True
    from "1.prems"(1) go obtain stop st1 v1 where
      body: "extent_body K parms region atl03 atl08 yapc_arr st v = Ok (stop, st1, v1)"
      by (subst (asm) extent_loop.simps) (auto split: outcome.splits)
    note P1 = "1.prems"(4) [OF "1.prems"(2) body]
    show ?thesis
    proof (cases stop)
      case True
      then have "st' = st1 \<and> v' = v1"
        using "1.prems"(1) go body by (subst (asm) extent_loop.simps) simp
      with P1 True show ?thesis by simp
    next
      case ns: False
      show ?thesis
      proof (cases "current_photon v + 1 \<ge> int (length (dist_ph_along atl03))")
        case True
        then have "st' = st1\<lparr>track_complete := True\<rparr> \<and> v' = v1\<lparr>current_photon := current_photon v + 1\<rparr>"
          using "1.prems"(1) go body ns by (subst (asm) extent_loop.simps) simp
        with P1 ns show ?thesis by simp
      next
        case False
        then have rec: "extent_loop K parms region atl03 atl08 yapc_arr st1
                    (v1\<lparr>current_photon := current_photon v + 1\<rparr>) = Ok (st', v')"
          using "1.prems"(1) go body ns by (subst (asm) extent_loop.simps) simp
        from P1 ns have "P st1 (v1\<lparr>current_photon := current_photon v + 1\<rparr>)" by simp
        from "1.IH" [OF go body refl refl ns False rec this "1.prems"(3) "1.prems"(4)]
        show ?thesis .
      qed
    qed
  qed
qed

lemma start_distance_correction_fields:
  "extent_photons (start_distance_correction atl03 st) = extent_photons st \<and>
   bckgrd_in (start_distance_correction atl03 st) = bckgrd_in st \<and>
   extent_segment (start_distance_correction atl03 st) = extent_segment st \<and>
   seg_in (start_distance_correction atl03 st) = seg_in st \<and>
   ph_in (start_distance_correction atl03 st) = ph_in st \<and>
   seg_ph (start_distance_correction atl03 st) = seg_ph st \<and>
   track_complete (start_distance_correction atl03 st) = track_complete st"
proof (induction atl03 st rule: start_distance_correction.induct)
  case (1 atl03 st)
  show ?case
  proof (cases "start_segment st + 1 < int (length (segment_dist_x atl03)) \<and>
         start_distance st \<ge> segment_dist_x atl03 ! nat (start_segment st + 1)")
    case True
    from "1.IH" [OF True] True show ?thesis
      by (subst (1 2 3 4 5 6 7) start_distance_correction.simps) simp
  next
    case False
    then have "start_distance_correction atl03 st = st"
      by (subst start_distance_correction.simps) auto
    then show ?thesis by simp
  qed
qed

lemma finish_extent_fields:
  "extent_photons (finish_extent parms atl03 st) = extent_photons st"
  "bckgrd_in (finish_extent parms atl03 st) = bckgrd_in st"
  "extent_segment (finish_extent parms atl03 st) = extent_segment st"
  "seg_in (finish_extent parms atl03 st) = seg_in st"
  "ph_in (finish_extent parms atl03 st) = ph_in st"
  "seg_ph (finish_extent parms atl03 st) = seg_ph st"
  "track_complete (finish_extent parms atl03 st) = track_complete st"
  by (simp_all add: finish_extent_def Let_def start_distance_correction_fields)

lemma calculateBackground_loop_state:
  "calculateBackground_loop a b st = Some (r, st') \<Longrightarrow> \<exists>c. bckgrd_in st \<le> c \<and> st' = st\<lparr>bckgrd_in := c\<rparr>"
proof (induction a b st rule: calculateBackground_loop.induct)
  case (1 atl03 background_rate state)
  show ?case
  proof (cases "bckgrd_in state < int (length (bckgrd_rate atl03))")
    case False
    with "1.prems" have "st' = state"
      by (subst (asm) calculateBackground_loop.simps) simp
    then show ?thesis by (intro exI [of _ "bckgrd_in state"]) simp
  next
    case inb: True
    from "1.prems" inb obtain ct t where
      ct: "rd (bckgrd_delta_time atl03) (bckgrd_in state) = Some ct"
      and t: "rd (segment_delta_time atl03) (extent_segment state) = Some t"
      by (subst (asm) calculateBackground_loop.simps) (auto split: option.splits)
    show ?thesis
    proof (cases "ct \<ge> t")
      case True
      with "1.prems" inb ct t have "st' = state"
        by (subst (asm) calculateBackground_loop.simps)
           (auto simp: Let_def split: option.splits if_splits)
      then show ?thesis by (intro exI [of _ "bckgrd_in state"]) simp
    next
      case False
      with "1.prems" inb ct t have
        "calculateBackground_loop atl03 background_rate (state\<lparr>bckgrd_in := bckgrd_in state + 1\<rparr>)
           = Some (r, st')"
        by (subst (asm) calculateBackground_loop.simps) simp
      from "1.IH" [OF inb ct t False this] obtain c where
        "bckgrd_in state + 1 \<le> c" "st' = state\<lparr>bckgrd_in := c\<rparr>"
        by auto
      then show ?thesis by (intro exI [of _ c]) simp
    qed
  qed
qed

lemma generateExtentRecord_shape:
  assumes "generateExtentRecord parms info st atl03 = Some (e, st')"
  shows "\<exists>r. calculateBackground atl03 st = Some (r, st') \<and> background_rate e = r \<and>
             photons e = extent_photons st \<and>
             (\<exists>c. bckgrd_in st \<le> c \<and> st' = st\<lparr>bckgrd_in := c\<rparr>)"
proof -
  from assms obtain r where
    cb: "calculateBackground atl03 st = Some (r, st')" and br: "background_rate e = r"
    and ph: "photons e = extent_photons st'"
    by (auto simp: generateExtentRecord_def split: option.splits)
  from cb obtain b where "calculateBackground_loop atl03 b st = Some (r, st')"
    by (auto simp: calculateBackground_def split: option.splits)
  from calculateBackground_loop_state [OF this] obtain c where
    c: "bckgrd_in st \<le> c" "st' = st\<lparr>bckgrd_in := c\<rparr>" by blast
  with cb br ph show ?thesis by auto
qed

lemma extent_iteration_shape:
  assumes it: "extent_iteration K parms info region atl03 atl08 yapc_arr st = Ok (st', posted)"
  shows "\<exists>along st1 v1.
           rd (dist_ph_along atl03) (ph_in st) = Some along \<and>
           extent_loop K parms region atl03 atl08 yapc_arr
             (st\<lparr>start_seg_portion := along / ATL03_SEGMENT_LENGTH, extent_segment := seg_in st,
                 extent_valid := True, extent_photons := []\<rparr>)
             \<lparr>current_photon = ph_in st, current_segment = seg_in st, current_count = seg_ph st,
              extent_complete = False, step_complete = False,
              segment_indices = (if anc_geo_data atl03 then Some [] else None),
              photon_indices = (if anc_ph_data atl03 then Some [] else None),
              atl08_indices = (if anc_seg_data atl08 then Some [] else None)\<rparr> = Ok (st1, v1) \<and>
           ((posted = None \<and> st' = finish_extent parms atl03 st1) \<or>
            (\<exists>e. posted = Some e \<and>
                 generateExtentRecord parms info (finish_extent parms atl03 st1) atl03 = Some (e, st')))"
  using it
  by (auto simp: extent_iteration_def extent_start_def obind_Ok rdo_Ok Let_def
           split: if_splits option.splits)


lemma photons_before_Suc:
  assumes "0 \<le> cs" "cs < int (length (segment_ph_cnt region))"
  shows "photons_before region (cs + 1) = photons_before region cs + segment_ph_cnt region ! nat cs"
proof -
  from assms have "nat (cs + 1) = Suc (nat cs)" "nat cs < length (segment_ph_cnt region)"
    by auto
  then show ?thesis
    by (simp add: photons_before_def take_Suc_conv_app_nth)
qed

lemma next_photon_segment_cursor:
  assumes "next_photon_segment region cs c = (seg, c')"
    and "\<forall>n \<in> set (segment_ph_cnt region). 0 \<le> n"
    and "0 \<le> cs" "1 \<le> c" "cp + 1 = photons_before region cs + c"
    and "cs < int (length (segment_ph_cnt region)) \<longrightarrow> c \<le> segment_ph_cnt region ! nat cs + 1"
  shows "0 \<le> seg \<and> 1 \<le> c' \<and> cp + 1 = photons_before region seg + c' \<and>
         (seg < int (length (segment_ph_cnt region)) \<longrightarrow> c' \<le> segment_ph_cnt region ! nat seg)"
  using assms
proof (induction region cs c rule: next_photon_segment.induct)
  case (1 region cs c)
  show ?case
  proof (cases "cs < int (length (segment_ph_cnt region)) \<and> c > segment_ph_cnt region ! nat cs")
    case True
    with "1.prems"(1) have rec: "next_photon_segment region (cs + 1) 1 = (seg, c')"
      by (subst (asm) next_photon_segment.simps) simp
    from True "1.prems" have c: "c = segment_ph_cnt region ! nat cs + 1" by simp
    have before: "cp + 1 = photons_before region (cs + 1) + 1"
      using photons_before_Suc [of cs region] True "1.prems"(3,5) c by simp
    have "cs + 1 < int (length (segment_ph_cnt region)) \<longrightarrow>
            1 \<le> segment_ph_cnt region ! nat (cs + 1) + 1"
    proof
      assume "cs + 1 < int (length (segment_ph_cnt region))"
      with "1.prems"(3) have "nat (cs + 1) < length (segment_ph_cnt region)" by simp
      then have "segment_ph_cnt region ! nat (cs + 1) \<in> set (segment_ph_cnt region)"
        by (rule nth_mem)
      with "1.prems"(2) show "1 \<le> segment_ph_cnt region ! nat (cs + 1) + 1" by auto
    qed
    with "1.IH" [OF True rec "1.prems"(2) _ _ before] "1.prems"(3) show ?thesis by simp
  next
    case False
    with "1.prems"(1) have "seg = cs \<and> c' = c"
      by (subst (asm) next_photon_segment.simps) auto
    with False "1.prems" show ?thesis by auto
  qed
qed

lemma next_photon_segment_in_segment:
  assumes nxt: "next_photon_segment region cs (cnt + 1) = (seg, c')"
    and nonneg: "\<forall>n \<in> set (segment_ph_cnt region). 0 \<le> n"
    and inv: "cursor_inv region cp cs cnt"
  shows "in_segment region cp seg" "cursor_inv region (cp + 1) seg c'"
    "cursor_inv region cp seg (c' - 1)"
proof -
  from inv have h: "0 \<le> cs" "1 \<le> cnt + 1" "cp + 1 = photons_before region cs + (cnt + 1)"
    "cs < int (length (segment_ph_cnt region)) \<longrightarrow> cnt + 1 \<le> segment_ph_cnt region ! nat cs + 1"
    by (auto simp: cursor_inv_def)
  note r = next_photon_segment_cursor [OF nxt nonneg h]
  from r show "cursor_inv region (cp + 1) seg c'" "cursor_inv region cp seg (c' - 1)"
    by (auto simp: cursor_inv_def)
  show "in_segment region cp seg"
  proof (cases "seg < int (length (segment_ph_cnt region))")
    case True
    with r photons_before_Suc [of seg region] show ?thesis
      by (auto simp: in_segment_def)
  next
    case False
    with r show ?thesis by (auto simp: in_segment_def)
  qed
qed

lemma photon_filter_index:
  assumes "photon_filter K parms region atl03 atl08 yapc_arr state cp cs x = Ok (Some ph)"
  shows "cp \<in> {0 ..< int (length (signal_conf_ph atl03))}"
  using photon_filter_passes [OF assms]
  by (auto simp: passes_filters_def rd_def split: if_splits)

lemma all_pass_snoc:
  assumes "all_pass K parms region atl03 atl08 yapc_arr phs"
    and "photon_filter K parms region atl03 atl08 yapc_arr state cp cs x = Ok (Some ph)"
    and "in_segment region cp cs" "cs < int (length (segment_dist_x atl03))"
  shows "all_pass K parms region atl03 atl08 yapc_arr (phs @ [ph])"
proof -
  from assms(3) have "0 \<le> cs" by (simp add: in_segment_def)
  with assms(4) have cs: "cs \<in> {0 ..< int (length (segment_dist_x atl03))}" by simp
  have "\<exists>cp \<in> {0 ..< int (length (signal_conf_ph atl03))}.
        \<exists>cs \<in> {0 ..< int (length (segment_dist_x atl03))}.
          in_segment region cp cs \<and> passes_filters K parms region atl03 atl08 yapc_arr cp cs ph"
    using photon_filter_index [OF assms(2)] cs assms(3) photon_filter_passes [OF assms(2)]
    by blast
  with assms(1) show ?thesis
    unfolding all_pass_def by auto
qed

lemma extent_body_inv:
  assumes body: "extent_body K parms region atl03 atl08 yapc_arr st v = Ok (stop, st1, v1)"
    and nonneg: "\<forall>n \<in> set (segment_ph_cnt region). 0 \<le> n"
    and inv: "extent_inv K parms region atl03 atl08 yapc_arr st v" and tc: "\<not> track_complete st"
  shows "stop \<longrightarrow> extent_inv K parms region atl03 atl08 yapc_arr st1 v1"
    and "\<not> stop \<longrightarrow>
           (extent_inv K parms region atl03 atl08 yapc_arr st1
              (v1\<lparr>current_photon := current_photon v + 1\<rparr>) \<and> \<not> track_complete st1) \<and>
           extent_inv K parms region atl03 atl08 yapc_arr (st1\<lparr>track_complete := True\<rparr>)
             (v1\<lparr>current_photon := current_photon v + 1\<rparr>)"
proof -
  obtain seg cnt where
    nxt: "next_photon_segment region (current_segment v) (current_count v + 1) = (seg, cnt)"
    by (cases "next_photon_segment region (current_segment v) (current_count v + 1)") auto
  note sh = extent_body_shape [OF body nxt]
  from inv have pass: "all_pass K parms region atl03 atl08 yapc_arr (extent_photons st)"
    by (simp add: extent_inv_def)
  from inv tc have c: "cursor_inv region (current_photon v) (current_segment v) (current_count v)"
    and cst: "cursor_inv region (ph_in st) (seg_in st) (seg_ph st)"
    by (simp_all add: extent_inv_def)
  note n = next_photon_segment_in_segment [OF nxt nonneg c]
  show "stop \<longrightarrow> extent_inv K parms region atl03 atl08 yapc_arr st1 v1"
    using sh(3) pass by (auto simp: extent_inv_def)
  show "\<not> stop \<longrightarrow>
           (extent_inv K parms region atl03 atl08 yapc_arr st1
              (v1\<lparr>current_photon := current_photon v + 1\<rparr>) \<and> \<not> track_complete st1) \<and>
           extent_inv K parms region atl03 atl08 yapc_arr (st1\<lparr>track_complete := True\<rparr>)
             (v1\<lparr>current_photon := current_photon v + 1\<rparr>)"
  proof
    assume ns: "\<not> stop"
    from sh(4) [OF ns] obtain st0 where
      st0: "st0 = st \<or> st0 = st\<lparr>ph_in := current_photon v, seg_in := seg, seg_ph := cnt - 1\<rparr>"
      and st1: "st1 = st0 \<or>
                  (\<exists>ph x. photon_filter K parms region atl03 atl08 yapc_arr st0 (current_photon v) seg x
                             = Ok (Some ph) \<and>
                          st1 = st0\<lparr>extent_photons := extent_photons st0 @ [ph]\<rparr>)"
      by blast
    from ns sh(2) have seg: "seg < int (length (segment_dist_x atl03))" by simp
    have tc1: "track_complete st1 = track_complete st"
      using st0 st1 by auto
    have c0: "cursor_inv region (ph_in st0) (seg_in st0) (seg_ph st0)"
      using st0 cst n(3) by auto
    have c1: "cursor_inv region (ph_in st1) (seg_in st1) (seg_ph st1)"
      using st1 c0 by auto
    have p0: "all_pass K parms region atl03 atl08 yapc_arr (extent_photons st0)"
      using st0 pass by auto
    have p1: "all_pass K parms region atl03 atl08 yapc_arr (extent_photons st1)"
      using st1
    proof
      assume "st1 = st0"
      with p0 show ?thesis by simp
    next
      assume "\<exists>ph x. photon_filter K parms region atl03 atl08 yapc_arr st0 (current_photon v) seg x
                           = Ok (Some ph) \<and>
                        st1 = st0\<lparr>extent_photons := extent_photons st0 @ [ph]\<rparr>"
      then obtain ph x where
        f: "photon_filter K parms region atl03 atl08 yapc_arr st0 (current_photon v) seg x = Ok (Some ph)"
        and e: "st1 = st0\<lparr>extent_photons := extent_photons st0 @ [ph]\<rparr>"
        by blast
      from all_pass_snoc [OF p0 f n(1) seg] show ?thesis
        unfolding e by simp
    qed
    show "(extent_inv K parms region atl03 atl08 yapc_arr st1
              (v1\<lparr>current_photon := current_photon v + 1\<rparr>) \<and> \<not> track_complete st1) \<and>
           extent_inv K parms region atl03 atl08 yapc_arr (st1\<lparr>track_complete := True\<rparr>)
             (v1\<lparr>current_photon := current_photon v + 1\<rparr>)"
      using p1 c1 tc1 tc n(2) sh(1) by (simp add: extent_inv_def)
  qed
qed

lemma extent_loop_inv:
  assumes loop: "extent_loop K parms region atl03 atl08 yapc_arr st v = Ok (st', v')"
    and nonneg: "\<forall>n \<in> set (segment_ph_cnt region). 0 \<le> n"
    and inv: "extent_inv K parms region atl03 atl08 yapc_arr st v" and tc: "\<not> track_complete st"
  shows "extent_inv K parms region atl03 atl08 yapc_arr st' v'"
proof (rule extent_loop_invariant
    [where P = "\<lambda>st v. extent_inv K parms region atl03 atl08 yapc_arr st v \<and> \<not> track_complete st"
       and Q = "extent_inv K parms region atl03 atl08 yapc_arr", OF loop])
  show "extent_inv K parms region atl03 atl08 yapc_arr st v \<and> \<not> track_complete st"
    using inv tc by simp
next
  fix st v
  assume "extent_inv K parms region atl03 atl08 yapc_arr st v \<and> \<not> track_complete st"
  then show "extent_inv K parms region atl03 atl08 yapc_arr st v" by simp
next
  fix st v stop st1 v1
  assume P: "extent_inv K parms region atl03 atl08 yapc_arr st v \<and> \<not> track_complete st"
    and body: "extent_body K parms region atl03 atl08 yapc_arr st v = Ok (stop, st1, v1)"
  from P have i: "extent_inv K parms region atl03 atl08 yapc_arr st v" and t: "\<not> track_complete st"
    by simp_all
  from extent_body_inv [OF body nonneg i t]
  show "(stop \<longrightarrow> extent_inv K parms region atl03 atl08 yapc_arr st1 v1) \<and>
        (\<not> stop \<longrightarrow>
           (extent_inv K parms region atl03 atl08 yapc_arr st1
              (v1\<lparr>current_photon := current_photon v + 1\<rparr>) \<and> \<not> track_complete st1) \<and>
           extent_inv K parms region atl03 atl08 yapc_arr (st1\<lparr>track_complete := True\<rparr>)
             (v1\<lparr>current_photon := current_photon v + 1\<rparr>))"
    by simp
qed

text \<open>The state between two extents.\<close>

lemma extent_iteration_inv:
  assumes it: "extent_iteration K parms info region atl03 atl08 yapc_arr st = Ok (st', posted)"
    and nonneg: "\<forall>n \<in> set (segment_ph_cnt region). 0 \<le> n"
    and tc: "\<not> track_complete st"
    and cur: "cursor_inv region (ph_in st) (seg_in st) (seg_ph st)"
  shows "\<not> track_complete st' \<longrightarrow> cursor_inv region (ph_in st') (seg_in st') (seg_ph st')"
    and "\<forall>e. posted = Some e \<longrightarrow> all_pass K parms region atl03 atl08 yapc_arr (photons e)"
proof -
  from extent_iteration_shape [OF it] obtain along st1 v1 where
    loop: "extent_loop K parms region atl03 atl08 yapc_arr
             (st\<lparr>start_seg_portion := along / ATL03_SEGMENT_LENGTH, extent_segment := seg_in st,
                 extent_valid := True, extent_photons := []\<rparr>)
             \<lparr>current_photon = ph_in st, current_segment = seg_in st, current_count = seg_ph st,
              extent_complete = False, step_complete = False,
              segment_indices = (if anc_geo_data atl03 then Some [] else None),
              photon_indices = (if anc_ph_data atl03 then Some [] else None),
              atl08_indices = (if anc_seg_data atl08 then Some [] else None)\<rparr> = Ok (st1, v1)"
    and fin: "(posted = None \<and> st' = finish_extent parms atl03 st1) \<or>
            (\<exists>e. posted = Some e \<and>
                 generateExtentRecord parms info (finish_extent parms atl03 st1) atl03 = Some (e, st'))"
    by auto
  have inv1: "extent_inv K parms region atl03 atl08 yapc_arr st1 v1"
    by (rule extent_loop_inv [OF loop nonneg]) (use tc cur in \<open>simp_all add: extent_inv_def all_pass_def\<close>)
  let ?st2 = "finish_extent parms atl03 st1"
  have same: "st' = ?st2 \<or> (\<exists>c. st' = ?st2\<lparr>bckgrd_in := c\<rparr>)"
    using fin generateExtentRecord_shape by blast
  then have flds: "track_complete st' = track_complete st1" "ph_in st' = ph_in st1"
    "seg_in st' = seg_in st1" "seg_ph st' = seg_ph st1"
    by (auto simp: finish_extent_fields)
  with inv1 show "\<not> track_complete st' \<longrightarrow> cursor_inv region (ph_in st') (seg_in st') (seg_ph st')"
    by (simp add: extent_inv_def)
  show "\<forall>e. posted = Some e \<longrightarrow> all_pass K parms region atl03 atl08 yapc_arr (photons e)"
  proof (intro allI impI)
    fix e assume "posted = Some e"
    with fin have "generateExtentRecord parms info ?st2 atl03 = Some (e, st')" by auto
    from generateExtentRecord_shape [OF this] have "photons e = extent_photons st1"
      by (auto simp: finish_extent_fields)
    with inv1 show "all_pass K parms region atl03 atl08 yapc_arr (photons e)"
      by (simp add: extent_inv_def)
  qed
qed

lemma subsetting_loop_all_pass:
  assumes "e \<in> set (fst (subsetting_loop n K parms info region atl03 atl08 yapc_arr st))"
    and "\<forall>n \<in> set (segment_ph_cnt region). 0 \<le> n"
    and "\<not> track_complete st \<longrightarrow> cursor_inv region (ph_in st) (seg_in st) (seg_ph st)"
  shows "all_pass K parms region atl03 atl08 yapc_arr (photons e)"
  using assms
proof (induction n arbitrary: st)
  case 0
  then show ?case by simp
next
  case (Suc n)
  show ?case
  proof (cases "track_complete st")
    case True
    with Suc.prems show ?thesis by simp
  next
    case False
    with Suc.prems(3) have cur: "cursor_inv region (ph_in st) (seg_in st) (seg_ph st)" by simp
    show ?thesis
    proof (cases "extent_iteration K parms info region atl03 atl08 yapc_arr st")
      case (Ok r)
      obtain st' posted where r: "r = (st', posted)" by (cases r)
      note i = extent_iteration_inv [OF Ok [unfolded r] Suc.prems(2) False cur]
      from Suc.prems(1) False Ok r have
        "e \<in> set (fst (subsetting_loop n K parms info region atl03 atl08 yapc_arr st')) \<or> posted = Some e"
        by (auto split: prod.splits option.splits)
      then show ?thesis
      proof
        assume "e \<in> set (fst (subsetting_loop n K parms info region atl03 atl08 yapc_arr st'))"
        from Suc.IH [OF this Suc.prems(2) i(1)] show ?thesis .
      next
        assume "posted = Some e"
        with i(2) show ?thesis by simp
      qed
    next
      case (Thrown x)
      with Suc.prems False show ?thesis by simp
    next
      case Invalid_access
      with Suc.prems False show ?thesis by simp
    qed
  qed
qed

lemma TrackState_init_cursor:
  assumes "TrackState_init parms atl03 = Some st"
    and "\<forall>n \<in> set (segment_ph_cnt region). 0 \<le> n"
  shows "cursor_inv region (ph_in st) (seg_in st) (seg_ph st)"
proof -
  from assms(1) have "ph_in st = 0" "seg_in st = 0" "seg_ph st = 0"
    by (auto simp: TrackState_init_def split: option.splits)
  moreover have "0 < length (segment_ph_cnt region) \<longrightarrow> 0 \<le> segment_ph_cnt region ! 0"
    using assms(2) nth_mem by blast
  ultimately show ?thesis
    by (simp add: cursor_inv_def photons_before_def)
qed

lemmas run_simps =
  subsetting_extents_def TrackState_init_def rd_def extent_iteration_def extent_start_def rdo_def
  obind_def
  ATL03_SEGMENT_LENGTH_def extent_loop.simps extent_body_def next_photon_segment.simps
  step_marker_def within_extent_def add_photon_def photon_filter_def and_then_def
  check_signal_conf_def check_quality_def check_atl08_class_def check_yapc_def check_region_def
  phoreal_fields_def make_photon_def index_photon_def finish_extent_def
  start_distance_correction.simps generateExtentRecord_def calculateSegmentId_def
  calculateBackground_def calculateBackground_loop.simps Let_def c_int_def uint8_t_def

lemmas example_simps =
  example_constants_def example_parms_def example_info_def example_region_def example_atl03_def
  example_atl08_def example_run_atl03_def example_run_parms_def

lemma example_run:
  "map (\<lambda>e. (valid e, photon_count e, map (\<lambda>ph. (x_atc ph, atl03_cnf ph)) (photons e)))
     (fst (subsetting_extents 5 example_constants example_run_parms example_info (example_region [3])
             example_run_atl03 (example_atl08 []) None))
     = [(True, 2, [(- 9, 4), (- 1, 4)])]"
  "map (\<lambda>e. map atl03_cnf (photons e))
     (fst (subsetting_extents 5 example_constants example_run_parms example_info (example_region [3])
             example_run_atl03 (example_atl08 []) None))
     = [[4, 4]]"
  "snd (subsetting_extents 5 example_constants example_run_parms example_info (example_region [3])
             example_run_atl03 (example_atl08 []) None) = Completed"
  by (simp_all add: run_simps example_simps eval_nat_numeral)

text \<open>
  C2. Filter conservation. Provided the photon counts of the segments are not negative, every
  photon of every extent record that the subsetting loop posts is a photon of the datasets, at
  an index \<open>cp\<close> in a segment \<open>cs\<close>, that passes every filter there: its confidence is
  \<^verbatim>\<open>signal_conf_ph[cp]\<close> and \<^verbatim>\<open>parms->atl03_cnf[confidence + SIGNAL_CONF_OFFSET]\<close> is true, its
  quality is \<^verbatim>\<open>quality_ph[cp]\<close> and \<^verbatim>\<open>parms->quality_ph[quality]\<close> is true, when there is an
  ATL08 classification its class is the class of \<open>cp\<close> and \<^verbatim>\<open>parms->atl08_class[class]\<close> is true,
  when there are YAPC scores its score is the score of \<open>cp\<close> and reaches \<^verbatim>\<open>parms->yapc.score\<close>,
  and when there is an inclusion mask the bit of \<open>cs\<close>, the segment that holds the photon
  \<open>cp\<close> by the photon counts, is set.
\<close>

theorem subsetting_filter_conservation:
  assumes "e \<in> set (fst (subsetting_extents n K parms info region atl03 atl08 yapc_arr))"
    and "\<forall>c \<in> set (segment_ph_cnt region). 0 \<le> c"
    and "ph \<in> set (photons e)"
  shows "\<exists>cp \<in> {0 ..< int (length (signal_conf_ph atl03))}.
         \<exists>cs \<in> {0 ..< int (length (segment_dist_x atl03))}.
           in_segment region cp cs \<and> passes_filters K parms region atl03 atl08 yapc_arr cp cs ph"
proof -
  from assms(1) obtain st where
    init: "TrackState_init parms atl03 = Some st"
    and run: "e \<in> set (fst (subsetting_loop n K parms info region atl03 atl08 yapc_arr st))"
    by (auto simp: subsetting_extents_def split: option.splits)
  from TrackState_init_cursor [OF init assms(2)]
  have "all_pass K parms region atl03 atl08 yapc_arr (photons e)"
    by (intro subsetting_loop_all_pass [OF run assms(2)]) simp
  with assms(3) show ?thesis
    unfolding all_pass_def by blast
qed

theorem subsetting_filter_conservation_witness:
  "map atl03_cnf (photons (hd (fst (subsetting_extents 5 example_constants example_run_parms
      example_info (example_region [3]) example_run_atl03 (example_atl08 []) None)))) = [4, 4] \<and>
   (\<exists>cp \<in> {0 ..< int (length (signal_conf_ph example_run_atl03))}.
    \<exists>cs \<in> {0 ..< int (length (segment_dist_x example_run_atl03))}.
      in_segment (example_region [3]) cp cs \<and>
      passes_filters example_constants example_run_parms (example_region [3]) example_run_atl03
        (example_atl08 []) None cp cs
        (hd (photons (hd (fst (subsetting_extents 5 example_constants example_run_parms
           example_info (example_region [3]) example_run_atl03 (example_atl08 []) None))))))"
proof -
  let ?run = "fst (subsetting_extents 5 example_constants example_run_parms
      example_info (example_region [3]) example_run_atl03 (example_atl08 []) None)"
  from example_run(1) have ne: "?run \<noteq> []" by auto
  from example_run(2) ne have cnf: "map atl03_cnf (photons (hd ?run)) = [4, 4]"
    by (cases ?run) auto
  then have "photons (hd ?run) \<noteq> []" by auto
  then have ph: "hd (photons (hd ?run)) \<in> set (photons (hd ?run))" by simp
  have e: "hd ?run \<in> set ?run" using ne by simp
  have nonneg: "\<forall>c \<in> set (segment_ph_cnt (example_region [3])). 0 \<le> c"
    by (simp add: example_region_def)
  from subsetting_filter_conservation [OF e nonneg ph] cnf show ?thesis by blast
qed

subsection \<open>Fatal photons\<close>

lemma check_signal_conf_Thrown:
  "check_signal_conf K parms atl03 cp = Thrown e \<longleftrightarrow>
     e = RunTimeException CRITICAL RTE_ERROR \<and>
     (\<exists>cnf. rd (signal_conf_ph atl03) cp = Some cnf \<and>
            (cnf < CNF_POSSIBLE_TEP K \<or> cnf > CNF_SURFACE_HIGH K))"
  by (auto simp: check_signal_conf_def obind_Thrown rdo_Ok split: if_splits)

lemma check_quality_Thrown:
  "check_quality K parms atl03 cp = Thrown e \<longleftrightarrow>
     e = RunTimeException CRITICAL RTE_ERROR \<and>
     (\<exists>q. rd (quality_ph atl03) cp = Some q \<and>
          (q < QUALITY_NOMINAL K \<or> q > QUALITY_POSSIBLE_TEP K))"
  by (auto simp: check_quality_def obind_Thrown rdo_Ok split: if_splits)

lemma check_atl08_class_Thrown:
  "check_atl08_class K parms atl08 cp = Thrown e \<longleftrightarrow>
     e = RunTimeException CRITICAL RTE_ERROR \<and>
     (\<exists>classes cls. classification atl08 = Some classes \<and> rd classes cp = Some cls \<and>
                    (cls < 0 \<or> cls \<ge> NUM_ATL08_CLASSES K))"
  by (auto simp: check_atl08_class_def obind_Thrown rdo_Ok split: if_splits option.splits)

lemma check_yapc_not_Thrown: "check_yapc parms yapc_arr cp \<noteq> Thrown e"
  by (auto simp: check_yapc_def obind_Thrown split: option.splits if_splits)

lemma check_region_not_Thrown: "check_region region cs \<noteq> Thrown e"
  by (auto simp: check_region_def obind_Thrown split: option.splits if_splits)

lemma phoreal_fields_not_Thrown: "phoreal_fields K parms atl03 atl08 cp \<noteq> Thrown e"
  by (auto simp: phoreal_fields_def obind_Thrown split: option.splits if_splits)

lemma make_photon_not_Thrown: "make_photon K atl03 state cp x cnf q cls yscore flds \<noteq> Thrown e"
  by (auto simp: make_photon_def obind_Thrown)

lemma index_photon_not_Thrown: "index_photon atl08 v \<noteq> Thrown e"
  by (auto simp: index_photon_def Let_def obind_Thrown split: option.splits)

lemma photon_filter_Thrown:
  "photon_filter K parms region atl03 atl08 yapc_arr state cp cs x = Thrown e \<longleftrightarrow>
     e = RunTimeException CRITICAL RTE_ERROR \<and> fatal_photon K parms atl03 atl08 cp"
proof -
  have "photon_filter K parms region atl03 atl08 yapc_arr state cp cs x = Thrown e \<longleftrightarrow>
      check_signal_conf K parms atl03 cp = Thrown e \<or>
      (\<exists>cnf. check_signal_conf K parms atl03 cp = Ok (Some cnf) \<and>
         (check_quality K parms atl03 cp = Thrown e \<or>
          (\<exists>q. check_quality K parms atl03 cp = Ok (Some q) \<and>
             check_atl08_class K parms atl08 cp = Thrown e)))"
    by (auto simp: photon_filter_def and_then_Thrown obind_Thrown check_yapc_not_Thrown
          check_region_not_Thrown phoreal_fields_not_Thrown make_photon_not_Thrown)
  also have "\<dots> \<longleftrightarrow> e = RunTimeException CRITICAL RTE_ERROR \<and> fatal_photon K parms atl03 atl08 cp"
    unfolding check_signal_conf_Thrown check_quality_Thrown check_atl08_class_Thrown
      check_signal_conf_Some check_quality_Some fatal_photon_def
    by (auto split: option.splits)
  finally show ?thesis .
qed

lemma add_photon_Thrown:
  "add_photon K parms region atl03 atl08 yapc_arr st v x ats = Thrown e \<longleftrightarrow>
     within_extent parms x ats \<and> e = RunTimeException CRITICAL RTE_ERROR \<and>
     fatal_photon K parms atl03 atl08 (current_photon v)"
proof (cases "within_extent parms x ats")
  case False
  then show ?thesis by (simp add: add_photon_def)
next
  case True
  have "add_photon K parms region atl03 atl08 yapc_arr st v x ats = Thrown e \<longleftrightarrow>
        photon_filter K parms region atl03 atl08 yapc_arr st (current_photon v) (current_segment v) x
          = Thrown e"
    using True
    by (auto simp: add_photon_def obind_Thrown index_photon_not_Thrown split: option.splits)
  with True show ?thesis by (simp add: photon_filter_Thrown)
qed

lemma step_marker_photon:
  "current_photon (snd (step_marker parms st v x ats)) = current_photon v"
  by (simp add: step_marker_def)

lemma extent_body_Thrown:
  "extent_body K parms region atl03 atl08 yapc_arr st v = Thrown e \<longleftrightarrow>
     e = RunTimeException CRITICAL RTE_ERROR \<and> filter_reached parms region atl03 st v \<and>
     fatal_photon K parms atl03 atl08 (current_photon v)"
proof -
  obtain seg cnt where
    nxt: "next_photon_segment region (current_segment v) (current_count v + 1) = (seg, cnt)"
    by (cases "next_photon_segment region (current_segment v) (current_count v + 1)") auto
  show ?thesis
  proof (cases "seg \<ge> int (length (segment_dist_x atl03))")
    case True
    with nxt show ?thesis by (simp add: extent_body_def filter_reached_def Let_def)
  next
    case lt: False
    show ?thesis
    proof (cases "rd (segment_dist_x atl03) seg")
      case None
      with nxt lt show ?thesis
        by (simp add: extent_body_def filter_reached_def Let_def rdo_def obind_def)
    next
      case dx: (Some dist_x)
      show ?thesis
      proof (cases "rd (dist_ph_along atl03) (current_photon v)")
        case None
        with nxt lt dx show ?thesis
          by (simp add: extent_body_def filter_reached_def Let_def rdo_def obind_def)
      next
        case al: (Some along)
        let ?x = "dist_x - start_distance st + along"
        let ?ats = "seg - extent_segment st"
        let ?v0 = "v\<lparr>current_segment := seg, current_count := cnt\<rparr>"
        obtain st1 v1 where sm: "step_marker parms st ?v0 ?x ?ats = (st1, v1)"
          by (cases "step_marker parms st ?v0 ?x ?ats") auto
        from step_marker_photon [of parms st ?v0 ?x ?ats] sm
        have cp: "current_photon v1 = current_photon v" by simp
        have body: "extent_body K parms region atl03 atl08 yapc_arr st v =
            obind (add_photon K parms region atl03 atl08 yapc_arr st1 v1 ?x ?ats)
              (\<lambda>(state2, v2). Ok (False, state2, v2))"
          using nxt lt dx al sm by (simp add: extent_body_def Let_def rdo_def obind_def)
        have "extent_body K parms region atl03 atl08 yapc_arr st v = Thrown e \<longleftrightarrow>
              add_photon K parms region atl03 atl08 yapc_arr st1 v1 ?x ?ats = Thrown e"
          unfolding body by (auto simp: obind_Thrown)
        also have "\<dots> \<longleftrightarrow> within_extent parms ?x ?ats \<and> e = RunTimeException CRITICAL RTE_ERROR \<and>
                       fatal_photon K parms atl03 atl08 (current_photon v)"
          by (simp add: add_photon_Thrown cp)
        also have "within_extent parms ?x ?ats \<longleftrightarrow> filter_reached parms region atl03 st v"
          using nxt lt dx al by (simp add: filter_reached_def)
        finally show ?thesis by blast
      qed
    qed
  qed
qed

lemma extent_loop_at_ended:
  assumes "\<not> (\<not> extent_complete v \<or> \<not> step_complete v)"
  shows "extent_loop_at k K parms region atl03 atl08 yapc_arr st v = None"
  using assms by (cases k) simp_all

lemma extent_loop_Thrown:
  "extent_loop K parms region atl03 atl08 yapc_arr st v = Thrown e \<longleftrightarrow>
     (\<exists>k st' v'. extent_loop_at k K parms region atl03 atl08 yapc_arr st v = Some (st', v') \<and>
                 extent_body K parms region atl03 atl08 yapc_arr st' v' = Thrown e)"
proof (induction K parms region atl03 atl08 yapc_arr st v rule: extent_loop.induct)
  case (1 K parms region atl03 atl08 yapc_arr st v)
  let ?R = "\<lambda>st v. \<exists>k st' v'. extent_loop_at k K parms region atl03 atl08 yapc_arr st v = Some (st', v') \<and>
                 extent_body K parms region atl03 atl08 yapc_arr st' v' = Thrown e"
  show ?case
  proof (cases "\<not> extent_complete v \<or> \<not> step_complete v")
    case False
    then have "extent_loop K parms region atl03 atl08 yapc_arr st v = Ok (st, v)"
      by (subst extent_loop.simps) auto
    moreover have "\<not> ?R st v"
      using extent_loop_at_ended [OF False] by simp
    ultimately show ?thesis by simp
  next
    case go: True
    have split_k: "?R st v \<longleftrightarrow>
        extent_body K parms region atl03 atl08 yapc_arr st v = Thrown e \<or>
        (\<exists>k st' v'. extent_loop_at (Suc k) K parms region atl03 atl08 yapc_arr st v = Some (st', v') \<and>
                 extent_body K parms region atl03 atl08 yapc_arr st' v' = Thrown e)"
      (is "_ \<longleftrightarrow> ?A \<or> ?B")
    proof
      assume "?R st v"
      then obtain k st' v' where
        at: "extent_loop_at k K parms region atl03 atl08 yapc_arr st v = Some (st', v')"
        and th: "extent_body K parms region atl03 atl08 yapc_arr st' v' = Thrown e"
        by blast
      show "?A \<or> ?B"
      proof (cases k)
        case 0
        with at go have "st' = st" "v' = v" by auto
        with th show ?thesis by simp
      next
        case (Suc m)
        with at th show ?thesis by blast
      qed
    next
      assume "?A \<or> ?B"
      then show "?R st v"
      proof
        assume ?A
        moreover have "extent_loop_at 0 K parms region atl03 atl08 yapc_arr st v = Some (st, v)"
          using go by auto
        ultimately show ?thesis by blast
      next
        assume ?B
        then show ?thesis by blast
      qed
    qed
    show ?thesis
    proof (cases "extent_body K parms region atl03 atl08 yapc_arr st v")
      case (Thrown x)
      then have "extent_loop K parms region atl03 atl08 yapc_arr st v = Thrown x"
        using go by (subst extent_loop.simps) auto
      moreover have "\<not> ?B" using Thrown go by auto
      ultimately show ?thesis using Thrown split_k by auto
    next
      case Invalid_access
      then have "extent_loop K parms region atl03 atl08 yapc_arr st v = Invalid_access"
        using go by (subst extent_loop.simps) auto
      moreover have "\<not> ?B" using Invalid_access go by auto
      ultimately show ?thesis using Invalid_access split_k by auto
    next
      case (Ok r)
      obtain stop st1 v1 where r: "r = (stop, st1, v1)" by (cases r)
      note body = Ok [unfolded r]
      show ?thesis
      proof (cases "stop \<or> current_photon v + 1 \<ge> int (length (dist_ph_along atl03))")
        case True
        then have "\<exists>y. extent_loop K parms region atl03 atl08 yapc_arr st v = Ok y"
          using go body by (subst extent_loop.simps) auto
        moreover have "\<not> ?B" using body go True by auto
        ultimately show ?thesis using body split_k by auto
      next
        case False
        then have ns: "\<not> stop" and le: "\<not> current_photon v + 1 \<ge> int (length (dist_ph_along atl03))"
          by auto
        let ?v1 = "v1\<lparr>current_photon := current_photon v + 1\<rparr>"
        have loop: "extent_loop K parms region atl03 atl08 yapc_arr st v =
                    extent_loop K parms region atl03 atl08 yapc_arr st1 ?v1"
          using go body ns le by (subst extent_loop.simps) auto
        have at: "\<And>k. extent_loop_at (Suc k) K parms region atl03 atl08 yapc_arr st v =
                       extent_loop_at k K parms region atl03 atl08 yapc_arr st1 ?v1"
          using go body ns le by auto
        have "?B \<longleftrightarrow> ?R st1 ?v1" unfolding at ..
        with "1.IH" [OF go body refl refl ns le] loop split_k body show ?thesis by auto
      qed
    qed
  qed
qed

lemma extent_iteration_Thrown:
  "extent_iteration K parms info region atl03 atl08 yapc_arr st = Thrown e \<longleftrightarrow>
     (\<exists>along st0 v0 k st' v'.
        rd (dist_ph_along atl03) (ph_in st) = Some along \<and>
        extent_start atl03 atl08 st along = (st0, v0) \<and>
        extent_loop_at k K parms region atl03 atl08 yapc_arr st0 v0 = Some (st', v') \<and>
        extent_body K parms region atl03 atl08 yapc_arr st' v' = Thrown e)"
proof (cases "rd (dist_ph_along atl03) (ph_in st)")
  case None
  then show ?thesis by (simp add: extent_iteration_def rdo_def obind_def)
next
  case (Some along)
  obtain st0 v0 where start: "extent_start atl03 atl08 st along = (st0, v0)"
    by (cases "extent_start atl03 atl08 st along")
  have "extent_iteration K parms info region atl03 atl08 yapc_arr st = Thrown e \<longleftrightarrow>
        extent_loop K parms region atl03 atl08 yapc_arr st0 v0 = Thrown e"
    using Some start
    by (auto simp: extent_iteration_def rdo_def obind_Thrown Let_def
             split: option.splits if_splits)
  with Some start show ?thesis by (simp add: extent_loop_Thrown)
qed

lemma subsetting_loop_Failed:
  "snd (subsetting_loop N K parms info region atl03 atl08 yapc_arr st) = Failed e \<longleftrightarrow>
     (\<exists>n<N. \<exists>st'. subsetting_state_from n K parms info region atl03 atl08 yapc_arr st = Some st' \<and>
        \<not> track_complete st' \<and>
        extent_iteration K parms info region atl03 atl08 yapc_arr st' = Thrown e)"
proof (induction N arbitrary: st)
  case 0
  then show ?case by simp
next
  case (Suc N)
  let ?R = "\<lambda>N st. \<exists>n<N. \<exists>st'. subsetting_state_from n K parms info region atl03 atl08 yapc_arr st = Some st' \<and>
        \<not> track_complete st' \<and>
        extent_iteration K parms info region atl03 atl08 yapc_arr st' = Thrown e"
  have split_n: "?R (Suc N) st \<longleftrightarrow>
      (\<not> track_complete st \<and> extent_iteration K parms info region atl03 atl08 yapc_arr st = Thrown e) \<or>
      (\<exists>n<N. \<exists>st'. subsetting_state_from (Suc n) K parms info region atl03 atl08 yapc_arr st = Some st' \<and>
        \<not> track_complete st' \<and>
        extent_iteration K parms info region atl03 atl08 yapc_arr st' = Thrown e)"
    (is "_ \<longleftrightarrow> ?A \<or> ?B")
  proof
    assume "?R (Suc N) st"
    then obtain n st' where n: "n < Suc N"
      and s: "subsetting_state_from n K parms info region atl03 atl08 yapc_arr st = Some st'"
      and t: "\<not> track_complete st'"
        "extent_iteration K parms info region atl03 atl08 yapc_arr st' = Thrown e"
      by blast
    show "?A \<or> ?B"
    proof (cases n)
      case 0
      with s t show ?thesis by simp
    next
      case (Suc m)
      with n s t show ?thesis by auto
    qed
  next
    assume "?A \<or> ?B"
    then show "?R (Suc N) st"
    proof
      assume ?A
      then show ?thesis by (intro exI [of _ 0]) simp
    next
      assume ?B
      then obtain n st' where "n < N"
        "subsetting_state_from (Suc n) K parms info region atl03 atl08 yapc_arr st = Some st'"
        "\<not> track_complete st'"
        "extent_iteration K parms info region atl03 atl08 yapc_arr st' = Thrown e"
        by blast
      then show ?thesis by (intro exI [of _ "Suc n"]) auto
    qed
  qed
  show ?case
  proof (cases "track_complete st")
    case True
    then show ?thesis unfolding split_n by simp
  next
    case tc: False
    show ?thesis
    proof (cases "extent_iteration K parms info region atl03 atl08 yapc_arr st")
      case (Thrown x)
      with tc show ?thesis unfolding split_n by auto
    next
      case Invalid_access
      with tc show ?thesis unfolding split_n by auto
    next
      case (Ok r)
      obtain st1 posted where r: "r = (st1, posted)" by (cases r)
      have "snd (subsetting_loop (Suc N) K parms info region atl03 atl08 yapc_arr st) =
            snd (subsetting_loop N K parms info region atl03 atl08 yapc_arr st1)"
        using tc Ok r by (simp split: prod.splits)
      moreover have "?B \<longleftrightarrow> ?R N st1"
        using tc Ok r by simp
      ultimately show ?thesis
        unfolding split_n using Suc.IH [of st1] Ok by simp
    qed
  qed
qed

lemmas examined_simps =
  examined_def subsetting_state_def filter_reached_def fatal_photon_def
  example_unchecked_atl03_def example_fatal_atl03_def

text \<open>
  C9 on the code. The second photon of the beam has the quality 9, above
  \<^verbatim>\<open>QUALITY_POSSIBLE_TEP\<close>. The state machine examines it within the length of the first
  extent; its confidence 0 is in range and is not accepted by \<^verbatim>\<open>parms->atl03_cnf\<close>, so that
  the \<^verbatim>\<open>break\<close> of line 1297 leaves the block before the quality is read. No error is raised
  and the beam completes.
\<close>

theorem out_of_range_quality_unchecked:
  "rd (quality_ph example_unchecked_atl03) 1 = Some 9 \<and>
   QUALITY_POSSIBLE_TEP example_constants = 3 \<and>
   map_option (current_photon \<circ> snd)
     (examined 0 1 example_constants example_run_parms example_info (example_region [3])
        example_unchecked_atl03 (example_atl08 []) None) = Some 1 \<and>
   filter_reached example_run_parms (example_region [3]) example_unchecked_atl03
     (fst (the (examined 0 1 example_constants example_run_parms example_info (example_region [3])
        example_unchecked_atl03 (example_atl08 []) None)))
     (snd (the (examined 0 1 example_constants example_run_parms example_info (example_region [3])
        example_unchecked_atl03 (example_atl08 []) None))) \<and>
   snd (subsetting_extents 5 example_constants example_run_parms example_info (example_region [3])
          example_unchecked_atl03 (example_atl08 []) None) = Completed"
  by (simp add: run_simps example_simps examined_simps eval_nat_numeral)

text \<open>
  C9, amended. The beam ends with an exception exactly when the state machine examines, within
  the length of an extent, a photon whose values are fatal: a signal confidence out of range;
  or a confidence that \<^verbatim>\<open>parms->atl03_cnf\<close> accepts and a quality out of range; or a
  confidence and a quality that are accepted and, when there is a classification, a class out
  of range. The exception is \<^verbatim>\<open>RunTimeException(CRITICAL, RTE_ERROR)\<close>.
\<close>

theorem out_of_range_fatal:
  "snd (subsetting_extents N K parms info region atl03 atl08 yapc_arr) = Failed e \<longleftrightarrow>
     e = RunTimeException CRITICAL RTE_ERROR \<and>
     (\<exists>n<N. \<exists>k st v.
        examined n k K parms info region atl03 atl08 yapc_arr = Some (st, v) \<and>
        filter_reached parms region atl03 st v \<and>
        fatal_photon K parms atl03 atl08 (current_photon v))"
proof (cases "TrackState_init parms atl03")
  case None
  then show ?thesis
    by (simp add: subsetting_extents_def examined_def subsetting_state_def)
next
  case (Some st0)
  have ex: "\<And>n k r. examined n k K parms info region atl03 atl08 yapc_arr = Some r \<longleftrightarrow>
      (\<exists>st' along st1 v1.
         subsetting_state_from n K parms info region atl03 atl08 yapc_arr st0 = Some st' \<and>
         \<not> track_complete st' \<and> rd (dist_ph_along atl03) (ph_in st') = Some along \<and>
         extent_start atl03 atl08 st' along = (st1, v1) \<and>
         extent_loop_at k K parms region atl03 atl08 yapc_arr st1 v1 = Some r)"
    using Some
    by (auto simp: examined_def subsetting_state_def split: option.splits prod.splits)
  have "snd (subsetting_extents N K parms info region atl03 atl08 yapc_arr) = Failed e \<longleftrightarrow>
      (\<exists>n<N. \<exists>st'. subsetting_state_from n K parms info region atl03 atl08 yapc_arr st0 = Some st' \<and>
        \<not> track_complete st' \<and>
        extent_iteration K parms info region atl03 atl08 yapc_arr st' = Thrown e)"
    using Some by (simp add: subsetting_extents_def subsetting_loop_Failed)
  also have "\<dots> \<longleftrightarrow>
      (\<exists>n<N. \<exists>k st v. examined n k K parms info region atl03 atl08 yapc_arr = Some (st, v) \<and>
         extent_body K parms region atl03 atl08 yapc_arr st v = Thrown e)"
    unfolding ex extent_iteration_Thrown by blast
  also have "\<dots> \<longleftrightarrow> e = RunTimeException CRITICAL RTE_ERROR \<and>
     (\<exists>n<N. \<exists>k st v.
        examined n k K parms info region atl03 atl08 yapc_arr = Some (st, v) \<and>
        filter_reached parms region atl03 st v \<and>
        fatal_photon K parms atl03 atl08 (current_photon v))"
    unfolding extent_body_Thrown by blast
  finally show ?thesis .
qed

theorem out_of_range_fatal_witness:
  "rd (quality_ph example_fatal_atl03) 1 = Some 9 \<and>
   QUALITY_POSSIBLE_TEP example_constants = 3 \<and>
   snd (subsetting_extents 5 example_constants example_parms example_info (example_region [3])
          example_fatal_atl03 (example_atl08 []) None)
     = Failed (RunTimeException CRITICAL RTE_ERROR)"
proof -
  let ?ex = "examined 0 1 example_constants example_parms example_info (example_region [3])
        example_fatal_atl03 (example_atl08 []) None"
  have "?ex \<noteq> None \<and>
        filter_reached example_parms (example_region [3]) example_fatal_atl03
          (fst (the ?ex)) (snd (the ?ex)) \<and>
        fatal_photon example_constants example_parms example_fatal_atl03 (example_atl08 [])
          (current_photon (snd (the ?ex)))"
    by (simp add: run_simps example_simps examined_simps eval_nat_numeral)
  then obtain st v where "?ex = Some (st, v)"
    "filter_reached example_parms (example_region [3]) example_fatal_atl03 st v"
    "fatal_photon example_constants example_parms example_fatal_atl03 (example_atl08 [])
       (current_photon v)"
    by (cases ?ex) auto
  moreover have "(0::nat) < 5" by simp
  ultimately have "\<exists>n<5. \<exists>k st v. examined n k example_constants example_parms example_info
        (example_region [3]) example_fatal_atl03 (example_atl08 []) None = Some (st, v) \<and>
        filter_reached example_parms (example_region [3]) example_fatal_atl03 st v \<and>
        fatal_photon example_constants example_parms example_fatal_atl03 (example_atl08 [])
          (current_photon v)"
    by blast
  with out_of_range_fatal [of 5 example_constants example_parms example_info "example_region [3]"
      example_fatal_atl03 "example_atl08 []" None "RunTimeException CRITICAL RTE_ERROR"]
  have "snd (subsetting_extents 5 example_constants example_parms example_info (example_region [3])
          example_fatal_atl03 (example_atl08 []) None)
     = Failed (RunTimeException CRITICAL RTE_ERROR)"
    by simp
  moreover have "rd (quality_ph example_fatal_atl03) 1 = Some 9 \<and>
   QUALITY_POSSIBLE_TEP example_constants = 3"
    by (simp add: example_simps examined_simps rd_def)
  ultimately show ?thesis by simp
qed

subsection \<open>Background rate of an extent\<close>

lemma next_photon_segment_mono:
  "next_photon_segment region cs c = (seg, c') \<Longrightarrow> cs \<le> seg"
proof (induction region cs c rule: next_photon_segment.induct)
  case (1 region cs c)
  show ?case
  proof (cases "cs < int (length (segment_ph_cnt region)) \<and> c > segment_ph_cnt region ! nat cs")
    case True
    with "1.prems" have "next_photon_segment region (cs + 1) 1 = (seg, c')"
      by (subst (asm) next_photon_segment.simps) simp
    from "1.IH" [OF True this] show ?thesis by simp
  next
    case False
    with "1.prems" show ?thesis
      by (subst (asm) next_photon_segment.simps) auto
  qed
qed

lemma extent_body_segments:
  assumes body: "extent_body K parms region atl03 atl08 yapc_arr st v = Ok (stop, st1, v1)"
    and inv: "extent_segment st = es \<and> bckgrd_in st = b \<and> es \<le> seg_in st \<and>
              seg_in st < int (length (segment_dist_x atl03)) \<and> es \<le> current_segment v"
  shows "extent_segment st1 = es \<and> bckgrd_in st1 = b \<and> es \<le> seg_in st1 \<and>
         seg_in st1 < int (length (segment_dist_x atl03)) \<and> es \<le> current_segment v1"
proof -
  obtain seg cnt where
    nxt: "next_photon_segment region (current_segment v) (current_count v + 1) = (seg, cnt)"
    by (cases "next_photon_segment region (current_segment v) (current_count v + 1)") auto
  note sh = extent_body_shape [OF body nxt]
  from next_photon_segment_mono [OF nxt] inv have seg: "es \<le> seg" by simp
  show ?thesis
  proof (cases stop)
    case True
    with sh(1,3) inv seg show ?thesis by simp
  next
    case False
    with sh(2) have lt: "seg < int (length (segment_dist_x atl03))" by simp
    from sh(4) [OF False] obtain st0 where
      st0: "st0 = st \<or> st0 = st\<lparr>ph_in := current_photon v, seg_in := seg, seg_ph := cnt - 1\<rparr>"
      and st1: "st1 = st0 \<or> (\<exists>ph. st1 = st0\<lparr>extent_photons := extent_photons st0 @ [ph]\<rparr>)"
      by blast
    have "extent_segment st0 = es \<and> bckgrd_in st0 = b \<and> es \<le> seg_in st0 \<and>
          seg_in st0 < int (length (segment_dist_x atl03))"
      using st0 inv seg lt by auto
    with st1 sh(1) seg show ?thesis by auto
  qed
qed

lemma extent_loop_segments:
  assumes loop: "extent_loop K parms region atl03 atl08 yapc_arr st v = Ok (st', v')"
    and inv: "extent_segment st = es \<and> bckgrd_in st = b \<and> es \<le> seg_in st \<and>
              seg_in st < int (length (segment_dist_x atl03)) \<and> es \<le> current_segment v"
  shows "extent_segment st' = es \<and> bckgrd_in st' = b \<and> es \<le> seg_in st' \<and>
         seg_in st' < int (length (segment_dist_x atl03)) \<and> es \<le> current_segment v'"
proof (rule extent_loop_invariant
    [where P = "\<lambda>st v. extent_segment st = es \<and> bckgrd_in st = b \<and> es \<le> seg_in st \<and>
                   seg_in st < int (length (segment_dist_x atl03)) \<and> es \<le> current_segment v"
       and Q = "\<lambda>st v. extent_segment st = es \<and> bckgrd_in st = b \<and> es \<le> seg_in st \<and>
                   seg_in st < int (length (segment_dist_x atl03)) \<and> es \<le> current_segment v",
     OF loop inv])
  fix st v stop st1 v1
  assume P: "extent_segment st = es \<and> bckgrd_in st = b \<and> es \<le> seg_in st \<and>
             seg_in st < int (length (segment_dist_x atl03)) \<and> es \<le> current_segment v"
    and body: "extent_body K parms region atl03 atl08 yapc_arr st v = Ok (stop, st1, v1)"
  from extent_body_segments [OF body P]
  show "(stop \<longrightarrow> extent_segment st1 = es \<and> bckgrd_in st1 = b \<and> es \<le> seg_in st1 \<and>
                  seg_in st1 < int (length (segment_dist_x atl03)) \<and> es \<le> current_segment v1) \<and>
        (\<not> stop \<longrightarrow>
           (extent_segment st1 = es \<and> bckgrd_in st1 = b \<and> es \<le> seg_in st1 \<and>
            seg_in st1 < int (length (segment_dist_x atl03)) \<and>
            es \<le> current_segment (v1\<lparr>current_photon := current_photon v + 1\<rparr>)) \<and>
           (extent_segment (st1\<lparr>track_complete := True\<rparr>) = es \<and>
            bckgrd_in (st1\<lparr>track_complete := True\<rparr>) = b \<and>
            es \<le> seg_in (st1\<lparr>track_complete := True\<rparr>) \<and>
            seg_in (st1\<lparr>track_complete := True\<rparr>) < int (length (segment_dist_x atl03)) \<and>
            es \<le> current_segment (v1\<lparr>current_photon := current_photon v + 1\<rparr>)))"
    by simp
qed simp

lemma calculateBackground_loop_no_time:
  assumes "calculateBackground_loop a b st = Some (r, st')"
    and "rd (segment_delta_time a) (extent_segment st) = None"
  shows "st' = st"
  using assms
  by (subst (asm) calculateBackground_loop.simps) (auto split: if_splits option.splits)

lemma calculateBackground_piecewise:
  assumes cb: "calculateBackground a st = Some (r, st')"
    and t: "rd (segment_delta_time a) (extent_segment st) = Some t"
    and sorted: "sorted (bckgrd_delta_time a)"
    and len: "length (bckgrd_rate a) = length (bckgrd_delta_time a)"
    and b0: "0 \<le> bckgrd_in st"
    and before: "\<forall>i. 0 \<le> i \<and> i < bckgrd_in st \<and> i < int (length (bckgrd_delta_time a))
                   \<longrightarrow> bckgrd_delta_time a ! nat i < t"
  shows "piecewise_linear a t r"
    and "\<exists>c. bckgrd_in st \<le> c \<and> st' = st\<lparr>bckgrd_in := c\<rparr> \<and>
             (\<forall>i. 0 \<le> i \<and> i < c \<and> i < int (length (bckgrd_delta_time a))
                \<longrightarrow> bckgrd_delta_time a ! nat i < t)"
proof -
  let ?N = "length (bckgrd_rate a)"
  let ?dt = "bckgrd_delta_time a"
  from cb obtain b where
    b: "rd (bckgrd_rate a) (int ?N - 1) = Some b"
    and loop: "calculateBackground_loop a b st = Some (r, st')"
    by (auto simp: calculateBackground_def split: option.splits)
  from b have N: "0 < ?N" by (auto simp: rd_def split: if_splits)
  then have "nat (int ?N - 1) = ?N - 1" by linarith
  with b have bl: "b = bckgrd_rate a ! (?N - 1)"
    by (auto simp: rd_def split: if_splits)
  from calculateBackground_loop_result [OF b0 _ t, of b] len obtain c where
    c: "bckgrd_in st \<le> c"
    and res: "calculateBackground_loop a b st = Some (bckgrd_result a b c t, st\<lparr>bckgrd_in := c\<rparr>)"
    and lo: "\<forall>i. bckgrd_in st \<le> i \<and> i < c \<longrightarrow> ?dt ! nat i < t"
    and hi: "c < int ?N \<longrightarrow> t \<le> ?dt ! nat c"
    by auto
  from loop res have r: "r = bckgrd_result a b c t" and st': "st' = st\<lparr>bckgrd_in := c\<rparr>"
    by simp_all
  have all: "\<forall>i. 0 \<le> i \<and> i < c \<and> i < int (length ?dt) \<longrightarrow> ?dt ! nat i < t"
  proof (intro allI impI)
    fix i assume i: "0 \<le> i \<and> i < c \<and> i < int (length ?dt)"
    show "?dt ! nat i < t"
    proof (cases "i < bckgrd_in st")
      case True
      with i before show ?thesis by simp
    next
      case False
      with i lo show ?thesis by simp
    qed
  qed
  from c st' all show "\<exists>c. bckgrd_in st \<le> c \<and> st' = st\<lparr>bckgrd_in := c\<rparr> \<and>
             (\<forall>i. 0 \<le> i \<and> i < c \<and> i < int (length ?dt) \<longrightarrow> ?dt ! nat i < t)"
    by blast
  have c0: "0 \<le> c" using b0 c by simp
  have first: "t \<le> ?dt ! 0 \<longrightarrow> r = bckgrd_rate a ! 0"
  proof
    assume le: "t \<le> ?dt ! 0"
    have "\<not> 0 < c"
    proof
      assume "0 < c"
      with all [rule_format, of 0] N len have "?dt ! 0 < t" by simp
      with le show False by simp
    qed
    with c0 have "c = 0" by simp
    with N show "r = bckgrd_rate a ! 0" by (simp add: r bckgrd_result_def)
  qed
  have last: "?dt ! (?N - 1) < t \<longrightarrow> r = bckgrd_rate a ! (?N - 1)"
  proof
    assume gt: "?dt ! (?N - 1) < t"
    have "\<not> c < int ?N"
    proof
      assume lt: "c < int ?N"
      with hi have "t \<le> ?dt ! nat c" by simp
      also have "?dt ! nat c \<le> ?dt ! (?N - 1)"
        using lt c0 len N by (intro sorted_nth_mono [OF sorted]) auto
      finally show False using gt by simp
    qed
    then show "r = bckgrd_rate a ! (?N - 1)" by (simp add: r bckgrd_result_def bl)
  qed
  have mid: "\<forall>k \<in> {1 ..< ?N}. ?dt ! (k - 1) < t \<and> t \<le> ?dt ! k \<longrightarrow> r = bckgrd_line a (int k) t"
  proof (intro ballI impI)
    fix k assume k: "k \<in> {1 ..< ?N}" and br: "?dt ! (k - 1) < t \<and> t \<le> ?dt ! k"
    have "\<not> int k < c"
    proof
      assume "int k < c"
      with all [rule_format, of "int k"] k len have "?dt ! k < t" by simp
      with br show False by simp
    qed
    moreover have "\<not> c < int k"
    proof
      assume lt: "c < int k"
      with k have "c < int ?N" by simp
      with hi have "t \<le> ?dt ! nat c" by simp
      also have "?dt ! nat c \<le> ?dt ! (k - 1)"
        using lt c0 k len by (intro sorted_nth_mono [OF sorted]) auto
      finally show False using br by simp
    qed
    ultimately have "c = int k" by simp
    with k show "r = bckgrd_line a (int k) t" by (simp add: r bckgrd_result_def)
  qed
  from first last mid show "piecewise_linear a t r"
    by (simp add: piecewise_linear_def)
qed

lemma extent_iteration_background:
  assumes it: "extent_iteration K parms info region atl03 atl08 yapc_arr st = Ok (st', posted)"
    and inv: "bckgrd_inv atl03 st"
    and sorted_dt: "sorted (bckgrd_delta_time atl03)"
    and sorted_sdt: "sorted (segment_delta_time atl03)"
    and len: "length (bckgrd_rate atl03) = length (bckgrd_delta_time atl03)"
    and segs: "length (segment_dist_x atl03) \<le> length (segment_delta_time atl03)"
  shows "bckgrd_inv atl03 st'" "bckgrd_in st \<le> bckgrd_in st'" "extent_segment st' = seg_in st"
    and "\<forall>e. posted = Some e \<longrightarrow>
           piecewise_linear atl03 (segment_delta_time atl03 ! nat (seg_in st)) (background_rate e)"
proof -
  let ?es = "seg_in st"
  let ?t = "segment_delta_time atl03 ! nat ?es"
  let ?dt = "bckgrd_delta_time atl03"
  let ?sdt = "segment_delta_time atl03"
  from inv have es: "0 \<le> ?es" "?es < int (length (segment_dist_x atl03))"
    and b0: "0 \<le> bckgrd_in st"
    and before: "\<And>i s. 0 \<le> i \<Longrightarrow> i < bckgrd_in st \<Longrightarrow> i < int (length ?dt) \<Longrightarrow> ?es \<le> s \<Longrightarrow>
                   s < int (length ?sdt) \<Longrightarrow> ?dt ! nat i < ?sdt ! nat s"
    by (auto simp: bckgrd_inv_def)
  from es segs have t: "rd ?sdt ?es = Some ?t" by (simp add: rd_def)
  from extent_iteration_shape [OF it] obtain along st1 v1 where
    loop: "extent_loop K parms region atl03 atl08 yapc_arr
             (st\<lparr>start_seg_portion := along / ATL03_SEGMENT_LENGTH, extent_segment := seg_in st,
                 extent_valid := True, extent_photons := []\<rparr>)
             \<lparr>current_photon = ph_in st, current_segment = seg_in st, current_count = seg_ph st,
              extent_complete = False, step_complete = False,
              segment_indices = (if anc_geo_data atl03 then Some [] else None),
              photon_indices = (if anc_ph_data atl03 then Some [] else None),
              atl08_indices = (if anc_seg_data atl08 then Some [] else None)\<rparr> = Ok (st1, v1)"
    and fin: "(posted = None \<and> st' = finish_extent parms atl03 st1) \<or>
            (\<exists>e. posted = Some e \<and>
                 generateExtentRecord parms info (finish_extent parms atl03 st1) atl03 = Some (e, st'))"
    by auto
  have "extent_segment st1 = ?es \<and> bckgrd_in st1 = bckgrd_in st \<and> ?es \<le> seg_in st1 \<and>
        seg_in st1 < int (length (segment_dist_x atl03)) \<and> ?es \<le> current_segment v1"
    by (rule extent_loop_segments [OF loop]) (use es in simp)
  then have st2: "extent_segment (finish_extent parms atl03 st1) = ?es"
    "bckgrd_in (finish_extent parms atl03 st1) = bckgrd_in st"
    "?es \<le> seg_in (finish_extent parms atl03 st1)"
    "seg_in (finish_extent parms atl03 st1) < int (length (segment_dist_x atl03))"
    by (simp_all add: finish_extent_fields)
  let ?st2 = "finish_extent parms atl03 st1"
  have main: "bckgrd_inv atl03 st' \<and> bckgrd_in st \<le> bckgrd_in st' \<and> extent_segment st' = ?es \<and>
              (\<forall>e. posted = Some e \<longrightarrow> piecewise_linear atl03 ?t (background_rate e))"
    using fin
  proof
    assume n: "posted = None \<and> st' = ?st2"
    have "bckgrd_inv atl03 ?st2"
      unfolding bckgrd_inv_def using st2 es b0 before by auto
    with n st2 show ?thesis by simp
  next
    assume "\<exists>e. posted = Some e \<and> generateExtentRecord parms info ?st2 atl03 = Some (e, st')"
    then obtain e where p: "posted = Some e"
      and gen: "generateExtentRecord parms info ?st2 atl03 = Some (e, st')"
      by blast
    from generateExtentRecord_shape [OF gen] have
      cb: "calculateBackground atl03 ?st2 = Some (background_rate e, st')"
      by auto
    have t2: "rd ?sdt (extent_segment ?st2) = Some ?t" using t st2 by simp
    have b2: "0 \<le> bckgrd_in ?st2" using b0 st2 by simp
    have before2: "\<forall>i. 0 \<le> i \<and> i < bckgrd_in ?st2 \<and> i < int (length ?dt) \<longrightarrow> ?dt ! nat i < ?t"
      using before [of _ ?es] es segs st2 by auto
    note pw = calculateBackground_piecewise [OF cb t2 sorted_dt len b2 before2]
    from pw(2) obtain c where c: "bckgrd_in ?st2 \<le> c" "st' = ?st2\<lparr>bckgrd_in := c\<rparr>"
      and lo: "\<And>i. 0 \<le> i \<Longrightarrow> i < c \<Longrightarrow> i < int (length ?dt) \<Longrightarrow> ?dt ! nat i < ?t"
      by blast
    have "bckgrd_inv atl03 st'"
      unfolding bckgrd_inv_def
    proof (intro conjI allI impI)
      show "0 \<le> bckgrd_in st'" using c b2 by simp
      show "0 \<le> seg_in st'" using c st2 es by simp
      show "seg_in st' < int (length (segment_dist_x atl03))" using c st2 by simp
    next
      fix i s
      assume a: "0 \<le> i \<and> i < bckgrd_in st' \<and> i < int (length ?dt) \<and> seg_in st' \<le> s \<and>
                 s < int (length ?sdt)"
      with c have "?dt ! nat i < ?t" using lo [of i] by simp
      also have "?t \<le> ?sdt ! nat s"
        using a c st2 es by (intro sorted_nth_mono [OF sorted_sdt]) auto
      finally show "?dt ! nat i < ?sdt ! nat s" .
    qed
    with c st2 p pw(1) show ?thesis by simp
  qed
  from main show "bckgrd_inv atl03 st'" "bckgrd_in st \<le> bckgrd_in st'" "extent_segment st' = seg_in st"
    "\<forall>e. posted = Some e \<longrightarrow> piecewise_linear atl03 ?t (background_rate e)"
    by simp_all
qed

lemma subsetting_state_from_background:
  assumes "subsetting_state_from n K parms info region atl03 atl08 yapc_arr st0 = Some st"
    and "bckgrd_inv atl03 st0"
    and "sorted (bckgrd_delta_time atl03)" "sorted (segment_delta_time atl03)"
    and "length (bckgrd_rate atl03) = length (bckgrd_delta_time atl03)"
    and "length (segment_dist_x atl03) \<le> length (segment_delta_time atl03)"
  shows "bckgrd_inv atl03 st \<and> bckgrd_in st0 \<le> bckgrd_in st"
  using assms(1,2)
proof (induction n arbitrary: st0)
  case 0
  then show ?case by simp
next
  case (Suc n)
  from Suc.prems(1) obtain st1 posted where
    it: "extent_iteration K parms info region atl03 atl08 yapc_arr st0 = Ok (st1, posted)"
    and rest: "subsetting_state_from n K parms info region atl03 atl08 yapc_arr st1 = Some st"
    by (auto split: if_splits outcome.splits)
  note b = extent_iteration_background [OF it Suc.prems(2) assms(3-6)]
  from Suc.IH [OF rest b(1)] b(2) show ?case by simp
qed

lemma subsetting_state_from_add:
  "subsetting_state_from (n + m) K parms info region atl03 atl08 yapc_arr st0 =
     (case subsetting_state_from n K parms info region atl03 atl08 yapc_arr st0 of
        None \<Rightarrow> None
      | Some st \<Rightarrow> subsetting_state_from m K parms info region atl03 atl08 yapc_arr st)"
  by (induction n arbitrary: st0) (auto split: outcome.splits)

lemma subsetting_loop_posted:
  assumes "e \<in> set (fst (subsetting_loop N K parms info region atl03 atl08 yapc_arr st0))"
  shows "\<exists>n<N. \<exists>st st'.
           subsetting_state_from n K parms info region atl03 atl08 yapc_arr st0 = Some st \<and>
           extent_iteration K parms info region atl03 atl08 yapc_arr st = Ok (st', Some e)"
  using assms
proof (induction N arbitrary: st0)
  case 0
  then show ?case by simp
next
  case (Suc N)
  from Suc.prems have tc: "\<not> track_complete st0" by (auto split: if_splits)
  from Suc.prems tc obtain st1 posted where
    it: "extent_iteration K parms info region atl03 atl08 yapc_arr st0 = Ok (st1, posted)"
    by (cases "extent_iteration K parms info region atl03 atl08 yapc_arr st0") auto
  from Suc.prems tc it have
    "posted = Some e \<or> e \<in> set (fst (subsetting_loop N K parms info region atl03 atl08 yapc_arr st1))"
    by (auto split: prod.splits option.splits)
  then show ?case
  proof
    assume "posted = Some e"
    with it have "subsetting_state_from 0 K parms info region atl03 atl08 yapc_arr st0 = Some st0 \<and>
        extent_iteration K parms info region atl03 atl08 yapc_arr st0 = Ok (st1, Some e)"
      by simp
    then show ?thesis by blast
  next
    assume "e \<in> set (fst (subsetting_loop N K parms info region atl03 atl08 yapc_arr st1))"
    from Suc.IH [OF this] obtain n st st' where n: "n < N"
      and s: "subsetting_state_from n K parms info region atl03 atl08 yapc_arr st1 = Some st"
      and i: "extent_iteration K parms info region atl03 atl08 yapc_arr st = Ok (st', Some e)"
      by blast
    from s tc it have
      "subsetting_state_from (Suc n) K parms info region atl03 atl08 yapc_arr st0 = Some st"
      by simp
    with n i show ?thesis by (intro exI [of _ "Suc n"]) auto
  qed
qed

lemma TrackState_init_background:
  assumes "TrackState_init parms atl03 = Some st"
  shows "bckgrd_inv atl03 st"
  using assms
  by (auto simp: TrackState_init_def bckgrd_inv_def rd_def split: option.splits if_splits)

text \<open>
  C4. Background rate. Let the background times and the segment times be in ascending order,
  with a rate for every background time and a time for every segment. Every extent record
  that the subsetting loop posts comes from a pass of the loop whose extent segment is in the
  segment datasets, and its \<open>background_rate\<close> is the piecewise-linear interpolation of
  \<^verbatim>\<open>bckgrd_rate\<close> at \<^verbatim>\<open>segment_delta_time[extent_segment]\<close>: \<^verbatim>\<open>bckgrd_rate[0]\<close> up to the
  first background time, the last rate after the last one, and the line through the two
  bracketing samples otherwise. The cursor \<open>bckgrd_in\<close> only advances: it starts at 0 or
  above, and between any two passes of the loop it does not decrease.
\<close>

theorem background_rate_interpolation:
  assumes dt: "sorted (bckgrd_delta_time atl03)"
    and sdt: "sorted (segment_delta_time atl03)"
    and len: "length (bckgrd_rate atl03) = length (bckgrd_delta_time atl03)"
    and segs: "length (segment_dist_x atl03) \<le> length (segment_delta_time atl03)"
  shows "(\<forall>e \<in> set (fst (subsetting_extents N K parms info region atl03 atl08 yapc_arr)).
           \<exists>n<N. \<exists>st st'.
             subsetting_state n K parms info region atl03 atl08 yapc_arr = Some st \<and>
             extent_iteration K parms info region atl03 atl08 yapc_arr st = Ok (st', Some e) \<and>
             0 \<le> extent_segment st' \<and>
             extent_segment st' < int (length (segment_delta_time atl03)) \<and>
             piecewise_linear atl03 (segment_delta_time atl03 ! nat (extent_segment st'))
               (background_rate e)) \<and>
         (\<forall>n m st st'.
            subsetting_state n K parms info region atl03 atl08 yapc_arr = Some st \<and>
            subsetting_state (n + m) K parms info region atl03 atl08 yapc_arr = Some st'
            \<longrightarrow> 0 \<le> bckgrd_in st \<and> bckgrd_in st \<le> bckgrd_in st')"
proof (cases "TrackState_init parms atl03")
  case None
  then show ?thesis by (simp add: subsetting_extents_def subsetting_state_def)
next
  case (Some st0)
  note inv0 = TrackState_init_background [OF Some]
  have emitted: "\<forall>e \<in> set (fst (subsetting_extents N K parms info region atl03 atl08 yapc_arr)).
           \<exists>n<N. \<exists>st st'.
             subsetting_state n K parms info region atl03 atl08 yapc_arr = Some st \<and>
             extent_iteration K parms info region atl03 atl08 yapc_arr st = Ok (st', Some e) \<and>
             0 \<le> extent_segment st' \<and>
             extent_segment st' < int (length (segment_delta_time atl03)) \<and>
             piecewise_linear atl03 (segment_delta_time atl03 ! nat (extent_segment st'))
               (background_rate e)"
  proof
    fix e assume "e \<in> set (fst (subsetting_extents N K parms info region atl03 atl08 yapc_arr))"
    with Some have "e \<in> set (fst (subsetting_loop N K parms info region atl03 atl08 yapc_arr st0))"
      by (simp add: subsetting_extents_def)
    from subsetting_loop_posted [OF this] obtain n st st' where n: "n < N"
      and s: "subsetting_state_from n K parms info region atl03 atl08 yapc_arr st0 = Some st"
      and i: "extent_iteration K parms info region atl03 atl08 yapc_arr st = Ok (st', Some e)"
      by blast
    from subsetting_state_from_background [OF s inv0 dt sdt len segs]
    have inv: "bckgrd_inv atl03 st" by simp
    note b = extent_iteration_background [OF i inv dt sdt len segs]
    from inv segs have "0 \<le> seg_in st" "seg_in st < int (length (segment_delta_time atl03))"
      by (auto simp: bckgrd_inv_def)
    with b(3,4) s Some n i show "\<exists>n<N. \<exists>st st'.
             subsetting_state n K parms info region atl03 atl08 yapc_arr = Some st \<and>
             extent_iteration K parms info region atl03 atl08 yapc_arr st = Ok (st', Some e) \<and>
             0 \<le> extent_segment st' \<and>
             extent_segment st' < int (length (segment_delta_time atl03)) \<and>
             piecewise_linear atl03 (segment_delta_time atl03 ! nat (extent_segment st'))
               (background_rate e)"
      by (auto simp: subsetting_state_def)
  qed
  have cursor: "\<forall>n m st st'.
            subsetting_state n K parms info region atl03 atl08 yapc_arr = Some st \<and>
            subsetting_state (n + m) K parms info region atl03 atl08 yapc_arr = Some st'
            \<longrightarrow> 0 \<le> bckgrd_in st \<and> bckgrd_in st \<le> bckgrd_in st'"
  proof (intro allI impI)
    fix n m st st'
    assume a: "subsetting_state n K parms info region atl03 atl08 yapc_arr = Some st \<and>
            subsetting_state (n + m) K parms info region atl03 atl08 yapc_arr = Some st'"
    with Some have s: "subsetting_state_from n K parms info region atl03 atl08 yapc_arr st0 = Some st"
      and s': "subsetting_state_from (n + m) K parms info region atl03 atl08 yapc_arr st0 = Some st'"
      by (simp_all add: subsetting_state_def)
    from s s' have m: "subsetting_state_from m K parms info region atl03 atl08 yapc_arr st = Some st'"
      by (simp add: subsetting_state_from_add)
    from subsetting_state_from_background [OF s inv0 dt sdt len segs]
    have inv: "bckgrd_inv atl03 st" by simp
    from subsetting_state_from_background [OF m inv dt sdt len segs] inv
    show "0 \<le> bckgrd_in st \<and> bckgrd_in st \<le> bckgrd_in st'"
      by (simp add: bckgrd_inv_def)
  qed
  from emitted cursor show ?thesis by blast
qed

theorem background_rate_interpolation_witness:
  "length (fst (subsetting_extents 5 example_constants example_parms example_info
      (example_region [3]) example_rate_atl03 (example_atl08 []) None)) = 1 \<and>
   segment_delta_time example_rate_atl03 = [7] \<and>
   background_rate (hd (fst (subsetting_extents 5 example_constants example_parms example_info
      (example_region [3]) example_rate_atl03 (example_atl08 []) None))) = 170"
proof -
  let ?run = "fst (subsetting_extents 5 example_constants example_parms example_info
      (example_region [3]) example_rate_atl03 (example_atl08 []) None)"
  have data: "bckgrd_delta_time example_rate_atl03 = [0, 10]"
    "bckgrd_rate example_rate_atl03 = [100, 200]"
    "segment_delta_time example_rate_atl03 = [7]"
    "length (segment_dist_x example_rate_atl03) = 1"
    by (simp_all add: example_rate_atl03_def example_atl03_def)
  have len: "length ?run = 1"
    by (simp add: run_simps example_simps example_rate_atl03_def eval_nat_numeral)
  then have e: "hd ?run \<in> set ?run" by (cases ?run) auto
  have "\<forall>e \<in> set ?run. \<exists>n<5. \<exists>st st'.
          subsetting_state n example_constants example_parms example_info (example_region [3])
            example_rate_atl03 (example_atl08 []) None = Some st \<and>
          extent_iteration example_constants example_parms example_info (example_region [3])
            example_rate_atl03 (example_atl08 []) None st = Ok (st', Some e) \<and>
          0 \<le> extent_segment st' \<and>
          extent_segment st' < int (length (segment_delta_time example_rate_atl03)) \<and>
          piecewise_linear example_rate_atl03
            (segment_delta_time example_rate_atl03 ! nat (extent_segment st')) (background_rate e)"
    using background_rate_interpolation [of example_rate_atl03 5 example_constants example_parms
        example_info "example_region [3]" "example_atl08 []" None]
    by (simp add: data)
  with e obtain s where s: "0 \<le> s" "s < int (length (segment_delta_time example_rate_atl03))"
    and pw: "piecewise_linear example_rate_atl03 (segment_delta_time example_rate_atl03 ! nat s)
               (background_rate (hd ?run))"
    by blast
  from s have "s = 0" by (simp add: data)
  with pw have "piecewise_linear example_rate_atl03 7 (background_rate (hd ?run))"
    by (simp add: data)
  then have "\<forall>k \<in> {1 ..< length (bckgrd_rate example_rate_atl03)}.
        bckgrd_delta_time example_rate_atl03 ! (k - 1) < 7 \<and>
        7 \<le> bckgrd_delta_time example_rate_atl03 ! k \<longrightarrow>
        background_rate (hd ?run) = bckgrd_line example_rate_atl03 (int k) 7"
    unfolding piecewise_linear_def by blast
  from this [THEN bspec, of 1]
  have "background_rate (hd ?run) = bckgrd_line example_rate_atl03 1 7"
    by (simp add: data)
  then have "background_rate (hd ?run) = 170"
    by (simp add: bckgrd_line_def data)
  with len data show ?thesis by simp
qed

end
